theory Spec2Isabelle
  imports Complex_Main "HOL-Library.Monad_Syntax" "HOL-Library.Char_ord" "HOL-Library.List_Lexorder"
    "HOL-Library.Log_Nat"
begin

section \<open>Data model: float64 cells, series and data frames\<close>

text \<open>
  The notebook threads one pandas data frame, \<^verbatim>\<open>cohort\<close>, through its cells.
  A float64 cell is either a double or NaN; a double is modelled as the rational number it
  denotes, NaN as \<open>None\<close>. Comparisons of doubles are exact; arithmetic on them rounds
  (\<open>float64_round\<close> below).
  An object cell holds a Python string, a Python float or a null.
  A data frame is the list of its columns in column order; every statement that raises
  in Python (a missing column, a cast that fails) is the result \<open>None\<close>.
\<close>

type_synonym num = "rat option"

datatype obj = Str string | Flt rat | Null

datatype series = Numeric "num list" | Object "obj list"

type_synonym frame = "(string \<times> series) list"

definition columns :: "frame \<Rightarrow> string list" where
  "columns df = map fst df"

fun slen :: "series \<Rightarrow> nat" where
  "slen (Numeric xs) = length xs"
| "slen (Object xs) = length xs"

text \<open>\<^verbatim>\<open>len(cohort.index)\<close>: the number of rows.\<close>

fun nrows :: "frame \<Rightarrow> nat" where
  "nrows [] = 0"
| "nrows (p # df) = slen (snd p)"

text \<open>The invariant of every pandas frame in this notebook: distinct column names, and all
  columns of one length.\<close>

definition rectangular :: "frame \<Rightarrow> bool" where
  "rectangular df = (distinct (columns df) \<and> list_all (\<lambda>p. slen (snd p) = nrows df) df)"

text \<open>\<^verbatim>\<open>cohort.c\<close> and \<^verbatim>\<open>cohort['c']\<close>; a missing column raises.\<close>

definition getcol :: "frame \<Rightarrow> string \<Rightarrow> series option" where
  "getcol df c = map_of df c"

text \<open>A column read for arithmetic or an ordering comparison has to be a numeric column here:
  arithmetic on an object column is outside the model and is reported as a failure.\<close>

definition numcol :: "frame \<Rightarrow> string \<Rightarrow> num list option" where
  "numcol df c = (case map_of df c of Some (Numeric xs) \<Rightarrow> Some xs | _ \<Rightarrow> None)"

definition objcol :: "frame \<Rightarrow> string \<Rightarrow> obj list option" where
  "objcol df c = (case map_of df c of Some (Object xs) \<Rightarrow> Some xs | _ \<Rightarrow> None)"

text \<open>\<^verbatim>\<open>cohort.drop(names, axis=1)\<close>: raises KeyError when a name is not a column.\<close>

definition drop_cols :: "string list \<Rightarrow> frame \<Rightarrow> frame option" where
  "drop_cols names df =
     (if list_all (\<lambda>c. c \<in> set (columns df)) names
      then Some (filter (\<lambda>p. fst p \<notin> set names) df) else None)"

text \<open>\<^verbatim>\<open>cohort.assign(c=s)\<close>, \<^verbatim>\<open>cohort['c'] = s\<close>: an existing column is replaced
  in place, a new one is appended as the last column.\<close>

fun assign :: "string \<Rightarrow> series \<Rightarrow> frame \<Rightarrow> frame" where
  "assign c s [] = [(c, s)]"
| "assign c s (p # df) = (if fst p = c then (c, s) # df else p # assign c s df)"

text \<open>Boolean indexing \<^verbatim>\<open>s[mask]\<close> of a series or array, and of the rows of a frame
  (\<^verbatim>\<open>cohort[mask]\<close>, \<^verbatim>\<open>cohort.loc[mask, :]\<close>).\<close>

definition bool_index :: "'a list \<Rightarrow> bool list \<Rightarrow> 'a list" where
  "bool_index xs msk = map fst (filter snd (zip xs msk))"

fun series_index :: "bool list \<Rightarrow> series \<Rightarrow> series" where
  "series_index msk (Numeric xs) = Numeric (bool_index xs msk)"
| "series_index msk (Object xs) = Object (bool_index xs msk)"

definition select_rows :: "bool list \<Rightarrow> frame \<Rightarrow> frame" where
  "select_rows msk df = map (\<lambda>p. (fst p, series_index msk (snd p))) df"

text \<open>Masked assignment into an array, \<^verbatim>\<open>a[mask] = vals\<close>: the selected slots take the
  values in order, the others keep their content.\<close>

fun mask_assign :: "'a list \<Rightarrow> bool list \<Rightarrow> 'a list \<Rightarrow> 'a list" where
  "mask_assign (a # as) (True # ms) (v # vs) = v # mask_assign as ms vs"
| "mask_assign (a # as) (False # ms) vs = a # mask_assign as ms vs"
| "mask_assign as ms vs = as"

text \<open>\<^verbatim>\<open>np.empty(n, dtype='float64')\<close>: an array of \<open>n\<close> slots of arbitrary content.
  The model fills it with NaN; lemma \<open>fill_by_check_eq\<close> below shows for an arbitrary
  initial content that the two masked assignments of the reducer overwrite every slot.\<close>

definition np_empty :: "nat \<Rightarrow> num list" where
  "np_empty n = replicate n None"

subsection \<open>Elementwise float64 operations\<close>

text \<open>
  A float64 cell that is not NaN holds a double: a number \<open>k * 2 ^ e\<close> with \<open>|k| < 2 ^ 53\<close>
  and \<open>-1074 \<le> e \<le> 971\<close> (IEEE 754 binary64). A decimal such as 3.1 is not a double; Python
  stores the double nearest to it. The result of an arithmetic operation on doubles is the exact
  result rounded to a double.

  \<open>ilog2 a\<close> is the binary exponent of a positive rational: the integer \<open>e\<close> with
  \<open>2 ^ e \<le> a < 2 ^ (e + 1)\<close>.
\<close>

definition ilog2 :: "rat \<Rightarrow> int" where
  "ilog2 a = (if 1 \<le> a then bitlen \<lfloor>a\<rfloor> - 1 else - bitlen (\<lceil>1 / a\<rceil> - 1))"

text \<open>Rounding to the nearest integer, a tie going to the even one.\<close>

definition round_half_even :: "rat \<Rightarrow> int" where
  "round_half_even t =
     (let n = \<lfloor>t\<rfloor>; f = t - of_int n
      in if f < 1 / 2 then n else if 1 / 2 < f then n + 1 else if even n then n else n + 1)"

text \<open>The distance between neighbouring doubles at a positive magnitude: 53 significant bits
  from \<open>2 ^ -1022\<close> on, the fixed spacing \<open>2 ^ -1074\<close> of the subnormal numbers below.\<close>

definition quantum :: "rat \<Rightarrow> rat" where
  "quantum a = 2 powi (max (ilog2 a) (- 1022) - 52)"

definition round_to_quantum :: "rat \<Rightarrow> rat" where
  "round_to_quantum a = of_int (round_half_even (a / quantum a)) * quantum a"

text \<open>A rounded magnitude of \<open>2 ^ 1024\<close> or more overflows to infinity. Infinity is represented
  by \<open>2 ^ 1024\<close>, which is above every double: the only operations applied to a rounded
  result here are \<^verbatim>\<open>abs\<close> and \<^verbatim>\<open>>=\<close>, and they treat the two alike.\<close>

definition saturate :: "rat \<Rightarrow> rat" where
  "saturate r = (if 1024 \<le> ilog2 r then 2 powi 1024 else r)"

text \<open>The float64 result of an arithmetic operation whose exact result is \<open>x\<close>: round to
  nearest, ties to even.\<close>

definition float64_round :: "rat \<Rightarrow> rat" where
  "float64_round x = (if x = 0 then 0 else sgn x * saturate (round_to_quantum \<bar>x\<bar>))"

text \<open>The doubles are the rationals that rounding leaves alone.\<close>

definition is_double :: "rat \<Rightarrow> bool" where
  "is_double x = (float64_round x = x \<and> ilog2 \<bar>x\<bar> < 1024)"

text \<open>Arithmetic rounds and propagates NaN; every comparison with NaN is false.
  \<open>num_sub x c\<close> is \<^verbatim>\<open>x - c\<close> for a float literal \<open>c\<close>.\<close>

definition num_sub :: "num \<Rightarrow> rat \<Rightarrow> num" where
  "num_sub x c = map_option (\<lambda>v. float64_round (v - c)) x"

definition num_abs :: "num \<Rightarrow> num" where
  "num_abs x = map_option abs x"

definition num_add :: "num \<Rightarrow> num \<Rightarrow> num" where
  "num_add x y = (case (x, y) of (Some a, Some b) \<Rightarrow> Some (float64_round (a + b)) | _ \<Rightarrow> None)"

definition num_ge :: "num \<Rightarrow> num \<Rightarrow> bool" where
  "num_ge x y = (case (x, y) of (Some a, Some b) \<Rightarrow> a \<ge> b | _ \<Rightarrow> False)"

definition num_le :: "num \<Rightarrow> num \<Rightarrow> bool" where
  "num_le x y = (case (x, y) of (Some a, Some b) \<Rightarrow> a \<le> b | _ \<Rightarrow> False)"

definition num_lt :: "num \<Rightarrow> num \<Rightarrow> bool" where
  "num_lt x y = (case (x, y) of (Some a, Some b) \<Rightarrow> a < b | _ \<Rightarrow> False)"

section \<open>Abnormal-value reduction\<close>

text \<open>
  \<^verbatim>\<open>sodium_check = abs(cohort.sodium_min - 135.) >= abs(cohort.sodium_max - 145.)\<close>
  and the same for potassium with 3.5 and 5.0.
\<close>

definition sodium_check :: "num list \<Rightarrow> num list \<Rightarrow> bool list" where
  "sodium_check sodium_min sodium_max =
     map (\<lambda>(m, M). num_ge (num_abs (num_sub m 135)) (num_abs (num_sub M 145)))
       (zip sodium_min sodium_max)"

definition potassium_check :: "num list \<Rightarrow> num list \<Rightarrow> bool list" where
  "potassium_check potassium_min potassium_max =
     map (\<lambda>(m, M). num_ge (num_abs (num_sub m 3.5)) (num_abs (num_sub M 5.0)))
       (zip potassium_min potassium_max)"

text \<open>\<^verbatim>\<open>wbc_check = cohort.wbc_min < 2\<close>, \<^verbatim>\<open>pmn_check = cohort.pmn_min < 45\<close>,
  \<^verbatim>\<open>lym_check = cohort.lymphs_min < 20\<close>.\<close>

definition wbc_check :: "num list \<Rightarrow> bool list" where
  "wbc_check wbc_min = map (\<lambda>m. num_lt m (Some 2)) wbc_min"

definition pmn_check :: "num list \<Rightarrow> bool list" where
  "pmn_check pmn_min = map (\<lambda>m. num_lt m (Some 45)) pmn_min"

definition lym_check :: "num list \<Rightarrow> bool list" where
  "lym_check lymphs_min = map (\<lambda>m. num_lt m (Some 20)) lymphs_min"

text \<open>
  The pattern the reducer repeats for each of the five analytes:
  \<^verbatim>\<open>
  x = np.empty(len(cohort.index), dtype='float64')
  x[check] = cohort.x_min[check]
  x[~check] = cohort.x_max[~check]
  \<close>
  with the initial array as a parameter.
\<close>

definition fill_by_check :: "num list \<Rightarrow> bool list \<Rightarrow> num list \<Rightarrow> num list \<Rightarrow> num list" where
  "fill_by_check init check x_min x_max =
     mask_assign (mask_assign init check (bool_index x_min check))
       (map Not check) (bool_index x_max (map Not check))"

definition most_abnormal :: "nat \<Rightarrow> bool list \<Rightarrow> num list \<Rightarrow> num list \<Rightarrow> num list" where
  "most_abnormal n check x_min x_max = fill_by_check (np_empty n) check x_min x_max"

text \<open>
  One analyte collapsed to a single column, as the reducer does it after computing the check:
  \<^verbatim>\<open>
  cohort = cohort.assign(x=x)
  cohort = cohort.drop(['x_min', 'x_max'], axis=1)
  \<close>
\<close>

definition collapse :: "string \<Rightarrow> string \<Rightarrow> string \<Rightarrow> bool list \<Rightarrow> frame \<Rightarrow> frame option" where
  "collapse x x_min x_max check cohort = do {
     mins \<leftarrow> numcol cohort x_min;
     maxs \<leftarrow> numcol cohort x_max;
     drop_cols [x_min, x_max]
       (assign x (Numeric (most_abnormal (nrows cohort) check mins maxs)) cohort)
   }"

text \<open>The columns dropped for the analytes that deviate in one direction only.\<close>

definition lab_drop :: "string list" where
  "lab_drop = [''bicarbonate_max'', ''platelet_max'',
     ''hemoglobin_max'', ''fibrinogen_max'', ''hematocrit_max'', ''albumin_max'', ''ioncalcium_max'',
     ''creatinine_min'', ''alt_min'', ''ast_min'', ''alkphos_min'',
     ''bun_min'', ''bilirubin_min'', ''pt_min'', ''ptt_min'', ''inr_min'', ''lactate_min'',
     ''tropi_min'', ''amylase_min'', ''lipase_min'', ''cpk_min'']"

text \<open>The whole reduction cell: the drop of \<open>lab_drop\<close>, sodium, potassium, and the three white
  cell counts, whose checks are all computed before the first of them is collapsed.\<close>

definition reduce_abnormal :: "frame \<Rightarrow> frame option" where
  "reduce_abnormal cohort0 = do {
     cohort1 \<leftarrow> drop_cols lab_drop cohort0;
     sodium_min \<leftarrow> numcol cohort1 ''sodium_min'';
     sodium_max \<leftarrow> numcol cohort1 ''sodium_max'';
     cohort2 \<leftarrow> collapse ''sodium'' ''sodium_min'' ''sodium_max''
                  (sodium_check sodium_min sodium_max) cohort1;
     potassium_min \<leftarrow> numcol cohort2 ''potassium_min'';
     potassium_max \<leftarrow> numcol cohort2 ''potassium_max'';
     cohort3 \<leftarrow> collapse ''potassium'' ''potassium_min'' ''potassium_max''
                  (potassium_check potassium_min potassium_max) cohort2;
     wbc_min \<leftarrow> numcol cohort3 ''wbc_min'';
     pmn_min \<leftarrow> numcol cohort3 ''pmn_min'';
     lymphs_min \<leftarrow> numcol cohort3 ''lymphs_min'';
     cohort4 \<leftarrow> collapse ''wbc'' ''wbc_min'' ''wbc_max'' (wbc_check wbc_min) cohort3;
     cohort5 \<leftarrow> collapse ''pmn'' ''pmn_min'' ''pmn_max'' (pmn_check pmn_min) cohort4;
     collapse ''lym'' ''lymphs_min'' ''lymphs_max'' (lym_check lymphs_min) cohort5
   }"

section \<open>Inclusion and exclusion criteria\<close>

text \<open>\<^verbatim>\<open>s == 'lit'\<close>: a float64 cell never equals a string.\<close>

fun eq_str :: "series \<Rightarrow> string \<Rightarrow> bool list" where
  "eq_str (Numeric xs) lit = map (\<lambda>x. False) xs"
| "eq_str (Object xs) lit = map (\<lambda>x. x = Str lit) xs"

text \<open>\<^verbatim>\<open>s.isin(lits)\<close> for a list of strings.\<close>

fun isin_str :: "series \<Rightarrow> string list \<Rightarrow> bool list" where
  "isin_str (Numeric xs) lits = map (\<lambda>x. False) xs"
| "isin_str (Object xs) lits = map (\<lambda>x. x \<in> Str ` set lits) xs"

text \<open>\<^verbatim>\<open>cohort.loc[msk, c] = v\<close> for a float \<open>v\<close>, on the column's series.\<close>

fun loc_set :: "bool list \<Rightarrow> rat \<Rightarrow> series \<Rightarrow> series" where
  "loc_set msk v (Numeric xs) = Numeric (map (\<lambda>(b, x). if b then Some v else x) (zip msk xs))"
| "loc_set msk v (Object xs) = Object (map (\<lambda>(b, x). if b then Flt v else x) (zip msk xs))"

text \<open>\<^verbatim>\<open>s.astype('float64')\<close>. Python's conversion of a string to a float is the parameter
  \<open>float_of_str\<close>, which returns \<open>None\<close> where Python raises ValueError; a null becomes NaN.\<close>

fun float_of_obj :: "(string \<Rightarrow> num option) \<Rightarrow> obj \<Rightarrow> num option" where
  "float_of_obj float_of_str (Str s) = float_of_str s"
| "float_of_obj float_of_str (Flt x) = Some (Some x)"
| "float_of_obj float_of_str Null = Some None"

fun astype_float :: "(string \<Rightarrow> num option) \<Rightarrow> series \<Rightarrow> num list option" where
  "astype_float float_of_str (Numeric xs) = Some xs"
| "astype_float float_of_str (Object xs) = those (map (float_of_obj float_of_str) xs)"

text \<open>
  \<^verbatim>\<open>
  cohort.loc[cohort.age == '> 89', 'age'] = 93.0
  cohort = cohort.loc[cohort.age != '', :]
  cohort.age = cohort.age.astype('float64')
  cohort = cohort.loc[cohort.age >= 18., :]
  \<close>
\<close>

definition age_filter :: "(string \<Rightarrow> num option) \<Rightarrow> frame \<Rightarrow> frame option" where
  "age_filter float_of_str cohort0 = do {
     age0 \<leftarrow> getcol cohort0 ''age'';
     let cohort1 = assign ''age'' (loc_set (eq_str age0 ''> 89'') 93 age0) cohort0;
     age1 \<leftarrow> getcol cohort1 ''age'';
     let cohort2 = select_rows (map Not (eq_str age1 '''')) cohort1;
     age2 \<leftarrow> getcol cohort2 ''age'';
     age3 \<leftarrow> astype_float float_of_str age2;
     let cohort3 = assign ''age'' (Numeric age3) cohort2;
     age4 \<leftarrow> numcol cohort3 ''age'';
     Some (select_rows (map (\<lambda>a. num_ge a (Some 18)) age4) cohort3)
   }"

text \<open>\<^verbatim>\<open>cohort = cohort.loc[cohort.unit_los >= 240, :]\<close>\<close>

definition los_filter :: "frame \<Rightarrow> frame option" where
  "los_filter cohort = do {
     unit_los \<leftarrow> numcol cohort ''unit_los'';
     Some (select_rows (map (\<lambda>l. num_ge l (Some 240)) unit_los) cohort)
   }"

text \<open>\<^verbatim>\<open>cohort = cohort[~cohort.admit_diagnosis.isin(['S-UGIBLEED', 'S-LGIBLEED'])]\<close>\<close>

definition surgical_filter :: "frame \<Rightarrow> frame option" where
  "surgical_filter cohort = do {
     admit_diagnosis \<leftarrow> getcol cohort ''admit_diagnosis'';
     Some (select_rows (map Not (isin_str admit_diagnosis [''S-UGIBLEED'', ''S-LGIBLEED''])) cohort)
   }"

text \<open>\<^verbatim>\<open>cohort = cohort[(cohort.weight >= 50) & (cohort.weight <= 300)]\<close>\<close>

definition weight_filter :: "frame \<Rightarrow> frame option" where
  "weight_filter cohort = do {
     weight \<leftarrow> numcol cohort ''weight'';
     Some (select_rows (map (\<lambda>w. num_ge w (Some 50) \<and> num_le w (Some 300)) weight) cohort)
   }"

text \<open>\<^verbatim>\<open>cohort = cohort[(cohort.height <= 250) & (cohort.height >= 50)]\<close>\<close>

definition height_filter :: "frame \<Rightarrow> frame option" where
  "height_filter cohort = do {
     height \<leftarrow> numcol cohort ''height'';
     Some (select_rows (map (\<lambda>h. num_le h (Some 250) \<and> num_ge h (Some 50)) height) cohort)
   }"

definition filter_stage :: "(string \<Rightarrow> num option) \<Rightarrow> frame \<Rightarrow> frame option" where
  "filter_stage float_of_str cohort = do {
     cohort1 \<leftarrow> age_filter float_of_str cohort;
     cohort2 \<leftarrow> los_filter cohort1;
     cohort3 \<leftarrow> surgical_filter cohort2;
     cohort4 \<leftarrow> weight_filter cohort3;
     height_filter cohort4
   }"

section \<open>Feature curation\<close>

text \<open>\<^verbatim>\<open>cohort.replace(-1, np.nan)\<close>: every cell of the table that equals \<open>-1\<close>, in every
  column; a string never equals \<open>-1\<close>.\<close>

fun replace_series :: "series \<Rightarrow> series" where
  "replace_series (Numeric xs) = Numeric (map (\<lambda>x. if x = Some (- 1) then None else x) xs)"
| "replace_series (Object xs) = Object (map (\<lambda>x. if x = Flt (- 1) then Null else x) xs)"

definition replace_frame :: "frame \<Rightarrow> frame" where
  "replace_frame df = map (\<lambda>p. (fst p, replace_series (snd p))) df"

text \<open>
  \<^verbatim>\<open>
  cohort = cohort.replace(-1, np.nan)
  cohort = cohort.drop(['sbp_periodic_mean', ..., 'unitadmitsource'], axis=1)
  \<close>
\<close>

definition relabel_and_prune :: "frame \<Rightarrow> frame option" where
  "relabel_and_prune cohort =
     drop_cols [''sbp_periodic_mean'', ''dbp_periodic_mean'', ''map_periodic_mean'',
                ''tempc_mean'', ''apache_pao2'', ''apache_fio2'', ''apache_o2ratio'', ''hospital_los'',
                ''unitadmitsource'']
       (replace_frame cohort)"

text \<open>\<^verbatim>\<open>cohort = cohort.drop(['apache_score','unit_los'], axis=1)\<close>\<close>

definition drop_score_and_los :: "frame \<Rightarrow> frame option" where
  "drop_score_and_los cohort = drop_cols [''apache_score'', ''unit_los''] cohort"

text \<open>The four drops of the cell commented \<^verbatim>\<open># Drop features\<close>.\<close>

definition drop_features :: "frame \<Rightarrow> frame option" where
  "drop_features cohort0 = do {
     cohort1 \<leftarrow> drop_cols [''height'', ''weight'', ''gender'', ''ethnicity'',
                  ''unit_type'',
                  ''diabetes'', ''copd'', ''cad'', ''ckd'', ''afib'', ''cirrhosis'', ''hepatic_failure'',
                  ''sedative'', ''diuretic'', ''antiinf'',
                  ''apache_midur'',
                  ''sodium'', ''glucose_min''] cohort0;
     cohort2 \<leftarrow> drop_cols [''gcs_meds''] cohort1;
     cohort3 \<leftarrow> drop_cols [''sbp_aperiodic_mean'', ''dbp_aperiodic_mean'',
                  ''apache_ventday1'',
                  ''alt_max'',
                  ''hematocrit_min'',
                  ''lym''] cohort2;
     drop_cols [''tropi_max'',
                ''fibrinogen_min'',
                ''ioncalcium_min'',
                ''cpk_max'',
                ''amylase_max'', ''lipase_max''] cohort3
   }"

text \<open>
  \<^verbatim>\<open>pd.get_dummies(s, prefix, drop_first=True)\<close>: one 0/1 column per distinct string of the
  series, in sorted order, without the first; a null row is 0 in every column. A series that
  holds a float is outside the model.
\<close>

fun is_flt :: "obj \<Rightarrow> bool" where
  "is_flt (Flt x) = True"
| "is_flt x = False"

fun strs :: "obj list \<Rightarrow> string list" where
  "strs [] = []"
| "strs (Str s # xs) = s # strs xs"
| "strs (x # xs) = strs xs"

definition levels :: "obj list \<Rightarrow> string list" where
  "levels xs = sort (remdups (strs xs))"

definition get_dummies :: "obj list \<Rightarrow> string \<Rightarrow> frame option" where
  "get_dummies xs prefix =
     (if list_ex is_flt xs then None
      else Some (map (\<lambda>l. (prefix @ ''_'' @ l,
                           Numeric (map (\<lambda>x. if x = Str l then Some 1 else Some 0) xs)))
                   (tl (levels xs))))"

text \<open>
  \<^verbatim>\<open>
  adx_dummies = pd.get_dummies(cohort.admit_diagnosis, 'adx', drop_first=True)
  cohort = pd.concat([cohort, adx_dummies], axis=1)
  cohort = cohort.drop('admit_diagnosis', axis=1)
  \<close>
\<close>

definition encode_admit_diagnosis :: "frame \<Rightarrow> frame option" where
  "encode_admit_diagnosis cohort = do {
     admit_diagnosis \<leftarrow> objcol cohort ''admit_diagnosis'';
     adx_dummies \<leftarrow> get_dummies admit_diagnosis ''adx'';
     drop_cols [''admit_diagnosis''] (cohort @ adx_dummies)
   }"

text \<open>
  \<^verbatim>\<open>
  gcs_net = cohort['gcs_eyes'] + cohort['gcs_motor'] + cohort['gcs_verbal']
  cohort['gcs'] = gcs_net
  cohort = cohort.drop(['gcs_eyes','gcs_motor','gcs_verbal'], axis=1)
  \<close>
\<close>

definition combine_gcs :: "frame \<Rightarrow> frame option" where
  "combine_gcs cohort = do {
     gcs_eyes \<leftarrow> numcol cohort ''gcs_eyes'';
     gcs_motor \<leftarrow> numcol cohort ''gcs_motor'';
     gcs_verbal \<leftarrow> numcol cohort ''gcs_verbal'';
     let gcs_net = map (\<lambda>(em, v). num_add em v)
                     (zip (map (\<lambda>(e, m). num_add e m) (zip gcs_eyes gcs_motor)) gcs_verbal);
     drop_cols [''gcs_eyes'', ''gcs_motor'', ''gcs_verbal'']
       (assign ''gcs'' (Numeric gcs_net) cohort)
   }"

section \<open>Label and benchmark separation\<close>

text \<open>
  \<^verbatim>\<open>
  label = (cohort.hospital_expiration == 'EXPIRED').astype('int')
  apache_pred = cohort.apache_prediction
  cohort = cohort.drop(['hospital_expiration', 'apache_prediction'], axis=1)
  \<close>
  The result is the feature matrix handed to \<^verbatim>\<open>train_test_split\<close>, with the label and
  the benchmark prediction.
\<close>

definition separate_label :: "frame \<Rightarrow> (frame \<times> int list \<times> series) option" where
  "separate_label cohort0 = do {
     hospital_expiration \<leftarrow> getcol cohort0 ''hospital_expiration'';
     let label = map (\<lambda>b. if b then 1 else 0) (eq_str hospital_expiration ''EXPIRED'');
     apache_pred \<leftarrow> getcol cohort0 ''apache_prediction'';
     cohort1 \<leftarrow> drop_cols [''hospital_expiration'', ''apache_prediction''] cohort0;
     Some (cohort1, label, apache_pred)
   }"

text \<open>The cells between the reducer and the split, in notebook order.\<close>

definition curate :: "frame \<Rightarrow> (frame \<times> int list \<times> series) option" where
  "curate cohort0 = do {
     cohort1 \<leftarrow> relabel_and_prune cohort0;
     cohort2 \<leftarrow> drop_score_and_los cohort1;
     cohort3 \<leftarrow> drop_features cohort2;
     cohort4 \<leftarrow> encode_admit_diagnosis cohort3;
     cohort5 \<leftarrow> combine_gcs cohort4;
     separate_label cohort5
   }"

text \<open>The notebook from the merged cohort to the pre-split feature matrix.\<close>

definition prepare :: "(string \<Rightarrow> num option) \<Rightarrow> frame \<Rightarrow> (frame \<times> int list \<times> series) option" where
  "prepare float_of_str cohort0 = do {
     cohort1 \<leftarrow> filter_stage float_of_str cohort0;
     cohort2 \<leftarrow> reduce_abnormal cohort1;
     curate cohort2
   }"

section \<open>The schema of the merged cohort and sample tables\<close>

text \<open>
  The columns of \<^verbatim>\<open>cohort\<close> after the inner join of \<^verbatim>\<open>base_cohort\<close> and
  \<^verbatim>\<open>feature_set\<close> on \<^verbatim>\<open>patientunitstayid\<close>: the select lists of the two queries, with
  the names in lower case as PostgreSQL returns them (34 + 73 - 1 = 106 columns).
\<close>

definition cohort_columns :: "string list" where
  "cohort_columns =
    [''patientunitstayid'', ''age'', ''gender'', ''ethnicity'', ''height'',
     ''weight'', ''unit_type'', ''unitadmitsource'', ''unit_los'', ''hospital_los'',
     ''gcs_meds'', ''gcs_verbal'', ''gcs_motor'', ''gcs_eyes'', ''admit_diagnosis'',
     ''hepatic_failure'', ''metastatic_cancer'', ''immunosuppression'', ''cirrhosis'', ''diabetes'',
     ''copd'', ''cad'', ''afib'', ''ckd'', ''apache_readmit'',
     ''apache_midur'', ''apache_ventday1'', ''apache_intubday1'', ''apache_fio2'', ''apache_pao2'',
     ''apache_o2ratio'', ''apache_prediction'', ''apache_score'', ''hospital_expiration'', ''hr_mean'',
     ''sbp_periodic_mean'', ''dbp_periodic_mean'', ''map_periodic_mean'', ''sbp_aperiodic_mean'', ''dbp_aperiodic_mean'',
     ''map_aperiodic_mean'', ''rr_mean'', ''spo2_mean'', ''tempc_mean'', ''albumin_min'',
     ''albumin_max'', ''amylase_min'', ''amylase_max'', ''bicarbonate_min'', ''bicarbonate_max'',
     ''bun_min'', ''bun_max'', ''cpk_min'', ''cpk_max'', ''bilirubin_min'',
     ''bilirubin_max'', ''ioncalcium_min'', ''ioncalcium_max'', ''creatinine_min'', ''creatinine_max'',
     ''glucose_min'', ''glucose_max'', ''hematocrit_min'', ''hematocrit_max'', ''fibrinogen_min'',
     ''fibrinogen_max'', ''lipase_min'', ''lipase_max'', ''hemoglobin_min'', ''hemoglobin_max'',
     ''lactate_min'', ''lactate_max'', ''lymphs_min'', ''lymphs_max'', ''platelet_min'',
     ''platelet_max'', ''pmn_min'', ''pmn_max'', ''potassium_min'', ''potassium_max'',
     ''ptt_min'', ''ptt_max'', ''inr_min'', ''inr_max'', ''pt_min'',
     ''pt_max'', ''sodium_min'', ''sodium_max'', ''tropi_min'', ''tropi_max'',
     ''wbc_min'', ''wbc_max'', ''alt_min'', ''alt_max'', ''ast_min'',
     ''ast_max'', ''alkphos_min'', ''alkphos_max'', ''abx'', ''vasopressor'',
     ''antiarr'', ''sedative'', ''diuretic'', ''blood_product_prbc'', ''blood_product_other'',
     ''antiinf'']"

text \<open>The admission diagnoses of the base cohort, as the notebook prints them.\<close>

definition admit_diagnoses :: "string list" where
  "admit_diagnoses = [''UNKGIBLEED'', ''UGIBLEED'', ''LOWGIBLEED'', ''S-UGIBLEED'', ''S-LGIBLEED'']"

text \<open>
  A sample cohort of four stays over that schema, as it leaves the inclusion and exclusion
  criteria (the age is already a float64 column). The second stay carries the sentinel \<open>-1\<close>
  in several columns, among them the white cell and neutrophil bounds; the fourth stay has
  minima without maxima.
\<close>

definition const_col :: "rat \<Rightarrow> series" where
  "const_col v = Numeric (replicate 4 (Some v))"

definition example_cohort :: frame where
  "example_cohort =
    [(''patientunitstayid'', Numeric [Some 141168, Some 141178, Some 141179, Some 141194]),
     (''age'', Numeric [Some 70, Some 93, Some 52, Some 18]),
     (''gender'', Object [Str ''Female'', Str ''Male'', Str ''Male'', Str ''Female'']),
     (''ethnicity'', Object [Str ''Caucasian'', Str ''Caucasian'', Null, Str ''Hispanic'']),
     (''height'', Numeric [Some 170, Some 160, Some 50, Some 250]),
     (''weight'', Numeric [Some 80, Some 60, Some 300, Some 50]),
     (''unit_type'', Object [Str ''MICU'', Str ''Med-Surg ICU'', Str ''MICU'', Str ''SICU'']),
     (''unitadmitsource'', Object [Str ''Emergency Department'', Str ''Floor'', Str ''Emergency Department'', Str ''Floor'']),
     (''unit_los'', Numeric [Some 3000, Some 500, Some 240, Some 1200]),
     (''hospital_los'', Numeric [Some 9000, Some (- 1), Some 5000, Some 4000]),
     (''gcs_meds'', const_col 0),
     (''gcs_verbal'', Numeric [Some 5, Some (- 1), Some 4, Some 5]),
     (''gcs_motor'', Numeric [Some 6, Some 6, Some 5, Some 6]),
     (''gcs_eyes'', Numeric [Some 4, Some 3, None, Some 4]),
     (''admit_diagnosis'', Object [Str ''UGIBLEED'', Str ''LOWGIBLEED'', Str ''UNKGIBLEED'', Str ''UGIBLEED'']),
     (''hepatic_failure'', const_col 0),
     (''metastatic_cancer'', const_col 0),
     (''immunosuppression'', const_col 0),
     (''cirrhosis'', const_col 0),
     (''diabetes'', const_col 0),
     (''copd'', const_col 0),
     (''cad'', const_col 0),
     (''afib'', const_col 0),
     (''ckd'', const_col 0),
     (''apache_readmit'', const_col 0),
     (''apache_midur'', const_col 0),
     (''apache_ventday1'', const_col 0),
     (''apache_intubday1'', const_col 0),
     (''apache_fio2'', const_col 0),
     (''apache_pao2'', const_col 0),
     (''apache_o2ratio'', const_col 0),
     (''apache_prediction'', Numeric [Some (1 / 16), Some (5 / 8), Some (- 1), Some (1 / 32)]),
     (''apache_score'', Numeric [Some 40, Some 95, Some 60, Some 30]),
     (''hospital_expiration'', Object [Str ''ALIVE'', Str ''EXPIRED'', Str ''ALIVE'', Str ''ALIVE'']),
     (''hr_mean'', const_col 80),
     (''sbp_periodic_mean'', const_col 80),
     (''dbp_periodic_mean'', const_col 80),
     (''map_periodic_mean'', const_col 80),
     (''sbp_aperiodic_mean'', const_col 80),
     (''dbp_aperiodic_mean'', const_col 80),
     (''map_aperiodic_mean'', const_col 80),
     (''rr_mean'', const_col 80),
     (''spo2_mean'', const_col 80),
     (''tempc_mean'', const_col 80),
     (''albumin_min'', const_col 3),
     (''albumin_max'', const_col 9),
     (''amylase_min'', const_col 3),
     (''amylase_max'', const_col 9),
     (''bicarbonate_min'', const_col 3),
     (''bicarbonate_max'', const_col 9),
     (''bun_min'', const_col 3),
     (''bun_max'', const_col 9),
     (''cpk_min'', const_col 3),
     (''cpk_max'', const_col 9),
     (''bilirubin_min'', const_col 3),
     (''bilirubin_max'', const_col 9),
     (''ioncalcium_min'', const_col 3),
     (''ioncalcium_max'', const_col 9),
     (''creatinine_min'', const_col 3),
     (''creatinine_max'', const_col 9),
     (''glucose_min'', Numeric [Some 90, Some 70, Some (- 1), Some 100]),
     (''glucose_max'', Numeric [Some 180, Some (- 1), Some 140, Some 120]),
     (''hematocrit_min'', const_col 3),
     (''hematocrit_max'', const_col 9),
     (''fibrinogen_min'', const_col 3),
     (''fibrinogen_max'', const_col 9),
     (''lipase_min'', const_col 3),
     (''lipase_max'', const_col 9),
     (''hemoglobin_min'', const_col 3),
     (''hemoglobin_max'', const_col 9),
     (''lactate_min'', const_col 3),
     (''lactate_max'', const_col 9),
     (''lymphs_min'', Numeric [Some 10, None, Some 20, Some 25]),
     (''lymphs_max'', Numeric [Some 30, None, Some 35, Some 40]),
     (''platelet_min'', const_col 3),
     (''platelet_max'', const_col 9),
     (''pmn_min'', Numeric [Some 50, Some (- 1), Some 44, Some 60]),
     (''pmn_max'', Numeric [Some 80, Some (- 1), Some 70, None]),
     (''potassium_min'', Numeric [Some (13 / 4), None, Some (11 / 4), Some 3]),
     (''potassium_max'', Numeric [Some (23 / 4), Some (21 / 4), Some (41 / 8), None]),
     (''ptt_min'', const_col 3),
     (''ptt_max'', const_col 9),
     (''inr_min'', const_col 3),
     (''inr_max'', const_col 9),
     (''pt_min'', const_col 3),
     (''pt_max'', const_col 9),
     (''sodium_min'', Numeric [Some 128, Some 140, Some 135, Some 136]),
     (''sodium_max'', Numeric [Some 150, Some 146, Some 145, None]),
     (''tropi_min'', const_col 3),
     (''tropi_max'', const_col 9),
     (''wbc_min'', Numeric [Some (3 / 2), Some (- 1), Some 5, Some 1]),
     (''wbc_max'', Numeric [Some 14, Some 10, Some 14, None]),
     (''alt_min'', const_col 3),
     (''alt_max'', const_col 9),
     (''ast_min'', const_col 3),
     (''ast_max'', const_col 9),
     (''alkphos_min'', const_col 3),
     (''alkphos_max'', const_col 9),
     (''abx'', const_col 1),
     (''vasopressor'', const_col 1),
     (''antiarr'', const_col 1),
     (''sedative'', const_col 1),
     (''diuretic'', const_col 1),
     (''blood_product_prbc'', const_col 1),
     (''blood_product_other'', const_col 1),
     (''antiinf'', const_col 1)]"

text \<open>The sample after the reduction cell.\<close>

definition example_reduced :: frame where
  "example_reduced =
    [(''patientunitstayid'', Numeric [Some 141168, Some 141178, Some 141179, Some 141194]),
     (''age'', Numeric [Some 70, Some 93, Some 52, Some 18]),
     (''gender'', Object [Str ''Female'', Str ''Male'', Str ''Male'', Str ''Female'']),
     (''ethnicity'', Object [Str ''Caucasian'', Str ''Caucasian'', Null, Str ''Hispanic'']),
     (''height'', Numeric [Some 170, Some 160, Some 50, Some 250]),
     (''weight'', Numeric [Some 80, Some 60, Some 300, Some 50]),
     (''unit_type'', Object [Str ''MICU'', Str ''Med-Surg ICU'', Str ''MICU'', Str ''SICU'']),
     (''unitadmitsource'', Object [Str ''Emergency Department'', Str ''Floor'', Str ''Emergency Department'', Str ''Floor'']),
     (''unit_los'', Numeric [Some 3000, Some 500, Some 240, Some 1200]),
     (''hospital_los'', Numeric [Some 9000, Some (- 1), Some 5000, Some 4000]),
     (''gcs_meds'', const_col 0),
     (''gcs_verbal'', Numeric [Some 5, Some (- 1), Some 4, Some 5]),
     (''gcs_motor'', Numeric [Some 6, Some 6, Some 5, Some 6]),
     (''gcs_eyes'', Numeric [Some 4, Some 3, None, Some 4]),
     (''admit_diagnosis'', Object [Str ''UGIBLEED'', Str ''LOWGIBLEED'', Str ''UNKGIBLEED'', Str ''UGIBLEED'']),
     (''hepatic_failure'', const_col 0),
     (''metastatic_cancer'', const_col 0),
     (''immunosuppression'', const_col 0),
     (''cirrhosis'', const_col 0),
     (''diabetes'', const_col 0),
     (''copd'', const_col 0),
     (''cad'', const_col 0),
     (''afib'', const_col 0),
     (''ckd'', const_col 0),
     (''apache_readmit'', const_col 0),
     (''apache_midur'', const_col 0),
     (''apache_ventday1'', const_col 0),
     (''apache_intubday1'', const_col 0),
     (''apache_fio2'', const_col 0),
     (''apache_pao2'', const_col 0),
     (''apache_o2ratio'', const_col 0),
     (''apache_prediction'', Numeric [Some (1 / 16), Some (5 / 8), Some (- 1), Some (1 / 32)]),
     (''apache_score'', Numeric [Some 40, Some 95, Some 60, Some 30]),
     (''hospital_expiration'', Object [Str ''ALIVE'', Str ''EXPIRED'', Str ''ALIVE'', Str ''ALIVE'']),
     (''hr_mean'', const_col 80),
     (''sbp_periodic_mean'', const_col 80),
     (''dbp_periodic_mean'', const_col 80),
     (''map_periodic_mean'', const_col 80),
     (''sbp_aperiodic_mean'', const_col 80),
     (''dbp_aperiodic_mean'', const_col 80),
     (''map_aperiodic_mean'', const_col 80),
     (''rr_mean'', const_col 80),
     (''spo2_mean'', const_col 80),
     (''tempc_mean'', const_col 80),
     (''albumin_min'', const_col 3),
     (''amylase_max'', const_col 9),
     (''bicarbonate_min'', const_col 3),
     (''bun_max'', const_col 9),
     (''cpk_max'', const_col 9),
     (''bilirubin_max'', const_col 9),
     (''ioncalcium_min'', const_col 3),
     (''creatinine_max'', const_col 9),
     (''glucose_min'', Numeric [Some 90, Some 70, Some (- 1), Some 100]),
     (''glucose_max'', Numeric [Some 180, Some (- 1), Some 140, Some 120]),
     (''hematocrit_min'', const_col 3),
     (''fibrinogen_min'', const_col 3),
     (''lipase_max'', const_col 9),
     (''hemoglobin_min'', const_col 3),
     (''lactate_max'', const_col 9),
     (''platelet_min'', const_col 3),
     (''ptt_max'', const_col 9),
     (''inr_max'', const_col 9),
     (''pt_max'', const_col 9),
     (''tropi_max'', const_col 9),
     (''alt_max'', const_col 9),
     (''ast_max'', const_col 9),
     (''alkphos_max'', const_col 9),
     (''abx'', const_col 1),
     (''vasopressor'', const_col 1),
     (''antiarr'', const_col 1),
     (''sedative'', const_col 1),
     (''diuretic'', const_col 1),
     (''blood_product_prbc'', const_col 1),
     (''blood_product_other'', const_col 1),
     (''antiinf'', const_col 1),
     (''sodium'', Numeric [Some 128, Some 140, Some 135, None]),
     (''potassium'', Numeric [Some (23 / 4), Some (21 / 4), Some (11 / 4), None]),
     (''wbc'', Numeric [Some (3 / 2), Some (- 1), Some 14, Some 1]),
     (''pmn'', Numeric [Some 80, Some (- 1), Some 44, None]),
     (''lym'', Numeric [Some 10, None, Some 35, Some 40])]"

text \<open>The sample as it reaches the split: feature matrix, label and benchmark prediction.\<close>

definition example_features :: frame where
  "example_features =
    [(''patientunitstayid'', Numeric [Some 141168, Some 141178, Some 141179, Some 141194]),
     (''age'', Numeric [Some 70, Some 93, Some 52, Some 18]),
     (''metastatic_cancer'', const_col 0),
     (''immunosuppression'', const_col 0),
     (''apache_readmit'', const_col 0),
     (''apache_intubday1'', const_col 0),
     (''hr_mean'', const_col 80),
     (''map_aperiodic_mean'', const_col 80),
     (''rr_mean'', const_col 80),
     (''spo2_mean'', const_col 80),
     (''albumin_min'', const_col 3),
     (''bicarbonate_min'', const_col 3),
     (''bun_max'', const_col 9),
     (''bilirubin_max'', const_col 9),
     (''creatinine_max'', const_col 9),
     (''glucose_max'', Numeric [Some 180, None, Some 140, Some 120]),
     (''hemoglobin_min'', const_col 3),
     (''lactate_max'', const_col 9),
     (''platelet_min'', const_col 3),
     (''ptt_max'', const_col 9),
     (''inr_max'', const_col 9),
     (''pt_max'', const_col 9),
     (''ast_max'', const_col 9),
     (''alkphos_max'', const_col 9),
     (''abx'', const_col 1),
     (''vasopressor'', const_col 1),
     (''antiarr'', const_col 1),
     (''blood_product_prbc'', const_col 1),
     (''blood_product_other'', const_col 1),
     (''potassium'', Numeric [Some (23 / 4), Some (21 / 4), Some (11 / 4), None]),
     (''wbc'', Numeric [Some (3 / 2), None, Some 14, Some 1]),
     (''pmn'', Numeric [Some 80, None, Some 44, None]),
     (''adx_UGIBLEED'', Numeric [Some 1, Some 0, Some 0, Some 1]),
     (''adx_UNKGIBLEED'', Numeric [Some 0, Some 0, Some 1, Some 0]),
     (''gcs'', Numeric [Some 15, None, None, Some 15])]"

definition example_label :: "int list" where
  "example_label = [0, 1, 0, 0]"

definition example_apache :: series where
  "example_apache = Numeric [Some (1 / 16), Some (5 / 8), None, Some (1 / 32)]"

text \<open>
  A second sample: the first sample with other sodium and potassium bounds. In the first stay
  both bounds of each analyte are doubles far enough from the reference range for the
  subtraction to round; in the second stay the potassium bounds are the doubles that Python
  reads from the decimals 3.1 and 5.4.
\<close>

definition example_rounding :: frame where
  "example_rounding =
     assign ''sodium_min'' (Numeric [Some (7 + 1 / 2 ^ 48), Some 140, Some 135, Some 136])
       (assign ''sodium_max'' (Numeric [Some 273, Some 146, Some 145, None])
         (assign ''potassium_min''
            (Numeric [Some (1 / 2 - 31 / 2 ^ 54), Some (float64_round 3.1), Some 2.75, Some 3])
            (assign ''potassium_max''
               (Numeric [Some (8 + 1 / 2 ^ 49), Some (float64_round 5.4), Some 5.125, None])
               example_cohort)))"

text \<open>The second sample after the reduction cell.\<close>

definition example_rounding_reduced :: frame where
  "example_rounding_reduced =
     assign ''sodium'' (Numeric [Some (7 + 1 / 2 ^ 48), Some 140, Some 135, None])
       (assign ''potassium''
          (Numeric [Some (1 / 2 - 31 / 2 ^ 54), Some (float64_round 5.4), Some 2.75, None])
          example_reduced)"

text \<open>
  A sample of nine admissions over the columns that the inclusion and exclusion criteria read,
  with the age still a string. The fourth to ninth stay fail one criterion each: a minor, a
  surgical upper bleed, an empty age, a surgical lower bleed with a weight of 40, a stay of
  239 minutes without a height, and a height of 251. The sample holds all five admission
  diagnoses.
\<close>

definition example_admissions :: frame where
  "example_admissions =
    [(''patientunitstayid'', Numeric [Some 141168, Some 141178, Some 141179, Some 141194, Some 141196, Some 141197, Some 141203, Some 141208, Some 141227]),
     (''age'', Object [Str ''70'', Str ''> 89'', Str ''52'', Str ''17'', Str ''64'', Str '''', Str ''45'', Str ''81'', Str ''33'']),
     (''gender'', Object [Str ''Female'', Str ''Male'', Str ''Male'', Str ''Female'', Str ''Male'', Str ''Female'', Str ''Male'', Str ''Female'', Null]),
     (''height'', Numeric [Some 170, Some 160, Some 50, Some 165, Some 180, Some 175, Some 172, None, Some 251]),
     (''weight'', Numeric [Some 80, Some 60, Some 300, Some 55, Some 90, Some 70, Some 40, Some 65, Some 70]),
     (''unit_los'', Numeric [Some 3000, Some 500, Some 240, Some 1200, Some 900, Some 800, Some 700, Some 239, Some 600]),
     (''admit_diagnosis'', Object [Str ''UGIBLEED'', Str ''LOWGIBLEED'', Str ''UNKGIBLEED'', Str ''UGIBLEED'', Str ''S-UGIBLEED'', Str ''UGIBLEED'', Str ''S-LGIBLEED'', Str ''LOWGIBLEED'', Str ''UGIBLEED''])]"

text \<open>The three admissions that pass.\<close>

definition example_admitted :: frame where
  "example_admitted =
    [(''patientunitstayid'', Numeric [Some 141168, Some 141178, Some 141179]),
     (''age'', Numeric [Some 70, Some 93, Some 52]),
     (''gender'', Object [Str ''Female'', Str ''Male'', Str ''Male'']),
     (''height'', Numeric [Some 170, Some 160, Some 50]),
     (''weight'', Numeric [Some 80, Some 60, Some 300]),
     (''unit_los'', Numeric [Some 3000, Some 500, Some 240]),
     (''admit_diagnosis'', Object [Str ''UGIBLEED'', Str ''LOWGIBLEED'', Str ''UNKGIBLEED''])]"

text \<open>A stand-in for Python's \<^verbatim>\<open>float\<close> on the strings of the sample: unsigned decimal
  digits are read as a number, anything else raises.\<close>

definition float_of_digits :: "string \<Rightarrow> num option" where
  "float_of_digits s =
     (if s \<noteq> [] \<and> list_all (\<lambda>c. 48 \<le> (of_char c :: nat) \<and> (of_char c :: nat) \<le> 57) s
      then Some (Some (of_nat (foldl (\<lambda>a c. 10 * a + (of_char c - 48)) 0 s)))
      else None)"

section \<open>Auxiliary notions for the statements\<close>

text \<open>All columns of a frame have \<open>n\<close> rows.\<close>

definition all_len :: "nat \<Rightarrow> frame \<Rightarrow> bool" where
  "all_len n df = (\<forall>p \<in> set df. slen (snd p) = n)"

text \<open>The value of a numeric column in row \<open>i\<close> (counted from 0), when the column exists and
  has such a row.\<close>

definition cell :: "frame \<Rightarrow> string \<Rightarrow> nat \<Rightarrow> num option" where
  "cell df c i = (case numcol df c of
      Some xs \<Rightarrow> (if i < length xs then Some (xs ! i) else None)
    | None \<Rightarrow> None)"

text \<open>The ten bound columns that the reducer collapses into five.\<close>

definition reduced_bounds :: "string list" where
  "reduced_bounds = [''sodium_min'', ''sodium_max'', ''potassium_min'', ''potassium_max'',
     ''wbc_min'', ''wbc_max'', ''pmn_min'', ''pmn_max'', ''lymphs_min'', ''lymphs_max'']"

text \<open>A column, if present and numeric, holds no sentinel \<open>-1\<close>.\<close>

definition no_sentinel :: "frame \<Rightarrow> string \<Rightarrow> bool" where
  "no_sentinel df c = (case numcol df c of Some xs \<Rightarrow> Some (- 1) \<notin> set xs | None \<Rightarrow> True)"

definition no_sentinel_bounds :: "frame \<Rightarrow> bool" where
  "no_sentinel_bounds df = list_all (no_sentinel df) reduced_bounds"

text \<open>The names of the object columns of a frame, in column order.\<close>

fun is_object :: "series \<Rightarrow> bool" where
  "is_object (Object xs) = True"
| "is_object (Numeric xs) = False"

definition object_columns :: "frame \<Rightarrow> string list" where
  "object_columns df = map fst (filter (\<lambda>p. is_object (snd p)) df)"

text \<open>The cells of row \<open>i\<close> of a frame of indicator columns, and their sum.\<close>

fun series_nth :: "series \<Rightarrow> nat \<Rightarrow> num" where
  "series_nth (Numeric xs) i = (if i < length xs then xs ! i else None)"
| "series_nth (Object xs) i = None"

definition indicator_sum :: "frame \<Rightarrow> nat \<Rightarrow> num" where
  "indicator_sum d i = foldr (\<lambda>p acc. num_add (series_nth (snd p) i) acc) d (Some 0)"

text \<open>A table that has passed every inclusion and exclusion criterion: the age is a float64
  column of values of at least 18, the unit length of stay is at least 240, no admission
  diagnosis is a surgical bleed, every weight is in [50, 300] and every height in [50, 250].\<close>

definition passed :: "frame \<Rightarrow> bool" where
  "passed df =
     ((case numcol df ''age'' of Some xs \<Rightarrow> list_all (\<lambda>a. num_ge a (Some 18)) xs | None \<Rightarrow> False) \<and>
      (case numcol df ''unit_los'' of Some xs \<Rightarrow> list_all (\<lambda>l. num_ge l (Some 240)) xs | None \<Rightarrow> False) \<and>
      (case getcol df ''admit_diagnosis'' of
         Some s \<Rightarrow> list_all Not (isin_str s [''S-UGIBLEED'', ''S-LGIBLEED'']) | None \<Rightarrow> False) \<and>
      (case numcol df ''weight'' of
         Some xs \<Rightarrow> list_all (\<lambda>w. num_ge w (Some 50) \<and> num_le w (Some 300)) xs | None \<Rightarrow> False) \<and>
      (case numcol df ''height'' of
         Some xs \<Rightarrow> list_all (\<lambda>h. num_le h (Some 250) \<and> num_ge h (Some 50)) xs | None \<Rightarrow> False))"

text \<open>The spec's classification of the analytes that deviate in one direction: those whose
  minimum is retained, and those whose maximum is retained, by the column prefix of each.\<close>

definition spec_retain_min :: "string list" where
  "spec_retain_min = [''bicarbonate'', ''platelet'', ''hemoglobin'', ''fibrinogen'', ''hematocrit'',
     ''albumin'', ''ioncalcium'']"

definition spec_retain_max :: "string list" where
  "spec_retain_max = [''creatinine'', ''alt'', ''ast'', ''alkphos'', ''bun'', ''bilirubin'', ''pt'',
     ''ptt'', ''inr'', ''lactate'', ''tropi'', ''amylase'', ''lipase'', ''cpk'']"

section \<open>Rounding to float64\<close>

lemma powi_less_cancel:
  assumes "(2::rat) powi i < 2 powi j"
  shows "i < j"
proof (rule ccontr)
  assume "\<not> i < j"
  then have "j \<le> i" by simp
  from power_int_increasing [OF this, of "2::rat"] have "(2::rat) powi j \<le> 2 powi i" by simp
  with assms show False by simp
qed

text \<open>\<open>ilog2\<close> is the binary exponent.\<close>

lemma ilog2_bounds:
  assumes "0 < a"
  shows "2 powi ilog2 a \<le> a" and "a < 2 powi (ilog2 a + 1)"
proof -
  have "2 powi ilog2 a \<le> a \<and> a < 2 powi (ilog2 a + 1)"
  proof (cases "1 \<le> a")
    case True
    let ?n = "\<lfloor>a\<rfloor>"
    from True have n: "0 < ?n" by simp
    from bitlen_bounds [OF n] have b: "2 ^ nat (bitlen ?n - 1) \<le> ?n" "?n < 2 ^ nat (bitlen ?n)"
      by simp_all
    from n have k: "1 \<le> bitlen ?n" by (simp add: bitlen_alt_def)
    have e: "ilog2 a = bitlen ?n - 1" using True by (simp add: ilog2_def)
    have "(2::rat) powi (bitlen ?n - 1) = of_int (2 ^ nat (bitlen ?n - 1))"
      using k by (simp add: power_int_nonneg_exp)
    also have "\<dots> \<le> of_int ?n" using b(1) by (simp only: of_int_le_iff)
    also have "\<dots> \<le> a" by (rule of_int_floor_le)
    finally have 1: "2 powi ilog2 a \<le> a" by (simp add: e)
    from b(2) have "?n + 1 \<le> 2 ^ nat (bitlen ?n)" by simp
    then have u: "(of_int (?n + 1) :: rat) \<le> of_int (2 ^ nat (bitlen ?n))" by (simp only: of_int_le_iff)
    have "a < of_int (?n + 1)" using floor_correct [of a] by blast
    also note u
    also have "(of_int (2 ^ nat (bitlen ?n)) :: rat) = 2 powi (ilog2 a + 1)"
      using k by (simp add: e power_int_nonneg_exp)
    finally have "a < 2 powi (ilog2 a + 1)" .
    with 1 show ?thesis by simp
  next
    case False
    let ?n = "\<lceil>1 / a\<rceil>"
    let ?m = "?n - 1"
    from False assms have t: "1 < 1 / a" by (simp add: field_simps)
    then have "1 < ?n" by (simp add: less_ceiling_iff)
    then have m: "0 < ?m" by simp
    from bitlen_bounds [OF m] have b: "2 ^ nat (bitlen ?m - 1) \<le> ?m" "?m < 2 ^ nat (bitlen ?m)"
      by simp_all
    from m have k: "1 \<le> bitlen ?m" by (simp add: bitlen_alt_def)
    have e: "ilog2 a = - bitlen ?m" using False by (simp add: ilog2_def)
    have p: "(0::rat) < 2 ^ nat (bitlen ?m)" "(0::rat) < 2 ^ nat (bitlen ?m - 1)" by simp_all
    from b(2) have "?n \<le> 2 ^ nat (bitlen ?m)" by simp
    then have u: "(of_int ?n :: rat) \<le> of_int (2 ^ nat (bitlen ?m))" by (simp only: of_int_le_iff)
    have "1 / a \<le> of_int ?n" by (rule le_of_int_ceiling)
    also note u
    also have "(of_int (2 ^ nat (bitlen ?m)) :: rat) = 2 ^ nat (bitlen ?m)" by simp
    finally have "1 / a \<le> 2 ^ nat (bitlen ?m)" .
    with assms p(1) have "1 / 2 ^ nat (bitlen ?m) \<le> a" by (simp add: field_simps)
    moreover have "(2::rat) powi ilog2 a = 1 / 2 ^ nat (bitlen ?m)"
      using k by (simp add: e power_int_minus_divide power_int_nonneg_exp)
    ultimately have 1: "2 powi ilog2 a \<le> a" by simp
    have "(2::rat) ^ nat (bitlen ?m - 1) = of_int (2 ^ nat (bitlen ?m - 1))" by simp
    also have "\<dots> \<le> of_int ?m"
      using b(1) by (simp only: of_int_le_iff)
    also have "(of_int ?m :: rat) < 1 / a" using ceiling_correct [of "1 / a"] by simp
    finally have "2 ^ nat (bitlen ?m - 1) < 1 / a" .
    with assms p(2) have "a < 1 / 2 ^ nat (bitlen ?m - 1)" by (simp add: field_simps)
    moreover have "(2::rat) powi (ilog2 a + 1) = 1 / 2 ^ nat (bitlen ?m - 1)"
    proof -
      have "ilog2 a + 1 = - (bitlen ?m - 1)" by (simp add: e)
      then have "(2::rat) powi (ilog2 a + 1) = 2 powi (- (bitlen ?m - 1))" by simp
      also have "\<dots> = 1 / 2 powi (bitlen ?m - 1)" by (rule power_int_minus_divide)
      also have "(2::rat) powi (bitlen ?m - 1) = 2 ^ nat (bitlen ?m - 1)"
        using k by (simp add: power_int_nonneg_exp)
      finally show ?thesis .
    qed
    ultimately have "a < 2 powi (ilog2 a + 1)" by simp
    with 1 show ?thesis by simp
  qed
  then show "2 powi ilog2 a \<le> a" and "a < 2 powi (ilog2 a + 1)" by simp_all
qed

lemma ilog2_mono:
  assumes "0 < a" "a \<le> b"
  shows "ilog2 a \<le> ilog2 b"
proof -
  from assms have b: "0 < b" by simp
  have "(2::rat) powi ilog2 a < 2 powi (ilog2 b + 1)"
    using ilog2_bounds(1) [OF assms(1)] ilog2_bounds(2) [OF b] assms(2) by simp
  then have "ilog2 a < ilog2 b + 1"
    by (rule powi_less_cancel)
  then show ?thesis by simp
qed

lemma ilog2_ge:
  assumes "0 < a" "2 powi k \<le> a"
  shows "k \<le> ilog2 a"
proof -
  have "(2::rat) powi k < 2 powi (ilog2 a + 1)"
    using ilog2_bounds(2) [OF assms(1)] assms(2) by simp
  then have "k < ilog2 a + 1"
    by (rule powi_less_cancel)
  then show ?thesis by simp
qed

lemma ilog2_less:
  assumes "0 < a" "a < 2 powi k"
  shows "ilog2 a < k"
proof -
  have "(2::rat) powi ilog2 a < 2 powi k"
    using ilog2_bounds(1) [OF assms(1)] assms(2) by simp
  then show ?thesis
    by (rule powi_less_cancel)
qed

text \<open>Rounding is monotone, up to and including the overflow.\<close>

lemma round_half_even_cases: "round_half_even t = \<lfloor>t\<rfloor> \<or> round_half_even t = \<lfloor>t\<rfloor> + 1"
  by (simp add: round_half_even_def Let_def)

lemma round_half_even_of_int: "round_half_even (of_int n) = n"
  by (simp add: round_half_even_def Let_def)

lemma round_half_even_mono:
  assumes "s \<le> t"
  shows "round_half_even s \<le> round_half_even t"
proof (cases "\<lfloor>s\<rfloor> = \<lfloor>t\<rfloor>")
  case True
  with assms have "s - of_int \<lfloor>s\<rfloor> \<le> t - of_int \<lfloor>t\<rfloor>" by simp
  with True show ?thesis by (auto simp: round_half_even_def Let_def)
next
  case False
  with floor_mono [OF assms] have "\<lfloor>s\<rfloor> + 1 \<le> \<lfloor>t\<rfloor>" by simp
  with round_half_even_cases [of s] round_half_even_cases [of t] show ?thesis by auto
qed

lemma quantum_pos: "0 < quantum a"
  by (simp add: quantum_def)

lemma round_to_quantum_mono:
  assumes "0 < a" "a \<le> b"
  shows "round_to_quantum a \<le> round_to_quantum b"
proof -
  from assms have b: "0 < b" by simp
  let ?E = "\<lambda>x. max (ilog2 x) (- 1022)"
  have le: "?E a \<le> ?E b" using ilog2_mono [OF assms] by simp
  show ?thesis
  proof (cases "?E a = ?E b")
    case True
    then have q: "quantum a = quantum b" by (simp add: quantum_def)
    have "a / quantum b \<le> b / quantum b"
      using assms(2) quantum_pos [of b] by (simp add: divide_right_mono)
    from round_half_even_mono [OF this]
    have "(of_int (round_half_even (a / quantum b)) :: rat) \<le> of_int (round_half_even (b / quantum b))"
      by (simp only: of_int_le_iff)
    then show ?thesis
      unfolding round_to_quantum_def q using quantum_pos [of b] by (simp add: mult_right_mono)
  next
    case False
    with le have lt: "?E a < ?E b" by linarith
    define k where "k = ilog2 b"
    from lt have "- 1022 < ilog2 b" by linarith
    with lt have kb: "?E b = k" and ka: "?E a < k" unfolding k_def by linarith+
    from ka have ia: "ilog2 a + 1 \<le> k" by simp
    define n where "n = nat (k - (?E a - 52))"
    from ka have "0 \<le> k - (?E a - 52)" by linarith
    then have n: "int n = k - (?E a - 52)" unfolding n_def by (rule nat_0_le)
    have p: "(2::rat) powi k = of_int (2 ^ n) * quantum a"
    proof -
      have "(2::rat) powi k = 2 powi (int n + (?E a - 52))" using n by simp
      also have "\<dots> = 2 powi int n * 2 powi (?E a - 52)" by (simp add: power_int_add)
      finally show ?thesis by (simp add: quantum_def)
    qed
    have "a < 2 powi (ilog2 a + 1)" by (rule ilog2_bounds(2) [OF assms(1)])
    also have "\<dots> \<le> 2 powi k" using ia by (simp add: power_int_increasing)
    finally have "a \<le> of_int (2 ^ n) * quantum a" using p by simp
    then have "a / quantum a \<le> of_int (2 ^ n)"
      using quantum_pos [of a] by (simp add: field_simps)
    from round_half_even_mono [OF this]
    have "round_half_even (a / quantum a) \<le> 2 ^ n" by (simp only: round_half_even_of_int)
    then have "(of_int (round_half_even (a / quantum a)) :: rat) \<le> of_int (2 ^ n)"
      by (simp only: of_int_le_iff)
    then have 1: "round_to_quantum a \<le> 2 powi k"
      unfolding round_to_quantum_def p using quantum_pos [of a] by (simp add: mult_right_mono)
    have qb: "quantum b = 2 powi (k - 52)" using kb by (simp add: quantum_def)
    have p2: "(2::rat) powi k = of_int (2 ^ 52) * quantum b"
    proof -
      have "(2::rat) powi k = 2 powi (52 + (k - 52))" by simp
      also have "\<dots> = 2 powi 52 * 2 powi (k - 52)" by (rule power_int_add) simp
      finally show ?thesis by (simp add: qb)
    qed
    have "2 powi k \<le> b" unfolding k_def by (rule ilog2_bounds(1) [OF b])
    then have "of_int (2 ^ 52) \<le> b / quantum b"
      unfolding p2 using quantum_pos [of b] by (simp add: field_simps)
    from round_half_even_mono [OF this]
    have "2 ^ 52 \<le> round_half_even (b / quantum b)" by (simp only: round_half_even_of_int)
    then have "(of_int (2 ^ 52) :: rat) \<le> of_int (round_half_even (b / quantum b))"
      by (simp only: of_int_le_iff)
    then have 2: "2 powi k \<le> round_to_quantum b"
      unfolding round_to_quantum_def p2 using quantum_pos [of b] by (simp add: mult_right_mono)
    from 1 2 show ?thesis by simp
  qed
qed

lemma round_to_quantum_nonneg:
  assumes "0 \<le> a"
  shows "0 \<le> round_to_quantum a"
proof -
  have "0 \<le> a / quantum a" using assms quantum_pos [of a] by simp
  from round_half_even_mono [OF this] have "0 \<le> round_half_even (a / quantum a)"
    using round_half_even_of_int [of 0] by simp
  then show ?thesis unfolding round_to_quantum_def using quantum_pos [of a] by simp
qed

lemma ilog2_zero: "ilog2 0 = 0"
  by code_simp

lemma saturate_mono:
  assumes "0 \<le> r" "r \<le> s"
  shows "saturate r \<le> saturate s"
proof (cases "r = 0")
  case True
  then show ?thesis using assms by (simp add: saturate_def ilog2_zero)
next
  case False
  with assms have r: "0 < r" and s: "0 < s" by simp_all
  show ?thesis
  proof (cases "1024 \<le> ilog2 s")
    case True
    show ?thesis
    proof (cases "1024 \<le> ilog2 r")
      case True
      with \<open>1024 \<le> ilog2 s\<close> show ?thesis by (simp add: saturate_def)
    next
      case False
      then have "ilog2 r + 1 \<le> 1024" by simp
      then have "(2::rat) powi (ilog2 r + 1) \<le> 2 powi 1024" by (rule power_int_increasing) simp
      with ilog2_bounds(2) [OF r] have "r \<le> 2 powi 1024" by simp
      with False True show ?thesis by (simp add: saturate_def)
    qed
  next
    case False
    with ilog2_mono [OF r assms(2)] have "\<not> 1024 \<le> ilog2 r" by simp
    with False assms(2) show ?thesis by (simp add: saturate_def)
  qed
qed

lemma saturate_nonneg: "0 \<le> r \<Longrightarrow> 0 \<le> saturate r"
  by (simp add: saturate_def)

lemma round_to_quantum_zero: "round_to_quantum 0 = 0"
  using round_half_even_of_int [of 0] by (simp add: round_to_quantum_def)

lemma float64_round_nonneg_eq:
  "0 \<le> a \<Longrightarrow> float64_round a = saturate (round_to_quantum a)"
  by (cases "a = 0")
    (simp_all add: float64_round_def saturate_def round_to_quantum_zero ilog2_zero)

lemma float64_round_mono_nonneg:
  assumes "0 \<le> a" "a \<le> b"
  shows "float64_round a \<le> float64_round b"
proof (cases "a = 0")
  case True
  from assms have b: "0 \<le> b" by simp
  have "0 \<le> float64_round b"
    unfolding float64_round_nonneg_eq [OF b]
    by (rule saturate_nonneg [OF round_to_quantum_nonneg [OF b]])
  with True show ?thesis by (simp add: float64_round_def)
next
  case False
  with assms have a: "0 < a" by simp
  with assms have b: "0 \<le> b" by simp
  show ?thesis
    unfolding float64_round_nonneg_eq [OF assms(1)] float64_round_nonneg_eq [OF b]
    by (rule saturate_mono [OF round_to_quantum_nonneg [OF assms(1)] round_to_quantum_mono [OF a assms(2)]])
qed

text \<open>Rounding commutes with the absolute value, so a larger exact deviation never rounds to a
  smaller one.\<close>

lemma abs_float64_round: "\<bar>float64_round x\<bar> = float64_round \<bar>x\<bar>"
proof (cases "x = 0")
  case True
  then show ?thesis by (simp add: float64_round_def)
next
  case False
  have "0 \<le> saturate (round_to_quantum \<bar>x\<bar>)"
    by (rule saturate_nonneg [OF round_to_quantum_nonneg]) simp
  moreover have "float64_round x = sgn x * saturate (round_to_quantum \<bar>x\<bar>)"
    using False by (simp add: float64_round_def)
  ultimately have "\<bar>float64_round x\<bar> = saturate (round_to_quantum \<bar>x\<bar>)"
    using False by (simp add: abs_mult)
  then show ?thesis by (simp add: float64_round_nonneg_eq)
qed

lemma rounded_deviation_mono:
  assumes "\<bar>v\<bar> \<le> \<bar>u\<bar>"
  shows "\<bar>float64_round v\<bar> \<le> \<bar>float64_round u\<bar>"
  unfolding abs_float64_round by (rule float64_round_mono_nonneg [OF _ assms]) simp

lemma float64_round_small:
  "float64_round 0 = 0" "float64_round 1 = 1"
  by code_simp+

section \<open>Frames under drop, assign and row selection\<close>
subsection \<open>Columns of a frame under drop, assign and row selection\<close>

lemma map_of_drop:
  "drop_cols ns df = Some df' \<Longrightarrow> map_of df' c = (if c \<in> set ns then None else map_of df c)"
proof -
  have "map_of (filter (\<lambda>p. fst p \<notin> set ns) xs) c = (if c \<in> set ns then None else map_of xs c)"
    for xs :: frame
    by (induction xs) auto
  then show "drop_cols ns df = Some df' \<Longrightarrow> ?thesis"
    by (auto simp: drop_cols_def split: if_splits)
qed

lemma columns_drop:
  "drop_cols ns df = Some df' \<Longrightarrow> columns df' = filter (\<lambda>c. c \<notin> set ns) (columns df)"
  by (auto simp: drop_cols_def columns_def filter_map comp_def split: if_splits)

lemma drop_cols_Some:
  "drop_cols ns df = Some df' \<longleftrightarrow> (set ns \<subseteq> set (columns df) \<and> df' = filter (\<lambda>p. fst p \<notin> set ns) df)"
  by (auto simp: drop_cols_def list_all_iff)

lemma map_of_assign:
  "map_of (assign c s df) c' = (if c' = c then Some s else map_of df c')"
  by (induction df) auto

lemma columns_assign:
  "columns (assign c s df) = (if c \<in> set (columns df) then columns df else columns df @ [c])"
  by (induction df) (auto simp: columns_def)

lemma set_columns_assign: "set (columns (assign c s df)) = insert c (set (columns df))"
  by (auto simp: columns_assign)

lemma columns_select_rows: "columns (select_rows msk df) = columns df"
  by (simp add: select_rows_def columns_def comp_def)

lemma map_of_select_rows:
  "map_of (select_rows msk df) c = map_option (series_index msk) (map_of df c)"
  by (induction df) (auto simp: select_rows_def)

lemma in_columns_iff: "c \<in> set (columns df) \<longleftrightarrow> map_of df c \<noteq> None"
  by (simp add: columns_def map_of_eq_None_iff)

lemma numcol_Some: "numcol df c = Some xs \<longleftrightarrow> map_of df c = Some (Numeric xs)"
  by (auto simp: numcol_def split: option.splits series.splits)

lemma objcol_Some: "objcol df c = Some xs \<longleftrightarrow> map_of df c = Some (Object xs)"
  by (auto simp: objcol_def split: option.splits series.splits)

subsection \<open>Rectangular frames\<close>

lemma rectangular_all_len: "rectangular df \<Longrightarrow> all_len (nrows df) df"
  by (simp add: rectangular_def all_len_def list_all_iff)

lemma all_len_nrows: "all_len n df \<Longrightarrow> df \<noteq> [] \<Longrightarrow> nrows df = n"
  by (cases df) (auto simp: all_len_def)

lemma rectangularI: "distinct (columns df) \<Longrightarrow> all_len n df \<Longrightarrow> rectangular df"
  by (cases df) (auto simp: rectangular_def all_len_def list_all_iff)

lemma all_len_map_of: "all_len n df \<Longrightarrow> map_of df c = Some s \<Longrightarrow> slen s = n"
  by (force simp: all_len_def dest!: map_of_SomeD)

lemma rectangular_col_len: "rectangular df \<Longrightarrow> map_of df c = Some s \<Longrightarrow> slen s = nrows df"
  using all_len_map_of rectangular_all_len by blast

lemma all_len_assign: "all_len n df \<Longrightarrow> slen s = n \<Longrightarrow> all_len n (assign c s df)"
  by (induction df) (auto simp: all_len_def)

lemma all_len_filter: "all_len n df \<Longrightarrow> all_len n (filter P df)"
  by (auto simp: all_len_def)

lemma distinct_columns_assign: "distinct (columns df) \<Longrightarrow> distinct (columns (assign c s df))"
  by (auto simp: columns_assign)

lemma distinct_columns_filter: "distinct (columns df) \<Longrightarrow> distinct (columns (filter P df))"
  by (simp add: columns_def distinct_map_filter)

lemma assign_ne: "assign c s df \<noteq> []"
  by (cases df) auto

lemma rectangular_assign: "rectangular df \<Longrightarrow> slen s = nrows df \<Longrightarrow> rectangular (assign c s df)"
  using rectangularI [OF distinct_columns_assign all_len_assign, of df "nrows df" s c]
  by (simp add: rectangular_def rectangular_all_len)

lemma nrows_assign: "rectangular df \<Longrightarrow> slen s = nrows df \<Longrightarrow> nrows (assign c s df) = nrows df"
  using all_len_nrows [OF all_len_assign [OF rectangular_all_len] assign_ne] by simp

lemma rectangular_drop: "rectangular df \<Longrightarrow> drop_cols ns df = Some df' \<Longrightarrow> rectangular df'"
proof -
  assume w: "rectangular df" and d: "drop_cols ns df = Some df'"
  from d have e: "df' = filter (\<lambda>p. fst p \<notin> set ns) df" by (simp add: drop_cols_Some)
  have "distinct (columns df')" using w unfolding e by (simp add: distinct_columns_filter rectangular_def)
  moreover have "all_len (nrows df) df'" unfolding e by (rule all_len_filter [OF rectangular_all_len [OF w]])
  ultimately show ?thesis by (rule rectangularI)
qed

lemma nrows_drop:
  "rectangular df \<Longrightarrow> drop_cols ns df = Some df' \<Longrightarrow> df' \<noteq> [] \<Longrightarrow> nrows df' = nrows df"
proof -
  assume w: "rectangular df" and d: "drop_cols ns df = Some df'" and n: "df' \<noteq> []"
  from d have e: "df' = filter (\<lambda>p. fst p \<notin> set ns) df" by (simp add: drop_cols_Some)
  have "all_len (nrows df) df'" unfolding e by (rule all_len_filter [OF rectangular_all_len [OF w]])
  then show ?thesis using n by (rule all_len_nrows)
qed

subsection \<open>The reducer\<close>

lemma length_mask_assign: "length (mask_assign a m v) = length a"
  by (induction a m v rule: mask_assign.induct) auto

lemma length_most_abnormal: "length (most_abnormal n check x_min x_max) = n"
  by (simp add: most_abnormal_def fill_by_check_def np_empty_def length_mask_assign)

lemma collapse_SomeD:
  assumes c: "collapse x xmin xmax check df = Some df'" and w: "rectangular df"
    and x: "x \<noteq> xmin" "x \<noteq> xmax"
  shows "\<exists>mins maxs.
    map_of df xmin = Some (Numeric mins) \<and> map_of df xmax = Some (Numeric maxs) \<and>
    (\<forall>c. map_of df' c =
       (if c = xmin \<or> c = xmax then None
        else if c = x then Some (Numeric (most_abnormal (nrows df) check mins maxs))
        else map_of df c)) \<and>
    rectangular df' \<and> nrows df' = nrows df"
proof -
  from c obtain mins maxs where
    m: "numcol df xmin = Some mins" "numcol df xmax = Some maxs"
    and d: "drop_cols [xmin, xmax]
             (assign x (Numeric (most_abnormal (nrows df) check mins maxs)) df) = Some df'"
    by (auto simp: collapse_def bind_eq_Some_conv)
  let ?v = "Numeric (most_abnormal (nrows df) check mins maxs)"
  have l: "slen ?v = nrows df" by (simp add: length_most_abnormal)
  have wa: "rectangular (assign x ?v df)" by (rule rectangular_assign [OF w l])
  have 1: "map_of df' c =
       (if c = xmin \<or> c = xmax then None else if c = x then Some ?v else map_of df c)" for c
    using map_of_drop [OF d, of c] by (simp add: map_of_assign)
  have "map_of df' x \<noteq> None" using 1 [of x] x by simp
  then have ne: "df' \<noteq> []" by auto
  have 2: "rectangular df'" by (rule rectangular_drop [OF wa d])
  have 3: "nrows df' = nrows df"
    using nrows_drop [OF wa d ne] nrows_assign [OF w l] by simp
  show ?thesis
    using m 1 2 3 by (simp add: numcol_Some)
qed

lemma reduce_abnormal_SomeD:
  assumes r: "reduce_abnormal df = Some r" and w: "rectangular df"
  shows "\<exists>smin smax kmin kmax wmin wmax pmin pmax lmin lmax.
    map_of df ''sodium_min'' = Some (Numeric smin) \<and> map_of df ''sodium_max'' = Some (Numeric smax) \<and>
    map_of df ''potassium_min'' = Some (Numeric kmin) \<and> map_of df ''potassium_max'' = Some (Numeric kmax) \<and>
    map_of df ''wbc_min'' = Some (Numeric wmin) \<and> map_of df ''wbc_max'' = Some (Numeric wmax) \<and>
    map_of df ''pmn_min'' = Some (Numeric pmin) \<and> map_of df ''pmn_max'' = Some (Numeric pmax) \<and>
    map_of df ''lymphs_min'' = Some (Numeric lmin) \<and> map_of df ''lymphs_max'' = Some (Numeric lmax) \<and>
    map_of r ''sodium'' = Some (Numeric (most_abnormal (nrows df) (sodium_check smin smax) smin smax)) \<and>
    map_of r ''potassium'' = Some (Numeric (most_abnormal (nrows df) (potassium_check kmin kmax) kmin kmax)) \<and>
    map_of r ''wbc'' = Some (Numeric (most_abnormal (nrows df) (wbc_check wmin) wmin wmax)) \<and>
    map_of r ''pmn'' = Some (Numeric (most_abnormal (nrows df) (pmn_check pmin) pmin pmax)) \<and>
    map_of r ''lym'' = Some (Numeric (most_abnormal (nrows df) (lym_check lmin) lmin lmax)) \<and>
    (\<forall>c \<in> set lab_drop \<union> set reduced_bounds. map_of r c = None) \<and>
    (\<forall>c. c \<notin> set lab_drop \<union> set reduced_bounds \<union> {''sodium'', ''potassium'', ''wbc'', ''pmn'', ''lym''}
         \<longrightarrow> map_of r c = map_of df c) \<and>
    rectangular r \<and> nrows r = nrows df"
proof -
  from r obtain c1 smin smax c2 kmin kmax c3 wmin pmin lmin c4 c5 where
    d1: "drop_cols lab_drop df = Some c1"
    and s: "numcol c1 ''sodium_min'' = Some smin" "numcol c1 ''sodium_max'' = Some smax"
    and d2: "collapse ''sodium'' ''sodium_min'' ''sodium_max'' (sodium_check smin smax) c1 = Some c2"
    and k: "numcol c2 ''potassium_min'' = Some kmin" "numcol c2 ''potassium_max'' = Some kmax"
    and d3: "collapse ''potassium'' ''potassium_min'' ''potassium_max'' (potassium_check kmin kmax) c2 = Some c3"
    and m: "numcol c3 ''wbc_min'' = Some wmin" "numcol c3 ''pmn_min'' = Some pmin"
           "numcol c3 ''lymphs_min'' = Some lmin"
    and d4: "collapse ''wbc'' ''wbc_min'' ''wbc_max'' (wbc_check wmin) c3 = Some c4"
    and d5: "collapse ''pmn'' ''pmn_min'' ''pmn_max'' (pmn_check pmin) c4 = Some c5"
    and d6: "collapse ''lym'' ''lymphs_min'' ''lymphs_max'' (lym_check lmin) c5 = Some r"
    unfolding reduce_abnormal_def bind_eq_Some_conv by blast
  have m1: "\<forall>c. map_of c1 c = (if c \<in> set lab_drop then None else map_of df c)"
    using map_of_drop [OF d1] by blast
  have w1: "rectangular c1" by (rule rectangular_drop [OF w d1])
  have "map_of c1 ''sodium_min'' \<noteq> None" using s by (simp add: numcol_Some)
  then have "c1 \<noteq> []" by auto
  then have n1: "nrows c1 = nrows df" by (rule nrows_drop [OF w d1])
  have x2: "''sodium'' \<noteq> ''sodium_min''" "''sodium'' \<noteq> ''sodium_max''" by simp_all
  from collapse_SomeD [OF d2 w1 x2] s obtain
    m2: "\<forall>c. map_of c2 c = (if c = ''sodium_min'' \<or> c = ''sodium_max'' then None
        else if c = ''sodium'' then Some (Numeric (most_abnormal (nrows df) (sodium_check smin smax) smin smax))
        else map_of c1 c)"
    and w2: "rectangular c2" and n2: "nrows c2 = nrows df"
    unfolding n1 numcol_Some by auto
  have x3: "''potassium'' \<noteq> ''potassium_min''" "''potassium'' \<noteq> ''potassium_max''" by simp_all
  from collapse_SomeD [OF d3 w2 x3] k obtain
    m3: "\<forall>c. map_of c3 c = (if c = ''potassium_min'' \<or> c = ''potassium_max'' then None
        else if c = ''potassium'' then Some (Numeric (most_abnormal (nrows df) (potassium_check kmin kmax) kmin kmax))
        else map_of c2 c)"
    and w3: "rectangular c3" and n3: "nrows c3 = nrows df"
    unfolding n2 numcol_Some by auto
  have x4: "''wbc'' \<noteq> ''wbc_min''" "''wbc'' \<noteq> ''wbc_max''" by simp_all
  from collapse_SomeD [OF d4 w3 x4] m(1) obtain wmax where
    wm: "map_of c3 ''wbc_max'' = Some (Numeric wmax)" and
    m4: "\<forall>c. map_of c4 c = (if c = ''wbc_min'' \<or> c = ''wbc_max'' then None
        else if c = ''wbc'' then Some (Numeric (most_abnormal (nrows df) (wbc_check wmin) wmin wmax))
        else map_of c3 c)"
    and w4: "rectangular c4" and n4: "nrows c4 = nrows df"
    unfolding n3 numcol_Some by auto
  have p4: "map_of c4 ''pmn_min'' = Some (Numeric pmin)"
    using m(2) by (simp add: m4 numcol_Some)
  have x5: "''pmn'' \<noteq> ''pmn_min''" "''pmn'' \<noteq> ''pmn_max''" by simp_all
  from collapse_SomeD [OF d5 w4 x5] p4 obtain pmax where
    pm: "map_of c4 ''pmn_max'' = Some (Numeric pmax)" and
    m5: "\<forall>c. map_of c5 c = (if c = ''pmn_min'' \<or> c = ''pmn_max'' then None
        else if c = ''pmn'' then Some (Numeric (most_abnormal (nrows df) (pmn_check pmin) pmin pmax))
        else map_of c4 c)"
    and w5: "rectangular c5" and n5: "nrows c5 = nrows df"
    unfolding n4 by auto
  have l5: "map_of c5 ''lymphs_min'' = Some (Numeric lmin)"
    using m(3) by (simp add: m5 m4 numcol_Some)
  have x6: "''lym'' \<noteq> ''lymphs_min''" "''lym'' \<noteq> ''lymphs_max''" by simp_all
  from collapse_SomeD [OF d6 w5 x6] l5 obtain lmax where
    lm: "map_of c5 ''lymphs_max'' = Some (Numeric lmax)" and
    m6: "\<forall>c. map_of r c = (if c = ''lymphs_min'' \<or> c = ''lymphs_max'' then None
        else if c = ''lym'' then Some (Numeric (most_abnormal (nrows df) (lym_check lmin) lmin lmax))
        else map_of c5 c)"
    and w6: "rectangular r" and n6: "nrows r = nrows df"
    unfolding n5 by auto
  note s = s [unfolded numcol_Some] and k = k [unfolded numcol_Some]
    and m = m [unfolded numcol_Some]
  have "map_of df ''sodium_min'' = Some (Numeric smin)" "map_of df ''sodium_max'' = Some (Numeric smax)"
    using s m1 by (simp_all split: if_splits)
  moreover have "map_of df ''potassium_min'' = Some (Numeric kmin)"
       "map_of df ''potassium_max'' = Some (Numeric kmax)"
    using k by (simp_all add: m1 m2 split: if_splits)
  moreover have "map_of df ''wbc_min'' = Some (Numeric wmin)" "map_of df ''wbc_max'' = Some (Numeric wmax)"
    "map_of df ''pmn_min'' = Some (Numeric pmin)" "map_of df ''lymphs_min'' = Some (Numeric lmin)"
    using m wm by (simp_all add: m1 m2 m3 split: if_splits)
  moreover have "map_of df ''pmn_max'' = Some (Numeric pmax)"
    using pm by (simp_all add: m1 m2 m3 m4 split: if_splits)
  moreover have "map_of df ''lymphs_max'' = Some (Numeric lmax)"
    using lm by (simp_all add: m1 m2 m3 m4 m5 split: if_splits)
  moreover have "map_of r ''sodium'' = Some (Numeric (most_abnormal (nrows df) (sodium_check smin smax) smin smax))"
    by (simp add: m6 m5 m4 m3 m2)
  moreover have "map_of r ''potassium'' = Some (Numeric (most_abnormal (nrows df) (potassium_check kmin kmax) kmin kmax))"
    by (simp add: m6 m5 m4 m3)
  moreover have "map_of r ''wbc'' = Some (Numeric (most_abnormal (nrows df) (wbc_check wmin) wmin wmax))"
    by (simp add: m6 m5 m4)
  moreover have "map_of r ''pmn'' = Some (Numeric (most_abnormal (nrows df) (pmn_check pmin) pmin pmax))"
    by (simp add: m6 m5)
  moreover have "map_of r ''lym'' = Some (Numeric (most_abnormal (nrows df) (lym_check lmin) lmin lmax))"
    by (simp add: m6)
  moreover have "\<forall>c \<in> set lab_drop \<union> set reduced_bounds. map_of r c = None"
    by (simp add: m6 m5 m4 m3 m2 m1 lab_drop_def reduced_bounds_def)
  moreover have "\<forall>c. c \<notin> set lab_drop \<union> set reduced_bounds \<union> {''sodium'', ''potassium'', ''wbc'', ''pmn'', ''lym''}
         \<longrightarrow> map_of r c = map_of df c"
    unfolding reduced_bounds_def by (simp add: m6 m5 m4 m3 m2 m1)
  ultimately show ?thesis using w6 n6 by blast
qed

lemma cell_Some:
  "cell df c i = Some x \<longleftrightarrow> (\<exists>xs. map_of df c = Some (Numeric xs) \<and> i < length xs \<and> xs ! i = x)"
  by (auto simp: cell_def numcol_def split: option.splits series.splits)

lemma fill_by_check_eq:
  "length check = length init \<Longrightarrow> length x_min = length init \<Longrightarrow> length x_max = length init \<Longrightarrow>
   fill_by_check init check x_min x_max
     = map (\<lambda>(c, m, M). if c then m else M) (zip check (zip x_min x_max))"
proof (induction init arbitrary: check x_min x_max)
  case Nil
  then show ?case by (simp add: fill_by_check_def)
next
  case (Cons a init)
  then obtain c cs m ms M Ms where
    e: "check = c # cs" "x_min = m # ms" "x_max = M # Ms"
    by (metis length_Suc_conv)
  with Cons.prems have l: "length cs = length init" "length ms = length init" "length Ms = length init"
    by simp_all
  from Cons.IH [OF l] show ?case
    unfolding e by (cases c) (simp_all add: fill_by_check_def bool_index_def)
qed

lemma most_abnormal_nth:
  assumes "length check = n" "length x_min = n" "length x_max = n" "i < n"
  shows "most_abnormal n check x_min x_max ! i = (if check ! i then x_min ! i else x_max ! i)"
  using assms unfolding most_abnormal_def np_empty_def
  by (subst fill_by_check_eq) simp_all

text \<open>The value a collapsed column holds in row \<open>i\<close>, for a check computed elementwise from the
  two bounds.\<close>

lemma collapsed_cell:
  assumes w: "rectangular df"
    and a: "map_of df xmin = Some (Numeric mins)" and b: "map_of df xmax = Some (Numeric maxs)"
    and r: "map_of r x = Some (Numeric (most_abnormal (nrows df) check mins maxs))"
    and c: "length check = nrows df"
    and x: "cell df xmin i = Some u" and y: "cell df xmax i = Some v"
  shows "cell r x i = Some (if check ! i then u else v)"
proof -
  have l: "length mins = nrows df" "length maxs = nrows df"
    using rectangular_col_len [OF w a] rectangular_col_len [OF w b] by simp_all
  from x a have i: "i < nrows df" "mins ! i = u" by (auto simp: cell_Some l)
  from y b have j: "maxs ! i = v" by (auto simp: cell_Some)
  show ?thesis
    unfolding cell_Some using r i j most_abnormal_nth [OF c l i(1)]
    by (simp add: length_most_abnormal)
qed

lemma sodium_check_nth:
  "i < length mins \<Longrightarrow> i < length maxs \<Longrightarrow>
   sodium_check mins maxs ! i = num_ge (num_abs (num_sub (mins ! i) 135)) (num_abs (num_sub (maxs ! i) 145))"
  by (simp add: sodium_check_def)

lemma potassium_check_nth:
  "i < length mins \<Longrightarrow> i < length maxs \<Longrightarrow>
   potassium_check mins maxs ! i = num_ge (num_abs (num_sub (mins ! i) 3.5)) (num_abs (num_sub (maxs ! i) 5.0))"
  by (simp add: potassium_check_def)

lemma deviation_ge:
  "num_ge (num_abs (num_sub x lo)) (num_abs (num_sub y hi))
    = (case (x, y) of
         (Some m, Some M) \<Rightarrow> \<bar>float64_round (m - lo)\<bar> \<ge> \<bar>float64_round (M - hi)\<bar>
       | _ \<Rightarrow> False)"
  by (auto simp: num_ge_def num_abs_def num_sub_def split: option.splits)

lemma below_threshold:
  "num_lt x (Some t) = (case x of Some m \<Rightarrow> m < t | None \<Rightarrow> False)"
  by (auto simp: num_lt_def split: option.splits)

lemma wbc_check_nth: "i < length mins \<Longrightarrow> wbc_check mins ! i = num_lt (mins ! i) (Some 2)"
  by (simp add: wbc_check_def)

lemma pmn_check_nth: "i < length mins \<Longrightarrow> pmn_check mins ! i = num_lt (mins ! i) (Some 45)"
  by (simp add: pmn_check_def)

lemma lym_check_nth: "i < length mins \<Longrightarrow> lym_check mins ! i = num_lt (mins ! i) (Some 20)"
  by (simp add: lym_check_def)

text \<open>The five collapsed columns, cell by cell, in terms of the elementwise checks.\<close>

lemma reduced_cells:
  assumes w: "rectangular df" and r: "reduce_abnormal df = Some r"
  shows "cell df ''sodium_min'' i = Some x \<Longrightarrow> cell df ''sodium_max'' i = Some y \<Longrightarrow>
           cell r ''sodium'' i
             = Some (if num_ge (num_abs (num_sub x 135)) (num_abs (num_sub y 145)) then x else y)"
    and "cell df ''potassium_min'' i = Some x \<Longrightarrow> cell df ''potassium_max'' i = Some y \<Longrightarrow>
           cell r ''potassium'' i
             = Some (if num_ge (num_abs (num_sub x 3.5)) (num_abs (num_sub y 5.0)) then x else y)"
    and "cell df ''wbc_min'' i = Some x \<Longrightarrow> cell df ''wbc_max'' i = Some y \<Longrightarrow>
           cell r ''wbc'' i = Some (if num_lt x (Some 2) then x else y)"
    and "cell df ''pmn_min'' i = Some x \<Longrightarrow> cell df ''pmn_max'' i = Some y \<Longrightarrow>
           cell r ''pmn'' i = Some (if num_lt x (Some 45) then x else y)"
    and "cell df ''lymphs_min'' i = Some x \<Longrightarrow> cell df ''lymphs_max'' i = Some y \<Longrightarrow>
           cell r ''lym'' i = Some (if num_lt x (Some 20) then x else y)"
proof -
  from reduce_abnormal_SomeD [OF r w]
  obtain smin smax kmin kmax wmin wmax pmin pmax lmin lmax where
    s: "map_of df ''sodium_min'' = Some (Numeric smin)" "map_of df ''sodium_max'' = Some (Numeric smax)"
    and k: "map_of df ''potassium_min'' = Some (Numeric kmin)" "map_of df ''potassium_max'' = Some (Numeric kmax)"
    and wb: "map_of df ''wbc_min'' = Some (Numeric wmin)" "map_of df ''wbc_max'' = Some (Numeric wmax)"
    and p: "map_of df ''pmn_min'' = Some (Numeric pmin)" "map_of df ''pmn_max'' = Some (Numeric pmax)"
    and l: "map_of df ''lymphs_min'' = Some (Numeric lmin)" "map_of df ''lymphs_max'' = Some (Numeric lmax)"
    and rs: "map_of r ''sodium'' = Some (Numeric (most_abnormal (nrows df) (sodium_check smin smax) smin smax))"
    and rk: "map_of r ''potassium'' = Some (Numeric (most_abnormal (nrows df) (potassium_check kmin kmax) kmin kmax))"
    and rw: "map_of r ''wbc'' = Some (Numeric (most_abnormal (nrows df) (wbc_check wmin) wmin wmax))"
    and rp: "map_of r ''pmn'' = Some (Numeric (most_abnormal (nrows df) (pmn_check pmin) pmin pmax))"
    and rl: "map_of r ''lym'' = Some (Numeric (most_abnormal (nrows df) (lym_check lmin) lmin lmax))"
    by (elim exE conjE) (rule that)
  have ls: "length smin = nrows df" "length smax = nrows df"
    using rectangular_col_len [OF w s(1)] rectangular_col_len [OF w s(2)] by simp_all
  have lk: "length kmin = nrows df" "length kmax = nrows df"
    using rectangular_col_len [OF w k(1)] rectangular_col_len [OF w k(2)] by simp_all
  have lw: "length wmin = nrows df" using rectangular_col_len [OF w wb(1)] by simp
  have lp: "length pmin = nrows df" using rectangular_col_len [OF w p(1)] by simp
  have ll: "length lmin = nrows df" using rectangular_col_len [OF w l(1)] by simp
  have cs: "length (sodium_check smin smax) = nrows df" by (simp add: sodium_check_def ls)
  have ck: "length (potassium_check kmin kmax) = nrows df" by (simp add: potassium_check_def lk)
  have cw: "length (wbc_check wmin) = nrows df" by (simp add: wbc_check_def lw)
  have cp: "length (pmn_check pmin) = nrows df" by (simp add: pmn_check_def lp)
  have cl: "length (lym_check lmin) = nrows df" by (simp add: lym_check_def ll)
  {
    assume x: "cell df ''sodium_min'' i = Some x" and y: "cell df ''sodium_max'' i = Some y"
    from x s have i: "i < nrows df" "smin ! i = x" by (auto simp: cell_Some ls)
    from y s have j: "smax ! i = y" by (auto simp: cell_Some)
    show "cell r ''sodium'' i
             = Some (if num_ge (num_abs (num_sub x 135)) (num_abs (num_sub y 145)) then x else y)"
      unfolding collapsed_cell [OF w s rs cs x y] using i j by (simp add: sodium_check_nth ls)
  }
  {
    assume x: "cell df ''potassium_min'' i = Some x" and y: "cell df ''potassium_max'' i = Some y"
    from x k have i: "i < nrows df" "kmin ! i = x" by (auto simp: cell_Some lk)
    from y k have j: "kmax ! i = y" by (auto simp: cell_Some)
    show "cell r ''potassium'' i
             = Some (if num_ge (num_abs (num_sub x 3.5)) (num_abs (num_sub y 5.0)) then x else y)"
      unfolding collapsed_cell [OF w k rk ck x y] using i j by (simp add: potassium_check_nth lk)
  }
  {
    assume x: "cell df ''wbc_min'' i = Some x" and y: "cell df ''wbc_max'' i = Some y"
    from x wb have i: "i < nrows df" "wmin ! i = x" by (auto simp: cell_Some lw)
    show "cell r ''wbc'' i = Some (if num_lt x (Some 2) then x else y)"
      unfolding collapsed_cell [OF w wb rw cw x y] using i by (simp add: wbc_check_nth lw)
  }
  {
    assume x: "cell df ''pmn_min'' i = Some x" and y: "cell df ''pmn_max'' i = Some y"
    from x p have i: "i < nrows df" "pmin ! i = x" by (auto simp: cell_Some lp)
    show "cell r ''pmn'' i = Some (if num_lt x (Some 45) then x else y)"
      unfolding collapsed_cell [OF w p rp cp x y] using i by (simp add: pmn_check_nth lp)
  }
  {
    assume x: "cell df ''lymphs_min'' i = Some x" and y: "cell df ''lymphs_max'' i = Some y"
    from x l have i: "i < nrows df" "lmin ! i = x" by (auto simp: cell_Some ll)
    show "cell r ''lym'' i = Some (if num_lt x (Some 20) then x else y)"
      unfolding collapsed_cell [OF w l rl cl x y] using i by (simp add: lym_check_nth ll)
  }
qed

lemma reduce_abnormal_kept:
  assumes w: "rectangular df" and r: "reduce_abnormal df = Some r"
    and c: "c \<notin> set lab_drop \<union> set reduced_bounds \<union> {''sodium'', ''potassium'', ''wbc'', ''pmn'', ''lym''}"
  shows "map_of r c = map_of df c"
proof -
  from reduce_abnormal_SomeD [OF r w]
  have "\<forall>c. c \<notin> set lab_drop \<union> set reduced_bounds \<union> {''sodium'', ''potassium'', ''wbc'', ''pmn'', ''lym''}
         \<longrightarrow> map_of r c = map_of df c"
    by (elim exE conjE)
  with c show ?thesis by blast
qed

lemma reduce_abnormal_gone:
  assumes w: "rectangular df" and r: "reduce_abnormal df = Some r"
    and c: "c \<in> set lab_drop \<union> set reduced_bounds"
  shows "c \<notin> set (columns r)"
proof -
  from reduce_abnormal_SomeD [OF r w]
  have "\<forall>c \<in> set lab_drop \<union> set reduced_bounds. map_of r c = None"
    by (elim exE conjE)
  with c show ?thesis by (simp add: in_columns_iff)
qed

subsection \<open>The sample tables, evaluated\<close>

lemma example_cohort_columns: "columns example_cohort = cohort_columns"
  by code_simp

lemma example_rectangular: "rectangular example_cohort"
  by code_simp

lemma example_reduce: "reduce_abnormal example_cohort = Some example_reduced"
  by code_simp

lemma example_rounding_rectangular: "rectangular example_rounding"
  by code_simp

lemma example_rounding_reduce: "reduce_abnormal example_rounding = Some example_rounding_reduced"
  by code_simp

lemma example_curate: "curate example_reduced = Some (example_features, example_label, example_apache)"
  by code_simp

lemma example_passes: "filter_stage f example_cohort = Some example_cohort"
  by code_simp

lemma example_filter: "filter_stage float_of_digits example_admissions = Some example_admitted"
  by code_simp

section \<open>The reduction rules, row by row\<close>

text \<open>
  Claim C4, as stated, fails. The two deviations are computed in float64, and the rounding of
  a subtraction can turn a strictly smaller deviation of the minimum into a tie, which goes to
  the minimum. In the first stay of the second sample the potassium bounds are the doubles
  \<open>1/2 - 31 / 2 ^ 54\<close> and \<open>8 + 1 / 2 ^ 49\<close>: the minimum deviates from 3.5 by less than the
  maximum deviates from 5.0, and yet the reduced potassium is the minimum, because
  \<open>3 + 31 / 2 ^ 54\<close> rounds to \<open>3 + 1 / 2 ^ 49\<close>. The sodium bounds \<open>7 + 1 / 2 ^ 48\<close> and 273
  of that stay do the same with the bounds 135 and 145.
\<close>

theorem exact_deviation_counterexample:
  "is_double (1 / 2 - 31 / 2 ^ 54) \<and> is_double (8 + 1 / 2 ^ 49) \<and>
   is_double (7 + 1 / 2 ^ 48) \<and> is_double 273 \<and>
   reduce_abnormal example_rounding = Some example_rounding_reduced \<and>
   cell example_rounding ''potassium_min'' 0 = Some (Some (1 / 2 - 31 / 2 ^ 54)) \<and>
   cell example_rounding ''potassium_max'' 0 = Some (Some (8 + 1 / 2 ^ 49)) \<and>
   \<bar>(1 / 2 - 31 / 2 ^ 54) - 3.5\<bar> < \<bar>(8 + 1 / 2 ^ 49) - 5.0 :: rat\<bar> \<and>
   cell example_rounding_reduced ''potassium'' 0 = Some (Some (1 / 2 - 31 / 2 ^ 54)) \<and>
   cell example_rounding_reduced ''potassium'' 0 \<noteq> Some (Some (8 + 1 / 2 ^ 49)) \<and>
   cell example_rounding ''sodium_min'' 0 = Some (Some (7 + 1 / 2 ^ 48)) \<and>
   cell example_rounding ''sodium_max'' 0 = Some (Some 273) \<and>
   \<bar>(7 + 1 / 2 ^ 48) - 135\<bar> < \<bar>273 - 145 :: rat\<bar> \<and>
   cell example_rounding_reduced ''sodium'' 0 = Some (Some (7 + 1 / 2 ^ 48)) \<and>
   cell example_rounding_reduced ''sodium'' 0 \<noteq> Some (Some 273)"
proof -
  have "is_double (1 / 2 - 31 / 2 ^ 54)" "is_double (8 + 1 / 2 ^ 49)"
    "is_double (7 + 1 / 2 ^ 48)" "is_double 273"
    by code_simp+
  moreover have "cell example_rounding ''potassium_min'' 0 = Some (Some (1 / 2 - 31 / 2 ^ 54))"
    "cell example_rounding ''potassium_max'' 0 = Some (Some (8 + 1 / 2 ^ 49))"
    "cell example_rounding ''sodium_min'' 0 = Some (Some (7 + 1 / 2 ^ 48))"
    "cell example_rounding ''sodium_max'' 0 = Some (Some 273)"
    by code_simp+
  moreover have "cell example_rounding_reduced ''potassium'' 0 = Some (Some (1 / 2 - 31 / 2 ^ 54))"
    "cell example_rounding_reduced ''sodium'' 0 = Some (Some (7 + 1 / 2 ^ 48))"
    by code_simp+
  moreover have "\<bar>(1 / 2 - 31 / 2 ^ 54) - 3.5\<bar> < \<bar>(8 + 1 / 2 ^ 49) - 5.0 :: rat\<bar>"
    "\<bar>(7 + 1 / 2 ^ 48) - 135\<bar> < \<bar>273 - 145 :: rat\<bar>"
    by simp_all
  ultimately show ?thesis using example_rounding_reduce by simp
qed

text \<open>
  Claim C4, amended. In every row the reduced sodium is the minimum observation when the
  float64 value of \<open>|min - 135|\<close> is greater than or equal to the float64 value of
  \<open>|max - 145|\<close>, each difference rounded to the nearest double, and the maximum observation
  otherwise, ties of the rounded deviations going to the minimum; the reduced potassium follows
  the same rule with the bounds 3.5 and 5.0. A comparison in which a bound is missing is
  false, so that row takes the maximum column. Rounding is monotone: whenever the exact
  deviations satisfy \<open>|min - lower| \<ge> |max - upper|\<close> the minimum is selected, so the maximum
  is selected only where the minimum's exact deviation is strictly smaller.
\<close>

theorem bidirectional_deviation_rule:
  assumes "rectangular df" and "reduce_abnormal df = Some r"
  shows "(\<forall>x y. cell df ''sodium_min'' i = Some x \<longrightarrow> cell df ''sodium_max'' i = Some y \<longrightarrow>
            cell r ''sodium'' i = Some (case (x, y) of
                (Some m, Some M) \<Rightarrow>
                  if \<bar>float64_round (m - 135)\<bar> \<ge> \<bar>float64_round (M - 145)\<bar> then Some m else Some M
              | _ \<Rightarrow> y)) \<and>
         (\<forall>x y. cell df ''potassium_min'' i = Some x \<longrightarrow> cell df ''potassium_max'' i = Some y \<longrightarrow>
            cell r ''potassium'' i = Some (case (x, y) of
                (Some m, Some M) \<Rightarrow>
                  if \<bar>float64_round (m - 3.5)\<bar> \<ge> \<bar>float64_round (M - 5.0)\<bar> then Some m else Some M
              | _ \<Rightarrow> y)) \<and>
         (\<forall>m M. cell df ''sodium_min'' i = Some (Some m) \<longrightarrow>
            cell df ''sodium_max'' i = Some (Some M) \<longrightarrow>
            \<bar>m - 135\<bar> \<ge> \<bar>M - 145\<bar> \<longrightarrow> cell r ''sodium'' i = Some (Some m)) \<and>
         (\<forall>m M. cell df ''potassium_min'' i = Some (Some m) \<longrightarrow>
            cell df ''potassium_max'' i = Some (Some M) \<longrightarrow>
            \<bar>m - 3.5\<bar> \<ge> \<bar>M - 5.0\<bar> \<longrightarrow> cell r ''potassium'' i = Some (Some m))"
proof -
  have s: "cell r ''sodium'' i = Some (case (x, y) of
        (Some m, Some M) \<Rightarrow>
          if \<bar>float64_round (m - 135)\<bar> \<ge> \<bar>float64_round (M - 145)\<bar> then Some m else Some M
      | _ \<Rightarrow> y)"
    if "cell df ''sodium_min'' i = Some x" "cell df ''sodium_max'' i = Some y" for x y
    using reduced_cells(1) [OF assms that] by (simp add: deviation_ge split: option.splits)
  have k: "cell r ''potassium'' i = Some (case (x, y) of
        (Some m, Some M) \<Rightarrow>
          if \<bar>float64_round (m - 3.5)\<bar> \<ge> \<bar>float64_round (M - 5.0)\<bar> then Some m else Some M
      | _ \<Rightarrow> y)"
    if "cell df ''potassium_min'' i = Some x" "cell df ''potassium_max'' i = Some y" for x y
    using reduced_cells(2) [OF assms that] by (simp add: deviation_ge split: option.splits)
  have "cell r ''sodium'' i = Some (Some m)"
    if "cell df ''sodium_min'' i = Some (Some m)" "cell df ''sodium_max'' i = Some (Some M)"
      "\<bar>m - 135\<bar> \<ge> \<bar>M - 145\<bar>" for m M
    using s [OF that(1,2)] rounded_deviation_mono [OF that(3)] by simp
  moreover have "cell r ''potassium'' i = Some (Some m)"
    if "cell df ''potassium_min'' i = Some (Some m)" "cell df ''potassium_max'' i = Some (Some M)"
      "\<bar>m - 3.5\<bar> \<ge> \<bar>M - 5.0\<bar>" for m M
    using k [OF that(1,2)] rounded_deviation_mono [OF that(3)] by simp
  ultimately show ?thesis using s k by blast
qed

theorem bidirectional_deviation_rule_witness:
  "rectangular example_cohort \<and> reduce_abnormal example_cohort = Some example_reduced \<and>
   cell example_cohort ''sodium_min'' 0 = Some (Some 128) \<and>
   cell example_cohort ''sodium_max'' 0 = Some (Some 150) \<and>
   \<bar>128 - 135\<bar> \<ge> \<bar>150 - 145 :: rat\<bar> \<and>
   cell example_reduced ''sodium'' 0 = Some (Some 128) \<and>
   cell example_cohort ''sodium_min'' 2 = Some (Some 135) \<and>
   cell example_cohort ''sodium_max'' 2 = Some (Some 145) \<and>
   cell example_reduced ''sodium'' 2 = Some (Some 135) \<and>
   cell example_cohort ''potassium_min'' 0 = Some (Some 3.25) \<and>
   cell example_cohort ''potassium_max'' 0 = Some (Some 5.75) \<and>
   cell example_reduced ''potassium'' 0 = Some (Some 5.75) \<and>
   cell example_cohort ''potassium_min'' 2 = Some (Some 2.75) \<and>
   cell example_cohort ''potassium_max'' 2 = Some (Some 5.125) \<and>
   \<bar>2.75 - 3.5\<bar> \<ge> \<bar>5.125 - 5.0 :: rat\<bar> \<and>
   cell example_reduced ''potassium'' 2 = Some (Some 2.75) \<and>
   rectangular example_rounding \<and>
   reduce_abnormal example_rounding = Some example_rounding_reduced \<and>
   cell example_rounding ''potassium_min'' 1 = Some (Some (float64_round 3.1)) \<and>
   cell example_rounding ''potassium_max'' 1 = Some (Some (float64_round 5.4)) \<and>
   cell example_rounding_reduced ''potassium'' 1 = Some (Some (float64_round 5.4))"
proof -
  have a: "cell example_cohort ''sodium_min'' 0 = Some (Some 128)"
    "cell example_cohort ''sodium_max'' 0 = Some (Some 150)"
    "cell example_cohort ''sodium_min'' 2 = Some (Some 135)"
    "cell example_cohort ''sodium_max'' 2 = Some (Some 145)"
    "cell example_cohort ''potassium_min'' 0 = Some (Some 3.25)"
    "cell example_cohort ''potassium_max'' 0 = Some (Some 5.75)"
    "cell example_cohort ''potassium_min'' 2 = Some (Some 2.75)"
    "cell example_cohort ''potassium_max'' 2 = Some (Some 5.125)"
    by code_simp+
  have b: "cell example_rounding ''potassium_min'' 1 = Some (Some (float64_round 3.1))"
    "cell example_rounding ''potassium_max'' 1 = Some (Some (float64_round 5.4))"
    by code_simp+
  have c: "\<not> \<bar>float64_round (3.25 - 3.5)\<bar> \<ge> \<bar>float64_round (5.75 - 5.0)\<bar>"
    "\<not> \<bar>float64_round (float64_round 3.1 - 3.5)\<bar> \<ge> \<bar>float64_round (float64_round 5.4 - 5.0)\<bar>"
    "\<bar>float64_round (135 - 135)\<bar> \<ge> \<bar>float64_round (145 - 145)\<bar>"
    by code_simp+
  have d: "\<bar>128 - 135\<bar> \<ge> \<bar>150 - 145 :: rat\<bar>" "\<bar>2.75 - 3.5\<bar> \<ge> \<bar>5.125 - 5.0 :: rat\<bar>"
    by simp_all
  note r0 = bidirectional_deviation_rule [OF example_rectangular example_reduce, of 0]
  note r2 = bidirectional_deviation_rule [OF example_rectangular example_reduce, of 2]
  have "cell example_reduced ''sodium'' 0 = Some (Some 128)"
    using r0 a(1,2) d(1) by blast
  moreover have "cell example_reduced ''potassium'' 0 = Some (Some 5.75)"
    using r0 a c by simp
  moreover have "cell example_reduced ''sodium'' 2 = Some (Some 135)"
    using r2 a c by simp
  moreover have "cell example_reduced ''potassium'' 2 = Some (Some 2.75)"
    using r2 a(7,8) d(2) by blast
  moreover have "cell example_rounding_reduced ''potassium'' 1 = Some (Some (float64_round 5.4))"
    using bidirectional_deviation_rule [OF example_rounding_rectangular example_rounding_reduce, of 1]
      b c
    by simp
  ultimately show ?thesis
    using a b d example_rectangular example_reduce example_rounding_rectangular
      example_rounding_reduce
    by simp
qed

text \<open>
  Claim C5. In every row the reduced white blood cell count is the minimum observation if
  that minimum is below 2 and the maximum observation otherwise; the neutrophil and
  lymphocyte percentages follow the same rule with the thresholds 45 and 20. The raw minimum
  is compared with the threshold; no deviation from a range is computed. A missing minimum
  is not below the threshold. The rule is stated as the selection it makes; where the two
  observations are equal both selections give the same value.
\<close>

theorem threshold_rule:
  assumes "rectangular df" and "reduce_abnormal df = Some r"
  shows "(\<forall>x y. cell df ''wbc_min'' i = Some x \<longrightarrow> cell df ''wbc_max'' i = Some y \<longrightarrow>
            cell r ''wbc'' i = Some (case x of Some m \<Rightarrow> if m < 2 then x else y | None \<Rightarrow> y)) \<and>
         (\<forall>x y. cell df ''pmn_min'' i = Some x \<longrightarrow> cell df ''pmn_max'' i = Some y \<longrightarrow>
            cell r ''pmn'' i = Some (case x of Some m \<Rightarrow> if m < 45 then x else y | None \<Rightarrow> y)) \<and>
         (\<forall>x y. cell df ''lymphs_min'' i = Some x \<longrightarrow> cell df ''lymphs_max'' i = Some y \<longrightarrow>
            cell r ''lym'' i = Some (case x of Some m \<Rightarrow> if m < 20 then x else y | None \<Rightarrow> y))"
  using reduced_cells(3-5) [OF assms, of i]
  by (auto simp: below_threshold split: option.splits)

theorem threshold_rule_witness:
  "rectangular example_cohort \<and> reduce_abnormal example_cohort = Some example_reduced \<and>
   cell example_cohort ''wbc_min'' 0 = Some (Some 1.5) \<and>
   cell example_cohort ''wbc_max'' 0 = Some (Some 14) \<and>
   cell example_reduced ''wbc'' 0 = Some (Some 1.5) \<and>
   cell example_cohort ''wbc_min'' 2 = Some (Some 5) \<and>
   cell example_cohort ''wbc_max'' 2 = Some (Some 14) \<and>
   cell example_reduced ''wbc'' 2 = Some (Some 14) \<and>
   cell example_cohort ''pmn_min'' 2 = Some (Some 44) \<and>
   cell example_cohort ''pmn_max'' 2 = Some (Some 70) \<and>
   cell example_reduced ''pmn'' 2 = Some (Some 44) \<and>
   cell example_cohort ''lymphs_min'' 2 = Some (Some 20) \<and>
   cell example_cohort ''lymphs_max'' 2 = Some (Some 35) \<and>
   cell example_reduced ''lym'' 2 = Some (Some 35)"
proof -
  have a: "cell example_cohort ''wbc_min'' 0 = Some (Some 1.5)"
    "cell example_cohort ''wbc_max'' 0 = Some (Some 14)"
    "cell example_cohort ''wbc_min'' 2 = Some (Some 5)"
    "cell example_cohort ''wbc_max'' 2 = Some (Some 14)"
    "cell example_cohort ''pmn_min'' 2 = Some (Some 44)"
    "cell example_cohort ''pmn_max'' 2 = Some (Some 70)"
    "cell example_cohort ''lymphs_min'' 2 = Some (Some 20)"
    "cell example_cohort ''lymphs_max'' 2 = Some (Some 35)"
    by code_simp+
  have "cell example_reduced ''wbc'' 0 = Some (Some 1.5)"
    using threshold_rule [OF example_rectangular example_reduce, of 0] a by simp
  moreover have "cell example_reduced ''wbc'' 2 = Some (Some 14)"
    "cell example_reduced ''pmn'' 2 = Some (Some 44)"
    "cell example_reduced ''lym'' 2 = Some (Some 35)"
    using threshold_rule [OF example_rectangular example_reduce, of 2] a by simp_all
  ultimately show ?thesis using a example_rectangular example_reduce by simp
qed

text \<open>
  Claim C3, as stated, fails: in the second stay of the sample the potassium minimum is
  missing and the maximum is 5.25, and the reduced potassium is 5.25, not missing.
\<close>

theorem missing_bound_counterexample:
  "reduce_abnormal example_cohort = Some example_reduced \<and>
   cell example_cohort ''potassium_min'' 1 = Some None \<and>
   cell example_cohort ''potassium_max'' 1 = Some (Some 5.25) \<and>
   cell example_reduced ''potassium'' 1 = Some (Some 5.25) \<and>
   cell example_reduced ''potassium'' 1 \<noteq> Some None"
proof -
  have "cell example_cohort ''potassium_min'' 1 = Some None"
    "cell example_cohort ''potassium_max'' 1 = Some (Some 5.25)"
    "cell example_reduced ''potassium'' 1 = Some (Some 5.25)"
    by code_simp+
  then show ?thesis using example_reduce by simp
qed

text \<open>
  Claim C3, amended. For each of the five collapsed analytes: if both bounds of a row are
  missing, the reduced value is missing. If the minimum is missing, the reduced value is the
  maximum observation, whatever that is. For sodium and potassium, if the maximum is missing
  the reduced value is missing.
\<close>

theorem missing_bounds_rule:
  assumes "rectangular df" and "reduce_abnormal df = Some r"
    and "(x, x_min, x_max) \<in> {(''sodium'', ''sodium_min'', ''sodium_max''),
           (''potassium'', ''potassium_min'', ''potassium_max''), (''wbc'', ''wbc_min'', ''wbc_max''),
           (''pmn'', ''pmn_min'', ''pmn_max''), (''lym'', ''lymphs_min'', ''lymphs_max'')}"
  shows "(cell df x_min i = Some None \<longrightarrow> cell df x_max i = Some None \<longrightarrow> cell r x i = Some None) \<and>
         (\<forall>y. cell df x_min i = Some None \<longrightarrow> cell df x_max i = Some y \<longrightarrow> cell r x i = Some y) \<and>
         (\<forall>m. x \<in> {''sodium'', ''potassium''} \<longrightarrow>
            cell df x_min i = Some m \<longrightarrow> cell df x_max i = Some None \<longrightarrow> cell r x i = Some None)"
  using assms(3) reduced_cells [OF assms(1,2), of i]
  by (auto simp: below_threshold deviation_ge split: option.splits)

theorem missing_bounds_rule_witness:
  "rectangular example_cohort \<and> reduce_abnormal example_cohort = Some example_reduced \<and>
   cell example_cohort ''lymphs_min'' 1 = Some None \<and>
   cell example_cohort ''lymphs_max'' 1 = Some None \<and>
   cell example_reduced ''lym'' 1 = Some None \<and>
   cell example_cohort ''potassium_min'' 1 = Some None \<and>
   cell example_cohort ''potassium_max'' 1 = Some (Some 5.25) \<and>
   cell example_reduced ''potassium'' 1 = Some (Some 5.25) \<and>
   cell example_cohort ''sodium_min'' 3 = Some (Some 136) \<and>
   cell example_cohort ''sodium_max'' 3 = Some None \<and>
   cell example_reduced ''sodium'' 3 = Some None"
proof -
  have a: "cell example_cohort ''lymphs_min'' 1 = Some None"
    "cell example_cohort ''lymphs_max'' 1 = Some None"
    "cell example_cohort ''potassium_min'' 1 = Some None"
    "cell example_cohort ''potassium_max'' 1 = Some (Some 5.25)"
    "cell example_cohort ''sodium_min'' 3 = Some (Some 136)"
    "cell example_cohort ''sodium_max'' 3 = Some None"
    by code_simp+
  have "cell example_reduced ''lym'' 1 = Some None"
    using missing_bounds_rule [OF example_rectangular example_reduce,
        of "''lym''" "''lymphs_min''" "''lymphs_max''" 1] a
    by simp
  moreover have "cell example_reduced ''potassium'' 1 = Some (Some 5.25)"
    using missing_bounds_rule [OF example_rectangular example_reduce,
        of "''potassium''" "''potassium_min''" "''potassium_max''" 1] a
    by simp
  moreover have "cell example_reduced ''sodium'' 3 = Some None"
    using missing_bounds_rule [OF example_rectangular example_reduce,
        of "''sodium''" "''sodium_min''" "''sodium_max''" 3] a
    by simp
  ultimately show ?thesis using a example_rectangular example_reduce by simp
qed

text \<open>
  Claim C6. The columns dropped for the unidirectional analytes are exactly the maximum of
  each analyte whose minimum is retained and the minimum of each analyte whose maximum is
  retained. After the reduction the retained column is the original column, unchanged, and
  the dropped column is no column of the output.
\<close>

theorem unidirectional_rule:
  assumes "rectangular df" and "reduce_abnormal df = Some r"
  shows "lab_drop = map (\<lambda>a. a @ ''_max'') spec_retain_min @ map (\<lambda>a. a @ ''_min'') spec_retain_max \<and>
         (\<forall>a \<in> set spec_retain_min.
            getcol r (a @ ''_min'') = getcol df (a @ ''_min'') \<and> a @ ''_max'' \<notin> set (columns r)) \<and>
         (\<forall>a \<in> set spec_retain_max.
            getcol r (a @ ''_max'') = getcol df (a @ ''_max'') \<and> a @ ''_min'' \<notin> set (columns r))"
proof -
  have 1: "lab_drop = map (\<lambda>a. a @ ''_max'') spec_retain_min @ map (\<lambda>a. a @ ''_min'') spec_retain_max"
    by (simp add: lab_drop_def spec_retain_min_def spec_retain_max_def)
  have 2: "\<forall>a \<in> set spec_retain_min. a @ ''_min'' \<notin> set lab_drop \<union> set reduced_bounds \<union> {''sodium'', ''potassium'', ''wbc'', ''pmn'', ''lym''}"
    by (simp add: lab_drop_def spec_retain_min_def reduced_bounds_def)
  have 3: "\<forall>a \<in> set spec_retain_max. a @ ''_max'' \<notin> set lab_drop \<union> set reduced_bounds \<union> {''sodium'', ''potassium'', ''wbc'', ''pmn'', ''lym''}"
    by (simp add: lab_drop_def spec_retain_max_def reduced_bounds_def)
  have 4: "\<forall>a \<in> set spec_retain_min. a @ ''_max'' \<in> set lab_drop \<union> set reduced_bounds"
    unfolding 1 by simp
  have 5: "\<forall>a \<in> set spec_retain_max. a @ ''_min'' \<in> set lab_drop \<union> set reduced_bounds"
    unfolding 1 by simp
  show ?thesis
    using 1 2 3 4 5 reduce_abnormal_kept [OF assms] reduce_abnormal_gone [OF assms]
    unfolding getcol_def by blast
qed

theorem unidirectional_rule_witness:
  "rectangular example_cohort \<and> reduce_abnormal example_cohort = Some example_reduced \<and>
   ''bicarbonate'' \<in> set spec_retain_min \<and>
   getcol example_reduced ''bicarbonate_min'' = getcol example_cohort ''bicarbonate_min'' \<and>
   getcol example_cohort ''bicarbonate_min'' = Some (const_col 3) \<and>
   ''bicarbonate_max'' \<in> set (columns example_cohort) \<and>
   ''bicarbonate_max'' \<notin> set (columns example_reduced) \<and>
   ''creatinine'' \<in> set spec_retain_max \<and>
   getcol example_reduced ''creatinine_max'' = getcol example_cohort ''creatinine_max'' \<and>
   getcol example_cohort ''creatinine_max'' = Some (const_col 9) \<and>
   ''creatinine_min'' \<in> set (columns example_cohort) \<and>
   ''creatinine_min'' \<notin> set (columns example_reduced)"
proof -
  have a: "''bicarbonate'' \<in> set spec_retain_min" "''creatinine'' \<in> set spec_retain_max"
    by (simp_all add: spec_retain_min_def spec_retain_max_def)
  have b: "getcol example_cohort ''bicarbonate_min'' = Some (const_col 3)"
    "getcol example_cohort ''creatinine_max'' = Some (const_col 9)"
    "''bicarbonate_max'' \<in> set (columns example_cohort)"
    "''creatinine_min'' \<in> set (columns example_cohort)"
    by code_simp+
  from unidirectional_rule [OF example_rectangular example_reduce] a
  have "getcol example_reduced (''bicarbonate'' @ ''_min'') = getcol example_cohort (''bicarbonate'' @ ''_min'')"
    "''bicarbonate'' @ ''_max'' \<notin> set (columns example_reduced)"
    "getcol example_reduced (''creatinine'' @ ''_max'') = getcol example_cohort (''creatinine'' @ ''_max'')"
    "''creatinine'' @ ''_min'' \<notin> set (columns example_reduced)"
    by blast+
  then show ?thesis using a b example_rectangular example_reduce by simp
qed

subsection \<open>The sentinel pass and the reducer\<close>

lemma columns_replace: "columns (replace_frame df) = columns df"
  by (simp add: replace_frame_def columns_def comp_def)

lemma map_of_replace: "map_of (replace_frame df) c = map_option replace_series (map_of df c)"
  by (induction df) (auto simp: replace_frame_def)

lemma slen_replace: "slen (replace_series s) = slen s"
  by (cases s) simp_all

lemma nrows_replace: "nrows (replace_frame df) = nrows df"
  by (cases df) (simp_all add: replace_frame_def slen_replace)

lemma replace_assign: "replace_frame (assign c s df) = assign c (replace_series s) (replace_frame df)"
  by (induction df) (auto simp: replace_frame_def)

lemma drop_replace: "drop_cols ns (replace_frame df) = map_option replace_frame (drop_cols ns df)"
proof -
  have "filter (\<lambda>p. fst p \<notin> set ns) (replace_frame df)
      = replace_frame (filter (\<lambda>p. fst p \<notin> set ns) df)"
    by (simp add: replace_frame_def filter_map comp_def)
  then show ?thesis by (simp add: drop_cols_def columns_replace)
qed

lemma replace_clean: "Some (- 1) \<notin> set xs \<Longrightarrow> map (\<lambda>x. if x = Some (- 1) then None else x) xs = xs"
  by (induction xs) auto

lemma numcol_replace: "no_sentinel df c \<Longrightarrow> numcol (replace_frame df) c = numcol df c"
  by (auto simp: no_sentinel_def numcol_def map_of_replace replace_clean
           split: option.splits series.splits)

lemma set_mask_assign: "set (mask_assign a m v) \<subseteq> set a \<union> set v"
  by (induction a m v rule: mask_assign.induct) auto

lemma set_bool_index: "set (bool_index xs m) \<subseteq> set xs"
  by (auto simp: bool_index_def dest: set_zip_leftD)

lemma set_most_abnormal: "set (most_abnormal n check x_min x_max) \<subseteq> insert None (set x_min \<union> set x_max)"
proof -
  have "set (most_abnormal n check x_min x_max)
      \<subseteq> set (np_empty n) \<union> set (bool_index x_min check) \<union> set (bool_index x_max (map Not check))"
    unfolding most_abnormal_def fill_by_check_def
    using set_mask_assign [of "mask_assign (np_empty n) check (bool_index x_min check)"
            "map Not check" "bool_index x_max (map Not check)"]
      set_mask_assign [of "np_empty n" check "bool_index x_min check"]
    by blast
  moreover have "set (np_empty n) \<subseteq> {None}" by (auto simp: np_empty_def)
  ultimately show ?thesis
    using set_bool_index [of x_min check] set_bool_index [of x_max "map Not check"] by blast
qed

lemma collapse_replace:
  assumes "no_sentinel df xmin" "no_sentinel df xmax"
  shows "collapse x xmin xmax check (replace_frame df)
           = map_option replace_frame (collapse x xmin xmax check df)"
proof (cases "numcol df xmin")
  case None
  then show ?thesis by (simp add: collapse_def numcol_replace assms)
next
  case a: (Some mins)
  show ?thesis
  proof (cases "numcol df xmax")
    case None
    then show ?thesis by (simp add: collapse_def numcol_replace assms a)
  next
    case b: (Some maxs)
    let ?v = "most_abnormal (nrows df) check mins maxs"
    from assms a b have "Some (- 1) \<notin> set mins" "Some (- 1) \<notin> set maxs"
      by (simp_all add: no_sentinel_def)
    with set_most_abnormal [of "nrows df" check mins maxs] have "Some (- 1) \<notin> set ?v" by auto
    then have "replace_series (Numeric ?v) = Numeric ?v" by (simp add: replace_clean)
    then show ?thesis
      by (simp add: collapse_def numcol_replace assms a b nrows_replace replace_assign
            drop_replace [symmetric])
  qed
qed

lemma no_sentinel_drop:
  "no_sentinel df c \<Longrightarrow> drop_cols ns df = Some df' \<Longrightarrow> no_sentinel df' c"
  by (auto simp: no_sentinel_def numcol_def map_of_drop split: option.splits series.splits)

lemma no_sentinel_collapse:
  assumes "no_sentinel df c" "collapse x xmin xmax check df = Some df'" "c \<noteq> x"
  shows "no_sentinel df' c"
proof -
  from assms(2) obtain v where "drop_cols [xmin, xmax] (assign x v df) = Some df'"
    by (auto simp: collapse_def bind_eq_Some_conv)
  from map_of_drop [OF this, of c] assms(1,3) show ?thesis
    by (auto simp: no_sentinel_def numcol_def map_of_assign split: option.splits series.splits)
qed

lemma bind_map_step:
  "(\<And>y. x = Some y \<Longrightarrow> f (g y) = map_option h (k y))
    \<Longrightarrow> (map_option g x \<bind> f) = map_option h (x \<bind> k)"
  by (cases x) simp_all

lemma bind_step:
  "(\<And>y. x = Some y \<Longrightarrow> f y = map_option h (k y)) \<Longrightarrow> (x \<bind> f) = map_option h (x \<bind> k)"
  by (cases x) simp_all

lemma reduce_replace:
  assumes cl: "no_sentinel_bounds df"
  shows "reduce_abnormal (replace_frame df) = map_option replace_frame (reduce_abnormal df)"
proof -
  have b: "c \<in> set reduced_bounds \<Longrightarrow> no_sentinel df c" for c
    using cl by (simp add: no_sentinel_bounds_def list_all_iff)
  show ?thesis
    unfolding reduce_abnormal_def drop_replace
  proof (rule bind_map_step)
    fix c1 assume d1: "drop_cols lab_drop df = Some c1"
    have b1: "c \<in> set reduced_bounds \<Longrightarrow> no_sentinel c1 c" for c
      using no_sentinel_drop [OF b d1] .
    have n1: "numcol (replace_frame c1) ''sodium_min'' = numcol c1 ''sodium_min''"
      "numcol (replace_frame c1) ''sodium_max'' = numcol c1 ''sodium_max''"
      by (rule numcol_replace, rule b1, simp add: reduced_bounds_def)+
    have r1: "collapse ''sodium'' ''sodium_min'' ''sodium_max'' check (replace_frame c1)
           = map_option replace_frame (collapse ''sodium'' ''sodium_min'' ''sodium_max'' check c1)" for check
      by (rule collapse_replace; rule b1; simp add: reduced_bounds_def)
    show "numcol (replace_frame c1) ''sodium_min'' \<bind>
         (\<lambda>sodium_min. numcol (replace_frame c1) ''sodium_max'' \<bind>
            (\<lambda>sodium_max. collapse ''sodium'' ''sodium_min'' ''sodium_max''
                   (sodium_check sodium_min sodium_max) (replace_frame c1) \<bind>
               (\<lambda>cohort2. numcol cohort2 ''potassium_min'' \<bind>
                  (\<lambda>potassium_min. numcol cohort2 ''potassium_max'' \<bind>
                     (\<lambda>potassium_max. collapse ''potassium'' ''potassium_min'' ''potassium_max''
                            (potassium_check potassium_min potassium_max) cohort2 \<bind>
                        (\<lambda>cohort3. numcol cohort3 ''wbc_min'' \<bind>
                           (\<lambda>wbc_min. numcol cohort3 ''pmn_min'' \<bind>
                              (\<lambda>pmn_min. numcol cohort3 ''lymphs_min'' \<bind>
                                 (\<lambda>lymphs_min. collapse ''wbc'' ''wbc_min'' ''wbc_max'' (wbc_check wbc_min) cohort3 \<bind>
                                    (\<lambda>cohort4. collapse ''pmn'' ''pmn_min'' ''pmn_max'' (pmn_check pmn_min) cohort4 \<bind>
                                       collapse ''lym'' ''lymphs_min'' ''lymphs_max'' (lym_check lymphs_min)))))))))))
       = map_option replace_frame (numcol c1 ''sodium_min'' \<bind>
         (\<lambda>sodium_min. numcol c1 ''sodium_max'' \<bind>
            (\<lambda>sodium_max. collapse ''sodium'' ''sodium_min'' ''sodium_max''
                   (sodium_check sodium_min sodium_max) c1 \<bind>
               (\<lambda>cohort2. numcol cohort2 ''potassium_min'' \<bind>
                  (\<lambda>potassium_min. numcol cohort2 ''potassium_max'' \<bind>
                     (\<lambda>potassium_max. collapse ''potassium'' ''potassium_min'' ''potassium_max''
                            (potassium_check potassium_min potassium_max) cohort2 \<bind>
                        (\<lambda>cohort3. numcol cohort3 ''wbc_min'' \<bind>
                           (\<lambda>wbc_min. numcol cohort3 ''pmn_min'' \<bind>
                              (\<lambda>pmn_min. numcol cohort3 ''lymphs_min'' \<bind>
                                 (\<lambda>lymphs_min. collapse ''wbc'' ''wbc_min'' ''wbc_max'' (wbc_check wbc_min) cohort3 \<bind>
                                    (\<lambda>cohort4. collapse ''pmn'' ''pmn_min'' ''pmn_max'' (pmn_check pmn_min) cohort4 \<bind>
                                       collapse ''lym'' ''lymphs_min'' ''lymphs_max'' (lym_check lymphs_min))))))))))))"
      unfolding n1 r1
    proof (rule bind_step, rule bind_step, rule bind_map_step)
      fix smin smax c2
      assume d2: "collapse ''sodium'' ''sodium_min'' ''sodium_max'' (sodium_check smin smax) c1 = Some c2"
      have b2: "c \<in> set reduced_bounds \<Longrightarrow> no_sentinel c2 c" for c
        using no_sentinel_collapse [OF b1 d2] by (auto simp: reduced_bounds_def)
      have n2: "numcol (replace_frame c2) ''potassium_min'' = numcol c2 ''potassium_min''"
        "numcol (replace_frame c2) ''potassium_max'' = numcol c2 ''potassium_max''"
        by (rule numcol_replace, rule b2, simp add: reduced_bounds_def)+
      have r2: "collapse ''potassium'' ''potassium_min'' ''potassium_max'' check (replace_frame c2)
           = map_option replace_frame (collapse ''potassium'' ''potassium_min'' ''potassium_max'' check c2)" for check
        by (rule collapse_replace; rule b2; simp add: reduced_bounds_def)
      show "numcol (replace_frame c2) ''potassium_min'' \<bind>
                  (\<lambda>potassium_min. numcol (replace_frame c2) ''potassium_max'' \<bind>
                     (\<lambda>potassium_max. collapse ''potassium'' ''potassium_min'' ''potassium_max''
                            (potassium_check potassium_min potassium_max) (replace_frame c2) \<bind>
                        (\<lambda>cohort3. numcol cohort3 ''wbc_min'' \<bind>
                           (\<lambda>wbc_min. numcol cohort3 ''pmn_min'' \<bind>
                              (\<lambda>pmn_min. numcol cohort3 ''lymphs_min'' \<bind>
                                 (\<lambda>lymphs_min. collapse ''wbc'' ''wbc_min'' ''wbc_max'' (wbc_check wbc_min) cohort3 \<bind>
                                    (\<lambda>cohort4. collapse ''pmn'' ''pmn_min'' ''pmn_max'' (pmn_check pmn_min) cohort4 \<bind>
                                       collapse ''lym'' ''lymphs_min'' ''lymphs_max'' (lym_check lymphs_min))))))))
         = map_option replace_frame (numcol c2 ''potassium_min'' \<bind>
                  (\<lambda>potassium_min. numcol c2 ''potassium_max'' \<bind>
                     (\<lambda>potassium_max. collapse ''potassium'' ''potassium_min'' ''potassium_max''
                            (potassium_check potassium_min potassium_max) c2 \<bind>
                        (\<lambda>cohort3. numcol cohort3 ''wbc_min'' \<bind>
                           (\<lambda>wbc_min. numcol cohort3 ''pmn_min'' \<bind>
                              (\<lambda>pmn_min. numcol cohort3 ''lymphs_min'' \<bind>
                                 (\<lambda>lymphs_min. collapse ''wbc'' ''wbc_min'' ''wbc_max'' (wbc_check wbc_min) cohort3 \<bind>
                                    (\<lambda>cohort4. collapse ''pmn'' ''pmn_min'' ''pmn_max'' (pmn_check pmn_min) cohort4 \<bind>
                                       collapse ''lym'' ''lymphs_min'' ''lymphs_max'' (lym_check lymphs_min)))))))))"
        unfolding n2 r2
      proof (rule bind_step, rule bind_step, rule bind_map_step)
        fix kmin kmax c3
        assume d3: "collapse ''potassium'' ''potassium_min'' ''potassium_max'' (potassium_check kmin kmax) c2 = Some c3"
        have b3: "c \<in> set reduced_bounds \<Longrightarrow> no_sentinel c3 c" for c
          using no_sentinel_collapse [OF b2 d3] by (auto simp: reduced_bounds_def)
        have n3: "numcol (replace_frame c3) ''wbc_min'' = numcol c3 ''wbc_min''"
          "numcol (replace_frame c3) ''pmn_min'' = numcol c3 ''pmn_min''"
          "numcol (replace_frame c3) ''lymphs_min'' = numcol c3 ''lymphs_min''"
          by (rule numcol_replace, rule b3, simp add: reduced_bounds_def)+
        have r3: "collapse ''wbc'' ''wbc_min'' ''wbc_max'' check (replace_frame c3)
           = map_option replace_frame (collapse ''wbc'' ''wbc_min'' ''wbc_max'' check c3)" for check
          by (rule collapse_replace; rule b3; simp add: reduced_bounds_def)
        show "numcol (replace_frame c3) ''wbc_min'' \<bind>
                           (\<lambda>wbc_min. numcol (replace_frame c3) ''pmn_min'' \<bind>
                              (\<lambda>pmn_min. numcol (replace_frame c3) ''lymphs_min'' \<bind>
                                 (\<lambda>lymphs_min. collapse ''wbc'' ''wbc_min'' ''wbc_max'' (wbc_check wbc_min) (replace_frame c3) \<bind>
                                    (\<lambda>cohort4. collapse ''pmn'' ''pmn_min'' ''pmn_max'' (pmn_check pmn_min) cohort4 \<bind>
                                       collapse ''lym'' ''lymphs_min'' ''lymphs_max'' (lym_check lymphs_min)))))
           = map_option replace_frame (numcol c3 ''wbc_min'' \<bind>
                           (\<lambda>wbc_min. numcol c3 ''pmn_min'' \<bind>
                              (\<lambda>pmn_min. numcol c3 ''lymphs_min'' \<bind>
                                 (\<lambda>lymphs_min. collapse ''wbc'' ''wbc_min'' ''wbc_max'' (wbc_check wbc_min) c3 \<bind>
                                    (\<lambda>cohort4. collapse ''pmn'' ''pmn_min'' ''pmn_max'' (pmn_check pmn_min) cohort4 \<bind>
                                       collapse ''lym'' ''lymphs_min'' ''lymphs_max'' (lym_check lymphs_min))))))"
          unfolding n3 r3
        proof (rule bind_step, rule bind_step, rule bind_step, rule bind_map_step)
          fix wmin pmin lmin c4
          assume d4: "collapse ''wbc'' ''wbc_min'' ''wbc_max'' (wbc_check wmin) c3 = Some c4"
          have b4: "c \<in> set reduced_bounds \<Longrightarrow> no_sentinel c4 c" for c
            using no_sentinel_collapse [OF b3 d4] by (auto simp: reduced_bounds_def)
          have r4: "collapse ''pmn'' ''pmn_min'' ''pmn_max'' check (replace_frame c4)
             = map_option replace_frame (collapse ''pmn'' ''pmn_min'' ''pmn_max'' check c4)" for check
            by (rule collapse_replace; rule b4; simp add: reduced_bounds_def)
          show "collapse ''pmn'' ''pmn_min'' ''pmn_max'' (pmn_check pmin) (replace_frame c4) \<bind>
                  collapse ''lym'' ''lymphs_min'' ''lymphs_max'' (lym_check lmin)
              = map_option replace_frame
                 (collapse ''pmn'' ''pmn_min'' ''pmn_max'' (pmn_check pmin) c4 \<bind>
                    collapse ''lym'' ''lymphs_min'' ''lymphs_max'' (lym_check lmin))"
            unfolding r4
          proof (rule bind_map_step)
            fix c5
            assume d5: "collapse ''pmn'' ''pmn_min'' ''pmn_max'' (pmn_check pmin) c4 = Some c5"
            have b5: "c \<in> set reduced_bounds \<Longrightarrow> no_sentinel c5 c" for c
              using no_sentinel_collapse [OF b4 d5] by (auto simp: reduced_bounds_def)
            show "collapse ''lym'' ''lymphs_min'' ''lymphs_max'' (lym_check lmin) (replace_frame c5)
                = map_option replace_frame (collapse ''lym'' ''lymphs_min'' ''lymphs_max'' (lym_check lmin) c5)"
              by (rule collapse_replace; rule b5; simp add: reduced_bounds_def)
          qed
        qed
      qed
    qed
  qed
qed

section \<open>The sentinel pass\<close>

lemma example_relabel_wbc:
  "(relabel_and_prune example_reduced \<bind> (\<lambda>q. cell q ''wbc'' 1)) = Some None"
  by code_simp

lemma example_normalised_first:
  "(reduce_abnormal (replace_frame example_cohort) \<bind> (\<lambda>r. cell r ''wbc'' 1)) = Some (Some 10)"
  by code_simp

lemma example_clean_reduce:
  "reduce_abnormal (select_rows [True, False, True, True] example_cohort)
     = Some (select_rows [True, False, True, True] example_reduced)"
  by code_simp

lemma example_clean_relabel:
  "relabel_and_prune (select_rows [True, False, True, True] example_reduced) \<noteq> None"
  by code_simp

text \<open>
  Claim C1, as stated, fails: the second stay of the sample has the white cell bounds
  \<open>(-1, 10)\<close>. The notebook reduces first, so the check \<open>-1 < 2\<close> selects the sentinel,
  which the later pass turns into a missing value; replacing the sentinel first makes the
  check false and the reduced value 10.
\<close>

theorem sentinel_first_counterexample:
  "cell example_cohort ''wbc_min'' 1 = Some (Some (- 1)) \<and>
   cell example_cohort ''wbc_max'' 1 = Some (Some 10) \<and>
   (reduce_abnormal example_cohort \<bind> relabel_and_prune \<bind> (\<lambda>q. cell q ''wbc'' 1)) = Some None \<and>
   (reduce_abnormal (replace_frame example_cohort) \<bind> (\<lambda>r. cell r ''wbc'' 1)) = Some (Some 10)"
proof -
  have "cell example_cohort ''wbc_min'' 1 = Some (Some (- 1))"
    "cell example_cohort ''wbc_max'' 1 = Some (Some 10)"
    by code_simp+
  then show ?thesis
    using example_relabel_wbc example_normalised_first by (simp add: example_reduce)
qed

text \<open>
  Claim C1, amended. The sentinel pass is one pass over the whole table that runs after the
  reducer: each collapsed column of the table after the pass is the reducer's column with
  every \<open>-1\<close> replaced by the missing marker. Reducing after the pass gives the same table as
  reducing before it whenever none of the ten bounds of the collapsed analytes holds a \<open>-1\<close>.
\<close>

theorem sentinel_pass_after_reduction:
  assumes "reduce_abnormal df = Some r" and "relabel_and_prune r = Some q"
  shows "(\<forall>c \<in> {''sodium'', ''potassium'', ''wbc'', ''pmn'', ''lym''}.
            getcol q c = map_option replace_series (getcol r c)) \<and>
         (no_sentinel_bounds df \<longrightarrow> reduce_abnormal (replace_frame df) = Some (replace_frame r))"
proof -
  have "getcol q c = map_option replace_series (getcol r c)"
    if "c \<in> {''sodium'', ''potassium'', ''wbc'', ''pmn'', ''lym''}" for c
    using map_of_drop [OF assms(2) [unfolded relabel_and_prune_def], of c] that
    by (auto simp: getcol_def map_of_replace)
  moreover have "reduce_abnormal (replace_frame df) = Some (replace_frame r)"
    if "no_sentinel_bounds df"
    using reduce_replace [OF that] assms(1) by simp
  ultimately show ?thesis by blast
qed

theorem sentinel_pass_after_reduction_witness:
  "\<exists>q. reduce_abnormal (select_rows [True, False, True, True] example_cohort)
          = Some (select_rows [True, False, True, True] example_reduced) \<and>
       relabel_and_prune (select_rows [True, False, True, True] example_reduced) = Some q \<and>
       getcol q ''wbc'' = Some (Numeric [Some 1.5, Some 14, Some 1]) \<and>
       no_sentinel_bounds (select_rows [True, False, True, True] example_cohort) \<and>
       cell (select_rows [True, False, True, True] example_cohort) ''glucose_min'' 1 = Some (Some (- 1)) \<and>
       reduce_abnormal (replace_frame (select_rows [True, False, True, True] example_cohort))
         = Some (replace_frame (select_rows [True, False, True, True] example_reduced))"
proof -
  from example_clean_relabel obtain q where
    q: "relabel_and_prune (select_rows [True, False, True, True] example_reduced) = Some q"
    by blast
  have n: "no_sentinel_bounds (select_rows [True, False, True, True] example_cohort)"
    "cell (select_rows [True, False, True, True] example_cohort) ''glucose_min'' 1 = Some (Some (- 1))"
    by code_simp+
  have w: "map_option replace_series (getcol (select_rows [True, False, True, True] example_reduced) ''wbc'')
      = Some (Numeric [Some 1.5, Some 14, Some 1])"
    by code_simp
  from sentinel_pass_after_reduction [OF example_clean_reduce q] n w
  have "getcol q ''wbc'' = Some (Numeric [Some 1.5, Some 14, Some 1])"
    "reduce_abnormal (replace_frame (select_rows [True, False, True, True] example_cohort))
         = Some (replace_frame (select_rows [True, False, True, True] example_reduced))"
    by simp_all
  with q n example_clean_reduce show ?thesis by blast
qed

section \<open>The inclusion and exclusion criteria\<close>

subsection \<open>Row selection\<close>

lemma bool_index_all: "list_all id msk \<Longrightarrow> length msk = length xs \<Longrightarrow> bool_index xs msk = xs"
proof (induction xs arbitrary: msk)
  case Nil
  then show ?case by (simp add: bool_index_def)
next
  case (Cons x xs)
  then obtain b bs where "msk = b # bs" by (cases msk) auto
  with Cons show ?case by (auto simp: bool_index_def)
qed

lemma bool_index_map: "bool_index (map f xs) msk = map f (bool_index xs msk)"
proof -
  have "zip (map f xs) msk = map (\<lambda>p. (f (fst p), snd p)) (zip xs msk)"
    by (simp add: zip_map1 case_prod_unfold)
  then show ?thesis by (simp add: bool_index_def filter_map comp_def)
qed

lemma bool_index_test: "list_all p (bool_index xs (map p xs))"
  by (induction xs) (auto simp: bool_index_def)

lemma list_all_bool_index: "list_all p xs \<Longrightarrow> list_all p (bool_index xs msk)"
  using set_bool_index [of xs msk] by (auto simp: list_all_iff)

lemma series_index_all:
  "list_all id msk \<Longrightarrow> length msk = slen s \<Longrightarrow> series_index msk s = s"
  by (cases s) (simp_all add: bool_index_all)

lemma select_rows_all:
  assumes "all_len n df" "list_all id msk" "length msk = n"
  shows "select_rows msk df = df"
proof -
  have "(fst p, series_index msk (snd p)) = p" if "p \<in> set df" for p
    using assms that by (simp add: all_len_def series_index_all)
  then show ?thesis unfolding select_rows_def by (simp add: map_idI)
qed

lemma length_bool_index: "length xs = length ys \<Longrightarrow> length (bool_index xs msk) = length (bool_index ys msk)"
proof (induction xs ys arbitrary: msk rule: list_induct2)
  case Nil
  then show ?case by (simp add: bool_index_def)
next
  case (Cons x xs y ys)
  show ?case
  proof (cases msk)
    case Nil
    then show ?thesis by (simp add: bool_index_def)
  next
    case (Cons b bs)
    with Cons.IH [of bs] show ?thesis by (simp add: bool_index_def)
  qed
qed

lemma slen_series_index: "slen (series_index msk s) = length (bool_index (replicate (slen s) ()) msk)"
  by (cases s) (auto intro: length_bool_index)

lemma rectangular_select_rows: "rectangular df \<Longrightarrow> rectangular (select_rows msk df)"
proof -
  assume w: "rectangular df"
  have "distinct (columns (select_rows msk df))"
    using w by (simp add: columns_select_rows rectangular_def)
  moreover have "all_len (length (bool_index (replicate (nrows df) ()) msk)) (select_rows msk df)"
    using rectangular_all_len [OF w] by (auto simp: all_len_def select_rows_def slen_series_index)
  ultimately show ?thesis by (rule rectangularI)
qed

lemma numcol_select_rows:
  "numcol (select_rows msk df) c = map_option (\<lambda>xs. bool_index xs msk) (numcol df c)"
  by (auto simp: numcol_def map_of_select_rows split: option.splits series.splits)

lemma assign_same: "map_of df c = Some s \<Longrightarrow> assign c s df = df"
  by (induction df) (auto split: if_splits)

subsection \<open>The criteria on a table that has passed them\<close>

lemma numeric_filter_fix:
  assumes w: "rectangular df" and c: "numcol df c = Some xs" and p: "list_all p xs"
  shows "select_rows (map p xs) df = df"
proof (rule select_rows_all [OF rectangular_all_len [OF w]])
  show "list_all id (map p xs)" using p by (simp add: list_all_iff)
  show "length (map p xs) = nrows df"
    using rectangular_col_len [OF w, of c "Numeric xs"] c by (simp add: numcol_Some)
qed

lemma isin_str_index: "isin_str (series_index msk s) L = bool_index (isin_str s L) msk"
  by (cases s) (simp_all add: bool_index_map)

lemma length_isin_str: "length (isin_str s L) = slen s"
  by (cases s) simp_all

lemma length_eq_str: "length (eq_str s l) = slen s"
  by (cases s) simp_all

lemma numeric_filter_result:
  assumes "numcol df c = Some xs"
  shows "case numcol (select_rows (map p xs) df) c of Some ys \<Rightarrow> list_all p ys | None \<Rightarrow> False"
  using assms by (simp add: numcol_select_rows bool_index_test)

lemma numeric_passed_select:
  assumes "case numcol df c of Some xs \<Rightarrow> list_all p xs | None \<Rightarrow> False"
  shows "case numcol (select_rows msk df) c of Some xs \<Rightarrow> list_all p xs | None \<Rightarrow> False"
  using assms by (auto simp: numcol_select_rows list_all_bool_index split: option.splits)

lemma surgical_passed_select:
  assumes "case getcol df c of Some s \<Rightarrow> list_all Not (isin_str s L) | None \<Rightarrow> False"
  shows "case getcol (select_rows msk df) c of Some s \<Rightarrow> list_all Not (isin_str s L) | None \<Rightarrow> False"
  using assms
  by (auto simp: getcol_def map_of_select_rows isin_str_index list_all_bool_index split: option.splits)

lemma surgical_filter_result:
  assumes "getcol df c = Some s"
  shows "case getcol (select_rows (map Not (isin_str s L)) df) c of
           Some t \<Rightarrow> list_all Not (isin_str t L) | None \<Rightarrow> False"
proof -
  have "list_all Not (bool_index bs (map Not bs))" for bs :: "bool list"
    by (induction bs) (auto simp: bool_index_def)
  then show ?thesis
    using assms by (simp add: getcol_def map_of_select_rows isin_str_index)
qed

lemma length_those: "those xs = Some ys \<Longrightarrow> length ys = length xs"
  by (induction xs arbitrary: ys) (auto split: option.splits)

lemma length_astype_float: "astype_float f s = Some xs \<Longrightarrow> length xs = slen s"
  by (cases s) (auto dest: length_those)

lemma slen_loc_set: "length msk = slen s \<Longrightarrow> slen (loc_set msk v s) = slen s"
  by (cases s) simp_all

lemma loc_set_none: "loc_set (eq_str (Numeric xs) l) v (Numeric xs) = Numeric xs"
proof -
  have "map (\<lambda>(b, x). if b then Some v else x) (zip (map (\<lambda>x. False) xs) xs) = xs"
    by (induction xs) simp_all
  then show ?thesis by simp
qed

lemma age_filter_result:
  assumes w: "rectangular df" and f: "age_filter float_of_str df = Some df'"
  shows "rectangular df' \<and>
         (case numcol df' ''age'' of Some xs \<Rightarrow> list_all (\<lambda>a. num_ge a (Some 18)) xs | None \<Rightarrow> False)"
proof -
  from f obtain age0 age3 where
    a0: "map_of df ''age'' = Some age0"
    and a3: "astype_float float_of_str
              (series_index (map Not (eq_str (loc_set (eq_str age0 ''> 89'') 93 age0) ''''))
                 (loc_set (eq_str age0 ''> 89'') 93 age0)) = Some age3"
    and d: "df' = select_rows (map (\<lambda>a. num_ge a (Some 18)) age3)
               (assign ''age'' (Numeric age3)
                  (select_rows (map Not (eq_str (loc_set (eq_str age0 ''> 89'') 93 age0) ''''))
                     (assign ''age'' (loc_set (eq_str age0 ''> 89'') 93 age0) df)))"
    by (auto simp: age_filter_def getcol_def numcol_def map_of_assign map_of_select_rows
          bind_eq_Some_conv Let_def)
  let ?s1 = "loc_set (eq_str age0 ''> 89'') 93 age0"
  let ?m1 = "map Not (eq_str ?s1 '''')"
  let ?c1 = "assign ''age'' ?s1 df"
  let ?c2 = "select_rows ?m1 ?c1"
  let ?c3 = "assign ''age'' (Numeric age3) ?c2"
  have l1: "slen ?s1 = nrows df"
    using rectangular_col_len [OF w a0] by (simp add: slen_loc_set length_eq_str)
  have w1: "rectangular ?c1" by (rule rectangular_assign [OF w l1])
  have w2: "rectangular ?c2" by (rule rectangular_select_rows [OF w1])
  have "map_of ?c2 ''age'' = Some (series_index ?m1 ?s1)"
    by (simp add: map_of_select_rows map_of_assign)
  from rectangular_col_len [OF w2 this] length_astype_float [OF a3]
  have l3: "slen (Numeric age3) = nrows ?c2" by simp
  have w3: "rectangular ?c3" by (rule rectangular_assign [OF w2 l3])
  have n3: "numcol ?c3 ''age'' = Some age3" by (simp add: numcol_Some map_of_assign)
  show ?thesis
    unfolding d using rectangular_select_rows [OF w3] numeric_filter_result [OF n3] by blast
qed

lemma age_filter_fix:
  assumes w: "rectangular df"
    and p: "case numcol df ''age'' of Some xs \<Rightarrow> list_all (\<lambda>a. num_ge a (Some 18)) xs | None \<Rightarrow> False"
  shows "age_filter float_of_str df = Some df"
proof -
  from p obtain xs where
    a: "map_of df ''age'' = Some (Numeric xs)" and q: "list_all (\<lambda>a. num_ge a (Some 18)) xs"
    by (auto simp: numcol_Some split: option.splits)
  have n: "numcol df ''age'' = Some xs" using a by (simp add: numcol_Some)
  have 1: "assign ''age'' (Numeric xs) df = df" by (rule assign_same [OF a])
  have "length xs = nrows df" using rectangular_col_len [OF w a] by simp
  then have 2: "select_rows (map (Not \<circ> (\<lambda>x. False)) xs) df = df"
    by (intro select_rows_all [OF rectangular_all_len [OF w]]) (simp_all add: list_all_iff)
  have 3: "select_rows (map (\<lambda>a. num_ge a (Some 18)) xs) df = df"
    by (rule numeric_filter_fix [OF w n q])
  show ?thesis
    unfolding age_filter_def getcol_def
    by (simp add: a loc_set_none [simplified] 1 2 3 n)
qed

lemma passedD:
  assumes "passed df"
  shows "case numcol df ''age'' of Some xs \<Rightarrow> list_all (\<lambda>a. num_ge a (Some 18)) xs | None \<Rightarrow> False"
    and "case numcol df ''unit_los'' of Some xs \<Rightarrow> list_all (\<lambda>l. num_ge l (Some 240)) xs | None \<Rightarrow> False"
    and "case getcol df ''admit_diagnosis'' of
         Some s \<Rightarrow> list_all Not (isin_str s [''S-UGIBLEED'', ''S-LGIBLEED'']) | None \<Rightarrow> False"
    and "case numcol df ''weight'' of
         Some xs \<Rightarrow> list_all (\<lambda>w. num_ge w (Some 50) \<and> num_le w (Some 300)) xs | None \<Rightarrow> False"
    and "case numcol df ''height'' of
         Some xs \<Rightarrow> list_all (\<lambda>h. num_le h (Some 250) \<and> num_ge h (Some 50)) xs | None \<Rightarrow> False"
  using assms unfolding passed_def by blast+

lemma numeric_filter_passed:
  assumes w: "rectangular df"
    and p: "case numcol df c of Some xs \<Rightarrow> list_all p xs | None \<Rightarrow> False"
  shows "numcol df c \<bind> (\<lambda>xs. Some (select_rows (map p xs) df)) = Some df"
proof -
  from p obtain xs where n: "numcol df c = Some xs" and q: "list_all p xs"
    by (auto split: option.splits)
  show ?thesis by (simp add: n numeric_filter_fix [OF w n q])
qed

lemma surgical_filter_fix:
  assumes w: "rectangular df"
    and p: "case getcol df ''admit_diagnosis'' of
         Some s \<Rightarrow> list_all Not (isin_str s [''S-UGIBLEED'', ''S-LGIBLEED'']) | None \<Rightarrow> False"
  shows "surgical_filter df = Some df"
proof -
  from p obtain s where g: "getcol df ''admit_diagnosis'' = Some s"
    and q: "list_all Not (isin_str s [''S-UGIBLEED'', ''S-LGIBLEED''])"
    by (auto split: option.splits)
  have "slen s = nrows df" using rectangular_col_len [OF w] g by (simp add: getcol_def)
  then have "select_rows (map Not (isin_str s [''S-UGIBLEED'', ''S-LGIBLEED''])) df = df"
    using q by (intro select_rows_all [OF rectangular_all_len [OF w]]) (simp_all add: list_all_iff length_isin_str)
  then show ?thesis by (simp add: surgical_filter_def g)
qed

lemma filter_stage_fix:
  assumes w: "rectangular df" and p: "passed df"
  shows "filter_stage float_of_str df = Some df"
proof -
  have "age_filter float_of_str df = Some df"
    by (rule age_filter_fix [OF w passedD(1) [OF p]])
  moreover have "los_filter df = Some df"
    unfolding los_filter_def by (rule numeric_filter_passed [OF w passedD(2) [OF p]])
  moreover have "surgical_filter df = Some df"
    by (rule surgical_filter_fix [OF w passedD(3) [OF p]])
  moreover have "weight_filter df = Some df"
    unfolding weight_filter_def by (rule numeric_filter_passed [OF w passedD(4) [OF p]])
  moreover have "height_filter df = Some df"
    unfolding height_filter_def by (rule numeric_filter_passed [OF w passedD(5) [OF p]])
  ultimately show ?thesis by (simp add: filter_stage_def)
qed

lemma filter_stage_result:
  assumes w: "rectangular df" and f: "filter_stage float_of_str df = Some df'"
  shows "rectangular df' \<and> passed df'"
proof -
  from f obtain c1 c2 c3 c4 where
    f1: "age_filter float_of_str df = Some c1" and f2: "los_filter c1 = Some c2"
    and f3: "surgical_filter c2 = Some c3" and f4: "weight_filter c3 = Some c4"
    and f5: "height_filter c4 = Some df'"
    unfolding filter_stage_def bind_eq_Some_conv by blast
  from age_filter_result [OF w f1] have w1: "rectangular c1"
    and a1: "case numcol c1 ''age'' of Some xs \<Rightarrow> list_all (\<lambda>a. num_ge a (Some 18)) xs | None \<Rightarrow> False"
    by blast+
  from f2 obtain los where l: "numcol c1 ''unit_los'' = Some los"
    and e2: "c2 = select_rows (map (\<lambda>l. num_ge l (Some 240)) los) c1"
    by (auto simp: los_filter_def bind_eq_Some_conv)
  from f3 obtain adx where a: "getcol c2 ''admit_diagnosis'' = Some adx"
    and e3: "c3 = select_rows (map Not (isin_str adx [''S-UGIBLEED'', ''S-LGIBLEED''])) c2"
    by (auto simp: surgical_filter_def bind_eq_Some_conv)
  from f4 obtain wt where wt: "numcol c3 ''weight'' = Some wt"
    and e4: "c4 = select_rows (map (\<lambda>w. num_ge w (Some 50) \<and> num_le w (Some 300)) wt) c3"
    by (auto simp: weight_filter_def bind_eq_Some_conv)
  from f5 obtain ht where ht: "numcol c4 ''height'' = Some ht"
    and e5: "df' = select_rows (map (\<lambda>h. num_le h (Some 250) \<and> num_ge h (Some 50)) ht) c4"
    by (auto simp: height_filter_def bind_eq_Some_conv)
  have "rectangular df'"
    unfolding e5 e4 e3 e2 using w1 by (simp add: rectangular_select_rows)
  moreover have "case numcol df' ''age'' of Some xs \<Rightarrow> list_all (\<lambda>a. num_ge a (Some 18)) xs | None \<Rightarrow> False"
    unfolding e5 e4 e3 e2 by (intro numeric_passed_select) (rule a1)
  moreover have "case numcol df' ''unit_los'' of Some xs \<Rightarrow> list_all (\<lambda>l. num_ge l (Some 240)) xs | None \<Rightarrow> False"
  proof -
    have "case numcol c2 ''unit_los'' of Some xs \<Rightarrow> list_all (\<lambda>l. num_ge l (Some 240)) xs | None \<Rightarrow> False"
      unfolding e2 by (rule numeric_filter_result [OF l])
    then show ?thesis unfolding e5 e4 e3 by (intro numeric_passed_select)
  qed
  moreover have "case getcol df' ''admit_diagnosis'' of
         Some s \<Rightarrow> list_all Not (isin_str s [''S-UGIBLEED'', ''S-LGIBLEED'']) | None \<Rightarrow> False"
  proof -
    have "case getcol c3 ''admit_diagnosis'' of
         Some s \<Rightarrow> list_all Not (isin_str s [''S-UGIBLEED'', ''S-LGIBLEED'']) | None \<Rightarrow> False"
      unfolding e3 by (rule surgical_filter_result [OF a])
    then show ?thesis unfolding e5 e4 by (intro surgical_passed_select)
  qed
  moreover have "case numcol df' ''weight'' of
         Some xs \<Rightarrow> list_all (\<lambda>w. num_ge w (Some 50) \<and> num_le w (Some 300)) xs | None \<Rightarrow> False"
  proof -
    have "case numcol c4 ''weight'' of
         Some xs \<Rightarrow> list_all (\<lambda>w. num_ge w (Some 50) \<and> num_le w (Some 300)) xs | None \<Rightarrow> False"
      unfolding e4 by (rule numeric_filter_result [OF wt])
    then show ?thesis unfolding e5 by (rule numeric_passed_select)
  qed
  moreover have "case numcol df' ''height'' of
         Some xs \<Rightarrow> list_all (\<lambda>h. num_le h (Some 250) \<and> num_ge h (Some 50)) xs | None \<Rightarrow> False"
    unfolding e5 by (rule numeric_filter_result [OF ht])
  ultimately show ?thesis unfolding passed_def by blast
qed

text \<open>
  Claim C9. A table that has passed all inclusion and exclusion criteria is returned
  unchanged when the criteria are applied again; and the table that the filter stage
  returns has passed them, so filtering it a second time removes no row and changes no
  value.
\<close>

theorem filter_stage_idempotent:
  "(rectangular t \<and> passed t \<longrightarrow> filter_stage float_of_str t = Some t) \<and>
   (rectangular df \<and> filter_stage float_of_str df = Some df' \<longrightarrow>
      passed df' \<and> filter_stage float_of_str df' = Some df')"
  using filter_stage_fix filter_stage_result by blast

theorem filter_stage_idempotent_witness:
  "rectangular example_admissions \<and>
   filter_stage float_of_digits example_admissions = Some example_admitted \<and>
   rectangular example_admitted \<and> passed example_admitted \<and>
   filter_stage float_of_digits example_admitted = Some example_admitted"
proof -
  have r: "rectangular example_admissions" "rectangular example_admitted"
    by code_simp+
  from filter_stage_idempotent
         [of example_admitted float_of_digits example_admissions example_admitted]
       r example_filter
  show ?thesis by simp
qed

section \<open>Curation\<close>

subsection \<open>One-hot encoding\<close>

lemma set_strs: "s \<in> set (strs xs) \<longleftrightarrow> Str s \<in> set xs"
  by (induction xs rule: strs.induct) auto

lemma levels_props: "distinct (levels xs)" "sorted (levels xs)" "set (levels xs) = set (strs xs)"
  by (simp_all add: levels_def)

lemma length_levels: "length (levels xs) = card (set (strs xs))"
  using distinct_card [OF levels_props(1), of xs] by (simp add: levels_props(3))

lemma get_dummies_Some:
  "get_dummies xs prefix = Some d \<longleftrightarrow>
     (\<not> list_ex is_flt xs \<and>
      d = map (\<lambda>l. (prefix @ ''_'' @ l, Numeric (map (\<lambda>x. if x = Str l then Some 1 else Some 0) xs)))
            (tl (levels xs)))"
  by (auto simp: get_dummies_def)

lemma indicator_sum_dummies:
  assumes "distinct ls" "i < length xs"
  shows "indicator_sum
           (map (\<lambda>l. (f l, Numeric (map (\<lambda>x. if x = Str l then Some 1 else Some 0) xs))) ls) i
         = Some (if xs ! i \<in> Str ` set ls then 1 else 0)"
  using assms by (induction ls) (auto simp: indicator_sum_def num_add_def float64_round_small)

lemma order_facts:
  "\<not> ''UGIBLEED'' \<le> ''LOWGIBLEED''" "\<not> ''UNKGIBLEED'' \<le> ''LOWGIBLEED''"
  by code_simp+

lemma tl_levels_medical:
  assumes "set (strs xs) \<subseteq> {''LOWGIBLEED'', ''UGIBLEED'', ''UNKGIBLEED''}"
  shows "set (tl (levels xs)) \<subseteq> {''UGIBLEED'', ''UNKGIBLEED''}"
proof (cases "levels xs")
  case Nil
  then show ?thesis by simp
next
  case (Cons h t)
  from levels_props [of xs] Cons have d: "h \<notin> set t" and s: "\<forall>x \<in> set t. h \<le> x"
    and m: "insert h (set t) = set (strs xs)"
    by auto
  have "''LOWGIBLEED'' \<notin> set t"
  proof
    assume l: "''LOWGIBLEED'' \<in> set t"
    with s d have "h \<le> ''LOWGIBLEED''" "h \<noteq> ''LOWGIBLEED''" by auto
    moreover have "h \<in> {''LOWGIBLEED'', ''UGIBLEED'', ''UNKGIBLEED''}" using m assms by auto
    ultimately show False using order_facts by auto
  qed
  moreover have "set t \<subseteq> {''LOWGIBLEED'', ''UGIBLEED'', ''UNKGIBLEED''}" using m assms by auto
  ultimately show ?thesis using Cons by auto
qed

lemma encode_SomeD:
  assumes "encode_admit_diagnosis c = Some c'"
  shows "\<exists>adx d. objcol c ''admit_diagnosis'' = Some adx \<and> get_dummies adx ''adx'' = Some d \<and>
           c' = filter (\<lambda>p. fst p \<noteq> ''admit_diagnosis'') c @ d \<and>
           columns d = map (\<lambda>l. ''adx_'' @ l) (tl (levels adx))"
proof -
  from assms obtain adx d where a: "objcol c ''admit_diagnosis'' = Some adx"
    and g: "get_dummies adx ''adx'' = Some d"
    and e: "drop_cols [''admit_diagnosis''] (c @ d) = Some c'"
    by (auto simp: encode_admit_diagnosis_def bind_eq_Some_conv)
  from g have n: "columns d = map (\<lambda>l. ''adx_'' @ l) (tl (levels adx))"
    by (simp add: get_dummies_Some columns_def comp_def)
  have "\<forall>c \<in> set (columns d). c \<noteq> ''admit_diagnosis''"
    unfolding n by simp
  then have "\<forall>p \<in> set d. fst p \<noteq> ''admit_diagnosis''"
    by (simp add: columns_def)
  then have "filter (\<lambda>p. fst p \<noteq> ''admit_diagnosis'') d = d" by (simp add: filter_id_conv)
  with e have "c' = filter (\<lambda>p. fst p \<noteq> ''admit_diagnosis'') c @ d"
    by (simp add: drop_cols_Some)
  with a g n show ?thesis by blast
qed

subsection \<open>Object columns\<close>

lemma object_columns_iff:
  "c \<in> set (object_columns df) \<longleftrightarrow> (\<exists>xs. (c, Object xs) \<in> set df)"
proof -
  have "is_object s \<longleftrightarrow> (\<exists>xs. s = Object xs)" for s by (cases s) simp_all
  then show ?thesis by (force simp: object_columns_def)
qed

lemma object_columns_map_of:
  "distinct (columns df) \<Longrightarrow>
   c \<in> set (object_columns df) \<longleftrightarrow> (\<exists>xs. map_of df c = Some (Object xs))"
  by (auto simp: object_columns_iff columns_def dest: map_of_SomeD)

lemma object_columns_select_rows: "object_columns (select_rows msk df) = object_columns df"
proof -
  have "is_object (series_index msk s) = is_object s" for s by (cases s) simp_all
  then show ?thesis by (induction df) (simp_all add: object_columns_def select_rows_def)
qed

lemma object_columns_replace: "object_columns (replace_frame df) = object_columns df"
proof -
  have "is_object (replace_series s) = is_object s" for s by (cases s) simp_all
  then show ?thesis by (induction df) (simp_all add: object_columns_def replace_frame_def)
qed

lemma object_columns_filter:
  "set (object_columns (filter (\<lambda>p. fst p \<notin> N) df)) = set (object_columns df) - N"
  by (auto simp: object_columns_iff)

lemma object_columns_drop:
  "drop_cols ns df = Some df' \<Longrightarrow> set (object_columns df') = set (object_columns df) - set ns"
  by (simp add: drop_cols_Some object_columns_filter)

lemma set_assign: "set (assign c s df) \<subseteq> insert (c, s) (set df)"
  by (induction df) auto

lemma object_columns_assign:
  "set (object_columns (assign c s df)) \<subseteq> insert c (set (object_columns df))"
  by (auto simp: object_columns_iff dest!: subsetD [OF set_assign])

lemma object_columns_assign_numeric:
  "set (object_columns (assign c (Numeric v) df)) \<subseteq> set (object_columns df)"
  by (auto simp: object_columns_iff dest!: subsetD [OF set_assign])

lemma object_columns_assign_distinct:
  assumes "distinct (columns df)"
  shows "set (object_columns (assign c (Numeric v) df)) \<subseteq> set (object_columns df) - {c}"
proof -
  have "c \<notin> set (object_columns (assign c (Numeric v) df))"
    using object_columns_map_of [OF distinct_columns_assign [OF assms], of c c "Numeric v"]
    by (simp add: map_of_assign)
  with object_columns_assign_numeric [of c v df] show ?thesis by blast
qed

lemma object_columns_append:
  "object_columns (df @ d) = object_columns df @ object_columns d"
  by (simp add: object_columns_def)

lemma object_columns_dummies: "get_dummies xs prefix = Some d \<Longrightarrow> object_columns d = []"
  by (auto simp: get_dummies_Some object_columns_def filter_empty_conv)

subsection \<open>Columns, stage by stage\<close>

lemma set_columns_drop:
  "drop_cols ns df = Some df' \<Longrightarrow> set (columns df') = set (columns df) - set ns"
  by (auto simp: columns_drop)

lemma collapse_objects:
  assumes "collapse x xmin xmax check df = Some df'"
  shows "set (object_columns df') \<subseteq> set (object_columns df)"
    and "set (columns df) - {xmin, xmax} \<subseteq> set (columns df')"
proof -
  from assms obtain v where d: "drop_cols [xmin, xmax] (assign x (Numeric v) df) = Some df'"
    by (auto simp: collapse_def bind_eq_Some_conv)
  show "set (object_columns df') \<subseteq> set (object_columns df)"
    using object_columns_drop [OF d] object_columns_assign_numeric [of x v df] by auto
  show "set (columns df) - {xmin, xmax} \<subseteq> set (columns df')"
    using set_columns_drop [OF d] by (auto simp: set_columns_assign)
qed

lemma reduce_abnormal_objects:
  assumes "reduce_abnormal df = Some r"
  shows "set (object_columns r) \<subseteq> set (object_columns df)"
    and "set (columns df) - set lab_drop - set reduced_bounds \<subseteq> set (columns r)"
proof -
  from assms obtain c1 c2 c3 c4 c5 k1 k2 k3 k4 k5 where
    d1: "drop_cols lab_drop df = Some c1"
    and d2: "collapse ''sodium'' ''sodium_min'' ''sodium_max'' k1 c1 = Some c2"
    and d3: "collapse ''potassium'' ''potassium_min'' ''potassium_max'' k2 c2 = Some c3"
    and d4: "collapse ''wbc'' ''wbc_min'' ''wbc_max'' k3 c3 = Some c4"
    and d5: "collapse ''pmn'' ''pmn_min'' ''pmn_max'' k4 c4 = Some c5"
    and d6: "collapse ''lym'' ''lymphs_min'' ''lymphs_max'' k5 c5 = Some r"
    unfolding reduce_abnormal_def bind_eq_Some_conv by blast
  show "set (object_columns r) \<subseteq> set (object_columns df)"
    using object_columns_drop [OF d1] collapse_objects(1) [OF d2] collapse_objects(1) [OF d3]
      collapse_objects(1) [OF d4] collapse_objects(1) [OF d5] collapse_objects(1) [OF d6]
    by blast
  show "set (columns df) - set lab_drop - set reduced_bounds \<subseteq> set (columns r)"
  proof
    fix c assume c: "c \<in> set (columns df) - set lab_drop - set reduced_bounds"
    then have n: "c \<notin> {''sodium_min'', ''sodium_max''}" "c \<notin> {''potassium_min'', ''potassium_max''}"
      "c \<notin> {''wbc_min'', ''wbc_max''}" "c \<notin> {''pmn_min'', ''pmn_max''}"
      "c \<notin> {''lymphs_min'', ''lymphs_max''}"
      by (simp_all add: reduced_bounds_def)
    from c have "c \<in> set (columns c1)" using set_columns_drop [OF d1] by simp
    with n(1) have "c \<in> set (columns c2)" using collapse_objects(2) [OF d2] by blast
    with n(2) have "c \<in> set (columns c3)" using collapse_objects(2) [OF d3] by blast
    with n(3) have "c \<in> set (columns c4)" using collapse_objects(2) [OF d4] by blast
    with n(4) have "c \<in> set (columns c5)" using collapse_objects(2) [OF d5] by blast
    with n(5) show "c \<in> set (columns r)" using collapse_objects(2) [OF d6] by blast
  qed
qed

subsection \<open>The filter stage, column by column\<close>

lemma age_filter_SomeD:
  assumes "age_filter float_of_str df = Some df'"
  shows "\<exists>age0 s1 m1 age3 m2. map_of df ''age'' = Some age0 \<and>
           df' = select_rows m2 (assign ''age'' (Numeric age3) (select_rows m1 (assign ''age'' s1 df)))"
  using assms
  by (auto simp: age_filter_def getcol_def bind_eq_Some_conv Let_def)

lemma objcol_select_rows:
  "objcol (select_rows msk df) c = map_option (\<lambda>xs. bool_index xs msk) (objcol df c)"
  by (auto simp: objcol_def map_of_select_rows split: option.splits series.splits)

lemma objcol_assign_other: "c \<noteq> x \<Longrightarrow> objcol (assign x s df) c = objcol df c"
  by (simp add: objcol_def map_of_assign)

lemma age_filter_columns:
  assumes f: "age_filter float_of_str df = Some df'" and d: "distinct (columns df)"
  shows "set (columns df') = set (columns df)"
    and "set (object_columns df') \<subseteq> set (object_columns df) - {''age''}"
    and "c \<noteq> ''age'' \<Longrightarrow> objcol df' c = Some a' \<Longrightarrow> \<exists>a. objcol df c = Some a \<and> set a' \<subseteq> set a"
proof -
  from age_filter_SomeD [OF f] obtain age0 s1 m1 age3 m2 where
    a: "map_of df ''age'' = Some age0"
    and e: "df' = select_rows m2 (assign ''age'' (Numeric age3) (select_rows m1 (assign ''age'' s1 df)))"
    by blast
  from a have i: "''age'' \<in> set (columns df)" by (simp add: in_columns_iff)
  then show "set (columns df') = set (columns df)"
    unfolding e by (auto simp: columns_select_rows set_columns_assign)
  have "distinct (columns (select_rows m1 (assign ''age'' s1 df)))"
    by (simp add: columns_select_rows distinct_columns_assign d)
  from object_columns_assign_distinct [OF this, of "''age''" age3]
  show "set (object_columns df') \<subseteq> set (object_columns df) - {''age''}"
    unfolding e using object_columns_assign [of "''age''" s1 df]
    by (auto simp: object_columns_select_rows)
  assume c: "c \<noteq> ''age''" and o: "objcol df' c = Some a'"
  from o obtain b where "objcol df c = Some b" "a' = bool_index (bool_index b m1) m2"
    unfolding e by (auto simp: objcol_select_rows objcol_assign_other c)
  then show "\<exists>a. objcol df c = Some a \<and> set a' \<subseteq> set a"
    using set_bool_index [of "bool_index b m1" m2] set_bool_index [of b m1] by auto
qed

lemma row_filter_SomeD:
  assumes "los_filter df = Some df' \<or> surgical_filter df = Some df' \<or>
           weight_filter df = Some df' \<or> height_filter df = Some df'"
  shows "\<exists>msk. df' = select_rows msk df"
  using assms
  by (auto simp: los_filter_def surgical_filter_def weight_filter_def height_filter_def
        bind_eq_Some_conv)

lemma filter_stage_columns:
  assumes w: "rectangular df" and f: "filter_stage float_of_str df = Some df'"
  shows "set (columns df') = set (columns df)"
    and "set (object_columns df') \<subseteq> set (object_columns df) - {''age''}"
    and "c \<noteq> ''age'' \<Longrightarrow> objcol df' c = Some a' \<Longrightarrow> \<exists>a. objcol df c = Some a \<and> set a' \<subseteq> set a"
proof -
  from f obtain c1 c2 c3 c4 where
    f1: "age_filter float_of_str df = Some c1" and f2: "los_filter c1 = Some c2"
    and f3: "surgical_filter c2 = Some c3" and f4: "weight_filter c3 = Some c4"
    and f5: "height_filter c4 = Some df'"
    unfolding filter_stage_def bind_eq_Some_conv by blast
  from w have d: "distinct (columns df)" by (simp add: rectangular_def)
  from row_filter_SomeD f2 f3 f4 f5 obtain m2 m3 m4 m5 where
    e: "c2 = select_rows m2 c1" "c3 = select_rows m3 c2" "c4 = select_rows m4 c3"
       "df' = select_rows m5 c4"
    by metis
  show "set (columns df') = set (columns df)"
    unfolding e using age_filter_columns(1) [OF f1 d] by (simp add: columns_select_rows)
  show "set (object_columns df') \<subseteq> set (object_columns df) - {''age''}"
    unfolding e using age_filter_columns(2) [OF f1 d] by (simp add: object_columns_select_rows)
  assume c: "c \<noteq> ''age''" and o: "objcol df' c = Some a'"
  from o obtain b where b: "objcol c1 c = Some b"
    "a' = bool_index (bool_index (bool_index (bool_index b m2) m3) m4) m5"
    unfolding e by (auto simp: objcol_select_rows)
  have "set a' \<subseteq> set b"
    unfolding b(2)
    using set_bool_index [of "bool_index (bool_index (bool_index b m2) m3) m4" m5]
      set_bool_index [of "bool_index (bool_index b m2) m3" m4]
      set_bool_index [of "bool_index b m2" m3] set_bool_index [of b m2]
    by blast
  with age_filter_columns(3) [OF f1 d c b(1)]
  show "\<exists>a. objcol df c = Some a \<and> set a' \<subseteq> set a" by blast
qed

subsection \<open>Curation, column by column\<close>

lemma map_of_filter_names:
  "map_of (filter (\<lambda>p. fst p \<notin> N) df) c = (if c \<in> N then None else map_of df c)"
  by (induction df) auto

lemma map_of_filter_ne:
  "map_of (filter (\<lambda>p. fst p \<noteq> n) df) c = (if c = n then None else map_of df c)"
  by (induction df) auto

lemma object_columns_filter_ne:
  "set (object_columns (filter (\<lambda>p. fst p \<noteq> n) df)) = set (object_columns df) - {n}"
  by (auto simp: object_columns_iff)

lemma curate_SomeD:
  assumes "curate r = Some (X, y, a)"
  shows "\<exists>c1 c2 c3 c4 c5. relabel_and_prune r = Some c1 \<and> drop_score_and_los c1 = Some c2 \<and>
           drop_features c2 = Some c3 \<and> encode_admit_diagnosis c3 = Some c4 \<and>
           combine_gcs c4 = Some c5 \<and> separate_label c5 = Some (X, y, a)"
  using assms unfolding curate_def bind_eq_Some_conv by blast

lemma drop_features_SomeD:
  assumes "drop_features c = Some c'"
  shows "c' = filter (\<lambda>p. fst p \<notin> set [''height'', ''weight'', ''gender'', ''ethnicity'',
                  ''unit_type'',
                  ''diabetes'', ''copd'', ''cad'', ''ckd'', ''afib'', ''cirrhosis'', ''hepatic_failure'',
                  ''sedative'', ''diuretic'', ''antiinf'',
                  ''apache_midur'',
                  ''sodium'', ''glucose_min'',
                  ''gcs_meds'',
                  ''sbp_aperiodic_mean'', ''dbp_aperiodic_mean'',
                  ''apache_ventday1'',
                  ''alt_max'',
                  ''hematocrit_min'',
                  ''lym'',
                  ''tropi_max'',
                  ''fibrinogen_min'',
                  ''ioncalcium_min'',
                  ''cpk_max'',
                  ''amylase_max'', ''lipase_max'']) c"
proof -
  from assms obtain k1 k2 k3 where
    "drop_cols [''height'', ''weight'', ''gender'', ''ethnicity'',
                  ''unit_type'',
                  ''diabetes'', ''copd'', ''cad'', ''ckd'', ''afib'', ''cirrhosis'', ''hepatic_failure'',
                  ''sedative'', ''diuretic'', ''antiinf'',
                  ''apache_midur'',
                  ''sodium'', ''glucose_min''] c = Some k1"
    "drop_cols [''gcs_meds''] k1 = Some k2"
    "drop_cols [''sbp_aperiodic_mean'', ''dbp_aperiodic_mean'',
                  ''apache_ventday1'',
                  ''alt_max'',
                  ''hematocrit_min'',
                  ''lym''] k2 = Some k3"
    "drop_cols [''tropi_max'',
                ''fibrinogen_min'',
                ''ioncalcium_min'',
                ''cpk_max'',
                ''amylase_max'', ''lipase_max''] k3 = Some c'"
    unfolding drop_features_def bind_eq_Some_conv by blast
  then show ?thesis
    unfolding drop_cols_Some by (auto intro!: filter_cong)
qed

lemma combine_gcs_SomeD:
  assumes "combine_gcs c = Some c'"
  shows "\<exists>G. c' = filter (\<lambda>p. fst p \<notin> set [''gcs_eyes'', ''gcs_motor'', ''gcs_verbal''])
                    (assign ''gcs'' (Numeric G) c)"
  using assms by (auto simp: combine_gcs_def bind_eq_Some_conv drop_cols_Some Let_def)

lemma separate_label_SomeD:
  assumes "separate_label c = Some (X, y, a)"
  shows "X = filter (\<lambda>p. fst p \<notin> set [''hospital_expiration'', ''apache_prediction'']) c"
  using assms by (auto simp: separate_label_def bind_eq_Some_conv drop_cols_Some Let_def)

lemma relabel_SomeD:
  assumes "relabel_and_prune r = Some c"
  shows "c = filter (\<lambda>p. fst p \<notin> set [''sbp_periodic_mean'', ''dbp_periodic_mean'', ''map_periodic_mean'',
                ''tempc_mean'', ''apache_pao2'', ''apache_fio2'', ''apache_o2ratio'', ''hospital_los'',
                ''unitadmitsource'']) (replace_frame r)"
  using assms by (auto simp: relabel_and_prune_def drop_cols_Some)

lemma drop_score_SomeD:
  assumes "drop_score_and_los c = Some c'"
  shows "c' = filter (\<lambda>p. fst p \<notin> set [''apache_score'', ''unit_los'']) c"
  using assms by (auto simp: drop_score_and_los_def drop_cols_Some)

lemma map_of_dummies:
  assumes "get_dummies adx ''adx'' = Some d" and "take 4 c \<noteq> ''adx_''"
  shows "map_of d c = None"
proof -
  from assms(1) have "columns d = map (\<lambda>l. ''adx_'' @ l) (tl (levels adx))"
    by (simp add: get_dummies_Some columns_def comp_def)
  with assms(2) have "c \<notin> set (columns d)" by auto
  then show ?thesis by (simp add: in_columns_iff)
qed

lemma encode_map_of:
  assumes "encode_admit_diagnosis c = Some c'" and "take 4 x \<noteq> ''adx_''"
  shows "map_of c' x = (if x = ''admit_diagnosis'' then None else map_of c x)"
proof -
  from encode_SomeD [OF assms(1)] obtain adx d where
    g: "get_dummies adx ''adx'' = Some d"
    and e: "c' = filter (\<lambda>p. fst p \<noteq> ''admit_diagnosis'') c @ d"
    by blast
  have n: "map_of d x = None" by (rule map_of_dummies [OF g assms(2)])
  show ?thesis
    unfolding e using n by (auto simp: map_add_def map_of_filter_ne split: option.splits)
qed

lemma encode_objects:
  assumes "encode_admit_diagnosis c = Some c'"
  shows "set (object_columns c') = set (object_columns c) - {''admit_diagnosis''}"
proof -
  from encode_SomeD [OF assms(1)] obtain adx d where
    g: "get_dummies adx ''adx'' = Some d"
    and e: "c' = filter (\<lambda>p. fst p \<noteq> ''admit_diagnosis'') c @ d"
    by blast
  show ?thesis
    unfolding e object_columns_append
    by (simp add: object_columns_dummies [OF g] object_columns_filter_ne)
qed

lemma curate_objects:
  assumes "curate r = Some (X, y, a)"
  shows "set (object_columns X) \<subseteq> set (object_columns r)
           - {''unitadmitsource'', ''gender'', ''ethnicity'', ''unit_type'', ''admit_diagnosis'',
              ''hospital_expiration''}"
proof -
  from curate_SomeD [OF assms] obtain c1 c2 c3 c4 c5 where
    s: "relabel_and_prune r = Some c1" "drop_score_and_los c1 = Some c2"
       "drop_features c2 = Some c3" "encode_admit_diagnosis c3 = Some c4"
       "combine_gcs c4 = Some c5" "separate_label c5 = Some (X, y, a)"
    by blast
  from combine_gcs_SomeD [OF s(5)] obtain G where
    g: "c5 = filter (\<lambda>p. fst p \<notin> set [''gcs_eyes'', ''gcs_motor'', ''gcs_verbal''])
                    (assign ''gcs'' (Numeric G) c4)"
    by blast
  have 1: "c \<in> set (object_columns r) \<and> c \<noteq> ''unitadmitsource''"
    if "c \<in> set (object_columns c1)" for c
    using that unfolding relabel_SomeD [OF s(1)] object_columns_filter object_columns_replace by simp
  have 2: "c \<in> set (object_columns c1)" if "c \<in> set (object_columns c2)" for c
    using that unfolding drop_score_SomeD [OF s(2)] object_columns_filter by simp
  have 3: "c \<in> set (object_columns c2) \<and> c \<noteq> ''gender'' \<and> c \<noteq> ''ethnicity'' \<and> c \<noteq> ''unit_type''"
    if "c \<in> set (object_columns c3)" for c
    using that unfolding drop_features_SomeD [OF s(3)] object_columns_filter by simp
  have 4: "c \<in> set (object_columns c3) \<and> c \<noteq> ''admit_diagnosis''"
    if "c \<in> set (object_columns c4)" for c
    using that encode_objects [OF s(4)] by simp
  have 5: "c \<in> set (object_columns c4)" if "c \<in> set (object_columns c5)" for c
    using that object_columns_assign_numeric [of "''gcs''" G c4]
    unfolding g object_columns_filter by blast
  have 6: "c \<in> set (object_columns c5) \<and> c \<noteq> ''hospital_expiration''"
    if "c \<in> set (object_columns X)" for c
    using that unfolding separate_label_SomeD [OF s(6)] object_columns_filter by simp
  show ?thesis
  proof
    fix c assume "c \<in> set (object_columns X)"
    from 6 [OF this] have c5: "c \<in> set (object_columns c5)" and n6: "c \<noteq> ''hospital_expiration''"
      by simp_all
    from 4 [OF 5 [OF c5]] have c3: "c \<in> set (object_columns c3)" and n4: "c \<noteq> ''admit_diagnosis''"
      by simp_all
    from 3 [OF c3] have c2: "c \<in> set (object_columns c2)"
      and n3: "c \<noteq> ''gender''" "c \<noteq> ''ethnicity''" "c \<noteq> ''unit_type''"
      by simp_all
    from 1 [OF 2 [OF c2]] have "c \<in> set (object_columns r)" and n1: "c \<noteq> ''unitadmitsource''"
      by simp_all
    with n1 n3 n4 n6
    show "c \<in> set (object_columns r)
           - {''unitadmitsource'', ''gender'', ''ethnicity'', ''unit_type'', ''admit_diagnosis'',
              ''hospital_expiration''}"
      by simp
  qed
qed

lemma curate_kept:
  assumes "curate r = Some (X, y, a)" and "c = ''patientunitstayid'' \<or> c = ''glucose_max''"
  shows "map_of X c = map_option replace_series (map_of r c)"
proof -
  from curate_SomeD [OF assms(1)] obtain c1 c2 c3 c4 c5 where
    s: "relabel_and_prune r = Some c1" "drop_score_and_los c1 = Some c2"
       "drop_features c2 = Some c3" "encode_admit_diagnosis c3 = Some c4"
       "combine_gcs c4 = Some c5" "separate_label c5 = Some (X, y, a)"
    by blast
  from combine_gcs_SomeD [OF s(5)] obtain G where
    g: "c5 = filter (\<lambda>p. fst p \<notin> set [''gcs_eyes'', ''gcs_motor'', ''gcs_verbal''])
                    (assign ''gcs'' (Numeric G) c4)"
    by blast
  have 1: "map_of c1 c = map_option replace_series (map_of r c)"
    unfolding relabel_SomeD [OF s(1)] map_of_filter_names map_of_replace using assms(2) by auto
  have 2: "map_of c2 c = map_of c1 c"
    unfolding drop_score_SomeD [OF s(2)] map_of_filter_names using assms(2) by auto
  have "c \<notin> set [''height'', ''weight'', ''gender'', ''ethnicity'',
                  ''unit_type'',
                  ''diabetes'', ''copd'', ''cad'', ''ckd'', ''afib'', ''cirrhosis'', ''hepatic_failure'',
                  ''sedative'', ''diuretic'', ''antiinf'',
                  ''apache_midur'',
                  ''sodium'', ''glucose_min'',
                  ''gcs_meds'',
                  ''sbp_aperiodic_mean'', ''dbp_aperiodic_mean'',
                  ''apache_ventday1'',
                  ''alt_max'',
                  ''hematocrit_min'',
                  ''lym'',
                  ''tropi_max'',
                  ''fibrinogen_min'',
                  ''ioncalcium_min'',
                  ''cpk_max'',
                  ''amylase_max'', ''lipase_max'']"
    using assms(2) by auto
  then have 3: "map_of c3 c = map_of c2 c"
    unfolding drop_features_SomeD [OF s(3)] map_of_filter_names by simp
  have 4: "map_of c4 c = map_of c3 c"
    using encode_map_of [OF s(4), of c] assms(2) by auto
  have 5: "map_of c5 c = map_of c4 c"
    unfolding g map_of_filter_names map_of_assign using assms(2) by auto
  have 6: "map_of X c = map_of c5 c"
    unfolding separate_label_SomeD [OF s(6)] map_of_filter_names using assms(2) by auto
  from 1 2 3 4 5 6 show ?thesis by simp
qed

lemma curate_glucose_min:
  assumes "curate r = Some (X, y, a)"
  shows "''glucose_min'' \<notin> set (columns X)"
proof -
  from curate_SomeD [OF assms(1)] obtain c2 c3 c4 c5 where
    s: "drop_features c2 = Some c3" "encode_admit_diagnosis c3 = Some c4"
       "combine_gcs c4 = Some c5" "separate_label c5 = Some (X, y, a)"
    by blast
  from combine_gcs_SomeD [OF s(3)] obtain G where
    g: "c5 = filter (\<lambda>p. fst p \<notin> set [''gcs_eyes'', ''gcs_motor'', ''gcs_verbal''])
                    (assign ''gcs'' (Numeric G) c4)"
    by blast
  have "''glucose_min'' \<in> set [''height'', ''weight'', ''gender'', ''ethnicity'',
                  ''unit_type'',
                  ''diabetes'', ''copd'', ''cad'', ''ckd'', ''afib'', ''cirrhosis'', ''hepatic_failure'',
                  ''sedative'', ''diuretic'', ''antiinf'',
                  ''apache_midur'',
                  ''sodium'', ''glucose_min'',
                  ''gcs_meds'',
                  ''sbp_aperiodic_mean'', ''dbp_aperiodic_mean'',
                  ''apache_ventday1'',
                  ''alt_max'',
                  ''hematocrit_min'',
                  ''lym'',
                  ''tropi_max'',
                  ''fibrinogen_min'',
                  ''ioncalcium_min'',
                  ''cpk_max'',
                  ''amylase_max'', ''lipase_max'']"
    by simp
  then have 3: "map_of c3 ''glucose_min'' = None"
    unfolding drop_features_SomeD [OF s(1)] map_of_filter_names by simp
  have 4: "map_of c4 ''glucose_min'' = map_of c3 ''glucose_min''"
    using encode_map_of [OF s(2), of "''glucose_min''"] by simp
  have 5: "map_of c5 ''glucose_min'' = map_of c4 ''glucose_min''"
    unfolding g map_of_filter_names map_of_assign by simp
  have 6: "map_of X ''glucose_min'' = map_of c5 ''glucose_min''"
    unfolding separate_label_SomeD [OF s(4)] map_of_filter_names by simp
  from 3 4 5 6 show ?thesis by (simp add: in_columns_iff)
qed

section \<open>From the merged cohort to the feature matrix\<close>

lemma prepare_SomeD:
  assumes "prepare float_of_str df = Some (X, y, a)"
  shows "\<exists>f r. filter_stage float_of_str df = Some f \<and> reduce_abnormal f = Some r \<and>
           curate r = Some (X, y, a)"
  using assms unfolding prepare_def bind_eq_Some_conv by blast

lemma separate_label_absent:
  assumes "separate_label c = Some (X, y, a)"
  shows "''hospital_expiration'' \<notin> set (columns X)" "''apache_prediction'' \<notin> set (columns X)"
  unfolding separate_label_SomeD [OF assms] columns_def by auto

lemma objects_chain:
  assumes "rectangular df" and f: "filter_stage float_of_str df = Some f"
    and r: "reduce_abnormal f = Some r" and c: "curate r = Some (X, y, a)"
    and x: "x \<in> set (object_columns X)"
  shows "x \<in> set (object_columns df) \<and> x \<notin> {''age'', ''gender'', ''ethnicity'', ''unit_type'',
           ''unitadmitsource'', ''admit_diagnosis'', ''hospital_expiration''}"
proof -
  from subsetD [OF curate_objects [OF c] x]
  have 1: "x \<in> set (object_columns r)"
    and 2: "x \<noteq> ''unitadmitsource''" "x \<noteq> ''gender''" "x \<noteq> ''ethnicity''" "x \<noteq> ''unit_type''"
      "x \<noteq> ''admit_diagnosis''" "x \<noteq> ''hospital_expiration''"
    by simp_all
  from subsetD [OF reduce_abnormal_objects(1) [OF r] 1]
  have "x \<in> set (object_columns f)" .
  from subsetD [OF filter_stage_columns(2) [OF assms(1) f] this]
  have "x \<in> set (object_columns df)" "x \<noteq> ''age''" by simp_all
  with 2 show ?thesis by simp
qed

lemma identifier_chain:
  assumes "rectangular df" and f: "filter_stage float_of_str df = Some f"
    and r: "reduce_abnormal f = Some r" and c: "curate r = Some (X, y, a)"
    and p: "''patientunitstayid'' \<in> set (columns df)"
  shows "''patientunitstayid'' \<in> set (columns X)"
proof -
  from p filter_stage_columns(1) [OF assms(1) f]
  have "''patientunitstayid'' \<in> set (columns f)" by simp
  moreover have "''patientunitstayid'' \<notin> set lab_drop" "''patientunitstayid'' \<notin> set reduced_bounds"
    by (simp_all add: lab_drop_def reduced_bounds_def)
  ultimately have "''patientunitstayid'' \<in> set (columns r)"
    using reduce_abnormal_objects(2) [OF r] by blast
  then have "map_of r ''patientunitstayid'' \<noteq> None" by (simp add: in_columns_iff)
  then have "map_of X ''patientunitstayid'' \<noteq> None"
    using curate_kept [OF c, of "''patientunitstayid''"] by simp
  then show ?thesis by (simp add: in_columns_iff)
qed

lemma example_prepare:
  "prepare float_of_digits example_cohort = Some (example_features, example_label, example_apache)"
  by (simp add: prepare_def example_passes example_reduce example_curate)

text \<open>
  Claim C2, as stated, fails: the feature matrix of the sample still holds the stay
  identifier \<^verbatim>\<open>patientunitstayid\<close>, which no cell of the notebook drops.
\<close>

theorem identifier_column_counterexample:
  "prepare float_of_digits example_cohort = Some (example_features, example_label, example_apache) \<and>
   ''patientunitstayid'' \<in> set (columns example_features)"
proof -
  have "''patientunitstayid'' \<in> set (columns example_features)" by code_simp
  with example_prepare show ?thesis by simp
qed

text \<open>
  Claim C2, amended. Over a merged cohort in which only the age, the gender, the ethnicity,
  the unit type, the unit admit source, the admission diagnosis and the hospital expiration
  may be object columns, the pre-split feature matrix has no object column left (it is
  numeric or indicator-encoded), and the label and benchmark columns are separated from it.
  The stay identifier is not removed: if the cohort has the column
  \<^verbatim>\<open>patientunitstayid\<close>, so has the feature matrix.
\<close>

theorem feature_matrix_numeric:
  assumes "rectangular df" and "prepare float_of_str df = Some (X, y, a)"
    and "set (object_columns df) \<subseteq> {''age'', ''gender'', ''ethnicity'', ''unit_type'',
           ''unitadmitsource'', ''admit_diagnosis'', ''hospital_expiration''}"
  shows "object_columns X = [] \<and>
         ''hospital_expiration'' \<notin> set (columns X) \<and> ''apache_prediction'' \<notin> set (columns X) \<and>
         (''patientunitstayid'' \<in> set (columns df) \<longrightarrow> ''patientunitstayid'' \<in> set (columns X))"
proof -
  from prepare_SomeD [OF assms(2)] obtain f r where f: "filter_stage float_of_str df = Some f"
    and r: "reduce_abnormal f = Some r" and c: "curate r = Some (X, y, a)"
    by blast
  have "x \<notin> set (object_columns X)" for x
  proof
    assume "x \<in> set (object_columns X)"
    from objects_chain [OF assms(1) f r c this] subsetD [OF assms(3), of x]
    show False by simp
  qed
  then have 1: "object_columns X = []" by (cases "object_columns X") auto
  from curate_SomeD [OF c] obtain c5 where "separate_label c5 = Some (X, y, a)" by blast
  note 2 = separate_label_absent [OF this]
  from 1 2 identifier_chain [OF assms(1) f r c] show ?thesis by simp
qed

theorem feature_matrix_numeric_witness:
  "columns example_cohort = cohort_columns \<and> rectangular example_cohort \<and>
   prepare float_of_digits example_cohort = Some (example_features, example_label, example_apache) \<and>
   object_columns example_cohort = [''gender'', ''ethnicity'', ''unit_type'', ''unitadmitsource'',
      ''admit_diagnosis'', ''hospital_expiration''] \<and>
   object_columns example_features = [] \<and>
   ''hospital_expiration'' \<notin> set (columns example_features) \<and>
   ''apache_prediction'' \<notin> set (columns example_features) \<and>
   ''patientunitstayid'' \<in> set (columns example_cohort) \<and>
   ''patientunitstayid'' \<in> set (columns example_features)"
proof -
  have o: "object_columns example_cohort = [''gender'', ''ethnicity'', ''unit_type'',
      ''unitadmitsource'', ''admit_diagnosis'', ''hospital_expiration'']"
    and p: "''patientunitstayid'' \<in> set (columns example_cohort)"
    by code_simp+
  have "set (object_columns example_cohort) \<subseteq> {''age'', ''gender'', ''ethnicity'', ''unit_type'',
           ''unitadmitsource'', ''admit_diagnosis'', ''hospital_expiration''}"
    unfolding o by simp
  from feature_matrix_numeric [OF example_rectangular example_prepare this] p o
    example_rectangular example_prepare example_cohort_columns
  show ?thesis by simp
qed

text \<open>
  Claim C10, as stated, fails: the second stay of the sample has a maximum glucose of \<open>-1\<close>,
  which the sentinel pass replaces by the missing marker on the way to the feature matrix.
\<close>

theorem glucose_unchanged_counterexample:
  "reduce_abnormal example_cohort = Some example_reduced \<and>
   curate example_reduced = Some (example_features, example_label, example_apache) \<and>
   cell example_cohort ''glucose_max'' 1 = Some (Some (- 1)) \<and>
   cell example_features ''glucose_max'' 1 = Some None"
proof -
  have "cell example_cohort ''glucose_max'' 1 = Some (Some (- 1))"
    "cell example_features ''glucose_max'' 1 = Some None"
    by code_simp+
  with example_reduce example_curate show ?thesis by simp
qed

text \<open>
  Claim C10, amended. No reduction rule is applied to glucose: the reducer leaves both glucose
  columns as they are. The minimum is no column of the pre-split feature matrix, and the
  maximum reaches the feature matrix with its values unchanged except that the sentinel pass
  over the whole table replaces each \<open>-1\<close> by the missing marker.
\<close>

theorem glucose_passes_through:
  assumes "rectangular df" and "reduce_abnormal df = Some r" and "curate r = Some (X, y, a)"
  shows "getcol r ''glucose_min'' = getcol df ''glucose_min'' \<and>
         getcol r ''glucose_max'' = getcol df ''glucose_max'' \<and>
         ''glucose_min'' \<notin> set (columns X) \<and>
         getcol X ''glucose_max'' = map_option replace_series (getcol df ''glucose_max'')"
proof -
  have n: "''glucose_min'' \<notin> set lab_drop \<union> set reduced_bounds \<union> {''sodium'', ''potassium'', ''wbc'', ''pmn'', ''lym''}"
    "''glucose_max'' \<notin> set lab_drop \<union> set reduced_bounds \<union> {''sodium'', ''potassium'', ''wbc'', ''pmn'', ''lym''}"
    by (simp_all add: lab_drop_def reduced_bounds_def)
  have "map_of r ''glucose_min'' = map_of df ''glucose_min''"
    "map_of r ''glucose_max'' = map_of df ''glucose_max''"
    by (rule reduce_abnormal_kept [OF assms(1,2) n(1)], rule reduce_abnormal_kept [OF assms(1,2) n(2)])
  then show ?thesis
    using curate_kept [OF assms(3), of "''glucose_max''"] curate_glucose_min [OF assms(3)]
    by (simp add: getcol_def)
qed

theorem glucose_passes_through_witness:
  "rectangular example_cohort \<and> reduce_abnormal example_cohort = Some example_reduced \<and>
   curate example_reduced = Some (example_features, example_label, example_apache) \<and>
   getcol example_cohort ''glucose_min'' = Some (Numeric [Some 90, Some 70, Some (- 1), Some 100]) \<and>
   getcol example_reduced ''glucose_min'' = Some (Numeric [Some 90, Some 70, Some (- 1), Some 100]) \<and>
   ''glucose_min'' \<notin> set (columns example_features) \<and>
   getcol example_cohort ''glucose_max'' = Some (Numeric [Some 180, Some (- 1), Some 140, Some 120]) \<and>
   getcol example_reduced ''glucose_max'' = Some (Numeric [Some 180, Some (- 1), Some 140, Some 120]) \<and>
   getcol example_features ''glucose_max'' = Some (Numeric [Some 180, None, Some 140, Some 120])"
proof -
  have g: "getcol example_cohort ''glucose_min'' = Some (Numeric [Some 90, Some 70, Some (- 1), Some 100])"
    "getcol example_cohort ''glucose_max'' = Some (Numeric [Some 180, Some (- 1), Some 140, Some 120])"
    by code_simp+
  from glucose_passes_through [OF example_rectangular example_reduce example_curate] g
    example_rectangular example_reduce example_curate
  show ?thesis by simp
qed

section \<open>The admission diagnosis from the filter to the encoder\<close>

lemma strs_replace: "strs (map (\<lambda>x. if x = Flt (- 1) then Null else x) xs) = strs xs"
  by (induction xs rule: strs.induct) auto

lemma admit_diagnosis_reaches_encoder:
  assumes w: "rectangular df" and f: "filter_stage float_of_str df = Some f"
    and r: "reduce_abnormal f = Some r" and c1: "relabel_and_prune r = Some c1"
    and c2: "drop_score_and_los c1 = Some c2" and c3: "drop_features c2 = Some c3"
    and a: "objcol c3 ''admit_diagnosis'' = Some adx"
  shows "\<exists>a0. objcol df ''admit_diagnosis'' = Some a0 \<and> set (strs adx) \<subseteq> set (strs a0) \<and>
           ''S-UGIBLEED'' \<notin> set (strs adx) \<and> ''S-LGIBLEED'' \<notin> set (strs adx)"
proof -
  from filter_stage_result [OF w f] have wf: "rectangular f" and p: "passed f" by blast+
  have n: "''admit_diagnosis'' \<notin> set lab_drop \<union> set reduced_bounds \<union> {''sodium'', ''potassium'', ''wbc'', ''pmn'', ''lym''}"
    by (simp add: lab_drop_def reduced_bounds_def)
  have 1: "map_of r ''admit_diagnosis'' = map_of f ''admit_diagnosis''"
    by (rule reduce_abnormal_kept [OF wf r n])
  have 2: "map_of c1 ''admit_diagnosis'' = map_option replace_series (map_of r ''admit_diagnosis'')"
    unfolding relabel_SomeD [OF c1] map_of_filter_names map_of_replace by simp
  have 3: "map_of c2 ''admit_diagnosis'' = map_of c1 ''admit_diagnosis''"
    unfolding drop_score_SomeD [OF c2] map_of_filter_names by simp
  have 4: "map_of c3 ''admit_diagnosis'' = map_of c2 ''admit_diagnosis''"
    unfolding drop_features_SomeD [OF c3] map_of_filter_names by simp
  from a have "map_option replace_series (map_of f ''admit_diagnosis'') = Some (Object adx)"
    by (simp add: objcol_Some 1 2 3 4)
  then obtain s where s: "map_of f ''admit_diagnosis'' = Some s" "replace_series s = Object adx"
    by auto
  then obtain af where af: "s = Object af" "adx = map (\<lambda>x. if x = Flt (- 1) then Null else x) af"
    by (cases s) auto
  have e: "strs adx = strs af" by (simp add: af(2) strs_replace)
  from s af have o: "objcol f ''admit_diagnosis'' = Some af" by (simp add: objcol_Some)
  from filter_stage_columns(3) [OF w f _ o] obtain a0 where
    a0: "objcol df ''admit_diagnosis'' = Some a0" "set af \<subseteq> set a0"
    by auto
  from passedD(3) [OF p] s af
  have "list_all Not (map (\<lambda>x. x \<in> Str ` set [''S-UGIBLEED'', ''S-LGIBLEED'']) af)"
    by (simp add: getcol_def)
  then have "Str ''S-UGIBLEED'' \<notin> set af" "Str ''S-LGIBLEED'' \<notin> set af"
    by (auto simp: list_all_iff)
  then have "''S-UGIBLEED'' \<notin> set (strs adx)" "''S-LGIBLEED'' \<notin> set (strs adx)"
    by (simp_all add: e set_strs)
  moreover have "set (strs adx) \<subseteq> set (strs a0)"
    using a0(2) by (auto simp: e set_strs)
  ultimately show ?thesis using a0(1) by blast
qed

text \<open>
  Claim C8, amended. The encoder produces one indicator column per distinct diagnosis present
  in the column, except the first in sorted order, named \<^verbatim>\<open>adx_\<close> followed by the
  diagnosis; in every row the indicators sum to 1 if the row's diagnosis has a column and to
  0 otherwise; the original column is absent from the output. In the pipeline the column
  reaches the encoder after the surgical-bleed exclusion: of the five known diagnoses only
  \<^verbatim>\<open>LOWGIBLEED\<close>, \<^verbatim>\<open>UGIBLEED\<close> and \<^verbatim>\<open>UNKGIBLEED\<close> are left, so at most two
  indicator columns are produced, \<^verbatim>\<open>adx_UGIBLEED\<close> and \<^verbatim>\<open>adx_UNKGIBLEED\<close>.
\<close>

theorem one_hot_rule:
  assumes "rectangular df" and "filter_stage float_of_str df = Some f"
    and "reduce_abnormal f = Some r" and "relabel_and_prune r = Some c1"
    and "drop_score_and_los c1 = Some c2" and "drop_features c2 = Some c3"
    and "encode_admit_diagnosis c3 = Some c4"
    and "\<forall>a0. objcol df ''admit_diagnosis'' = Some a0 \<longrightarrow> set (strs a0) \<subseteq> set admit_diagnoses"
  shows "\<exists>adx d. objcol c3 ''admit_diagnosis'' = Some adx \<and> get_dummies adx ''adx'' = Some d \<and>
           c4 = filter (\<lambda>p. fst p \<noteq> ''admit_diagnosis'') c3 @ d \<and>
           ''admit_diagnosis'' \<notin> set (columns c4) \<and>
           columns d = map (\<lambda>l. ''adx_'' @ l) (tl (levels adx)) \<and>
           length d = card (set (strs adx)) - 1 \<and>
           (\<forall>i < length adx. indicator_sum d i
               = Some (if adx ! i \<in> Str ` set (tl (levels adx)) then 1 else 0)) \<and>
           set (strs adx) \<subseteq> {''LOWGIBLEED'', ''UGIBLEED'', ''UNKGIBLEED''} \<and>
           set (columns d) \<subseteq> {''adx_UGIBLEED'', ''adx_UNKGIBLEED''} \<and>
           length d \<le> 2"
proof -
  from encode_SomeD [OF assms(7)] obtain adx d where
    a: "objcol c3 ''admit_diagnosis'' = Some adx" and g: "get_dummies adx ''adx'' = Some d"
    and e: "c4 = filter (\<lambda>p. fst p \<noteq> ''admit_diagnosis'') c3 @ d"
    and n: "columns d = map (\<lambda>l. ''adx_'' @ l) (tl (levels adx))"
    by blast
  from g have d: "d = map (\<lambda>l. (''adx_'' @ l, Numeric (map (\<lambda>x. if x = Str l then Some 1 else Some 0) adx)))
            (tl (levels adx))"
    by (simp add: get_dummies_Some)
  have 1: "''admit_diagnosis'' \<notin> set (columns c4)"
    using encode_map_of [OF assms(7), of "''admit_diagnosis''"] by (simp add: in_columns_iff)
  have l: "length d = card (set (strs adx)) - 1"
    using length_levels [of adx] by (simp add: d)
  have "distinct (tl (levels adx))" using levels_props(1) [of adx] by (rule distinct_tl)
  then have 2: "\<forall>i < length adx. indicator_sum d i
               = Some (if adx ! i \<in> Str ` set (tl (levels adx)) then 1 else 0)"
    unfolding d using indicator_sum_dummies by blast
  from admit_diagnosis_reaches_encoder [OF assms(1-6) a] assms(8)
  have "set (strs adx) \<subseteq> set admit_diagnoses"
    "''S-UGIBLEED'' \<notin> set (strs adx)" "''S-LGIBLEED'' \<notin> set (strs adx)"
    by auto
  then have 3: "set (strs adx) \<subseteq> {''LOWGIBLEED'', ''UGIBLEED'', ''UNKGIBLEED''}"
    unfolding admit_diagnoses_def by auto
  from tl_levels_medical [OF 3] have 4: "set (columns d) \<subseteq> {''adx_UGIBLEED'', ''adx_UNKGIBLEED''}"
    unfolding n by auto
  have "card (set (strs adx)) \<le> card {''LOWGIBLEED'', ''UGIBLEED'', ''UNKGIBLEED''}"
    by (rule card_mono [OF _ 3]) simp
  also have "\<dots> = 3" by simp
  finally have 5: "length d \<le> 2" using l by simp
  from a g e 1 n l 2 3 4 5 show ?thesis by blast
qed


lemma example_admitted_dummies:
  "(objcol example_admitted ''admit_diagnosis'' \<bind> (\<lambda>s. get_dummies s ''adx'')
      \<bind> (\<lambda>d. Some (columns d))) = Some [''adx_UGIBLEED'', ''adx_UNKGIBLEED'']"
  by code_simp

text \<open>
  Claim C8, as stated, fails: the sample of admissions holds all five diagnoses, and the column
  that reaches the encoder after the filter stage yields two indicator columns, not four; so
  does the sample cohort through the whole pipeline.
\<close>

theorem one_hot_four_columns_counterexample:
  "map_option levels (objcol example_admissions ''admit_diagnosis'')
     = Some [''LOWGIBLEED'', ''S-LGIBLEED'', ''S-UGIBLEED'', ''UGIBLEED'', ''UNKGIBLEED''] \<and>
   (filter_stage float_of_digits example_admissions \<bind> (\<lambda>c. objcol c ''admit_diagnosis'')
      \<bind> (\<lambda>s. get_dummies s ''adx'') \<bind> (\<lambda>d. Some (columns d)))
     = Some [''adx_UGIBLEED'', ''adx_UNKGIBLEED''] \<and>
   prepare float_of_digits example_cohort = Some (example_features, example_label, example_apache) \<and>
   filter (\<lambda>c. take 4 c = ''adx_'') (columns example_features) = [''adx_UGIBLEED'', ''adx_UNKGIBLEED'']"
proof -
  have "map_option levels (objcol example_admissions ''admit_diagnosis'')
     = Some [''LOWGIBLEED'', ''S-LGIBLEED'', ''S-UGIBLEED'', ''UGIBLEED'', ''UNKGIBLEED'']"
    "filter (\<lambda>c. take 4 c = ''adx_'') (columns example_features) = [''adx_UGIBLEED'', ''adx_UNKGIBLEED'']"
    by code_simp+
  then show ?thesis
    using example_admitted_dummies example_prepare by (simp add: example_filter)
qed

theorem one_hot_rule_witness:
  "\<exists>c1 c2 c3 c4 adx d.
     rectangular example_cohort \<and>
     filter_stage float_of_digits example_cohort = Some example_cohort \<and>
     reduce_abnormal example_cohort = Some example_reduced \<and>
     relabel_and_prune example_reduced = Some c1 \<and> drop_score_and_los c1 = Some c2 \<and>
     drop_features c2 = Some c3 \<and> encode_admit_diagnosis c3 = Some c4 \<and>
     objcol example_cohort ''admit_diagnosis''
       = Some [Str ''UGIBLEED'', Str ''LOWGIBLEED'', Str ''UNKGIBLEED'', Str ''UGIBLEED''] \<and>
     objcol c3 ''admit_diagnosis'' = Some adx \<and> get_dummies adx ''adx'' = Some d \<and>
     ''admit_diagnosis'' \<notin> set (columns c4) \<and>
     length d = card (set (strs adx)) - 1 \<and> length d \<le> 2 \<and>
     set (columns d) \<subseteq> {''adx_UGIBLEED'', ''adx_UNKGIBLEED''} \<and>
     (\<forall>i < length adx. indicator_sum d i = Some 0 \<or> indicator_sum d i = Some 1)"
proof -
  from curate_SomeD [OF example_curate] obtain c1 c2 c3 c4 where
    s: "relabel_and_prune example_reduced = Some c1" "drop_score_and_los c1 = Some c2"
       "drop_features c2 = Some c3" "encode_admit_diagnosis c3 = Some c4"
    by blast
  have o: "objcol example_cohort ''admit_diagnosis''
       = Some [Str ''UGIBLEED'', Str ''LOWGIBLEED'', Str ''UNKGIBLEED'', Str ''UGIBLEED'']"
    by code_simp
  have k: "\<forall>a0. objcol example_cohort ''admit_diagnosis'' = Some a0
            \<longrightarrow> set (strs a0) \<subseteq> set admit_diagnoses"
    unfolding o by (simp add: admit_diagnoses_def)
  from one_hot_rule [OF example_rectangular example_passes example_reduce s k]
  obtain adx d where
    r: "objcol c3 ''admit_diagnosis'' = Some adx" "get_dummies adx ''adx'' = Some d"
       "''admit_diagnosis'' \<notin> set (columns c4)"
       "length d = card (set (strs adx)) - 1" "length d \<le> 2"
       "set (columns d) \<subseteq> {''adx_UGIBLEED'', ''adx_UNKGIBLEED''}"
       "\<forall>i < length adx. indicator_sum d i
               = Some (if adx ! i \<in> Str ` set (tl (levels adx)) then 1 else 0)"
    by (elim exE conjE) (rule that)
  from r(7) have "\<forall>i < length adx. indicator_sum d i = Some 0 \<or> indicator_sum d i = Some 1"
    by simp
  with example_rectangular example_passes [of float_of_digits] example_reduce s o r(1-6)
  show ?thesis by (intro exI conjI)
qed

end
